(* ===== verification/Prelude.thy ===== *)
theory Prelude
  imports Main "HOL-Library.Word" "HOL-Library.Product_Lexorder" "HOL-Library.Multiset"
begin

text \<open>
  Shared vocabulary of the development: identities and instants, the text forms of
  identities and integers that the service writes into keys, the list form of the SQL
  \<open>update ... where\<close>, and the collections of automation the component theories fill.
\<close>

section \<open>Automation\<close>

named_theorems row_simps \<open>how the statements change the tables\<close>
named_theorems key_simps \<open>distinctness and injectivity of keys and subjects\<close>

section \<open>Identities and instants\<close>

text \<open>
  A \<open>Uuid\<close> is its 128-bit value; PostgreSQL orders \<open>uuid\<close> columns by that value.
  An instant is a number of microseconds, the resolution of \<open>timestamptz\<close>.
\<close>

type_synonym uuid = "128 word"
type_synonym instant = int

abbreviation seconds :: "int \<Rightarrow> int" where
  "seconds n \<equiv> n * 1000000"

text \<open>\<open>to_char(... 'SS')\<close> prints whole seconds, so text read back is the start of the second.\<close>

definition whole_second :: "instant \<Rightarrow> instant" where
  "whole_second t = t - t mod seconds 1"

lemma whole_second_le: "whole_second t \<le> t"
  by (simp add: whole_second_def)

lemma whole_second_gt: "t - seconds 1 < whole_second t"
  by (simp add: whole_second_def)

lemma whole_second_idem [simp]: "whole_second (whole_second t) = whole_second t"
  by (simp add: whole_second_def mod_diff_eq minus_mod_self2 flip: minus_mod_eq_mult_div)

lemma whole_second_mono: "s \<le> t \<Longrightarrow> whole_second s \<le> whole_second t"
  by (simp add: whole_second_def minus_mod_eq_mult_div zdiv_mono1)

section \<open>Hexadecimal and decimal text\<close>

definition hex_char :: "nat \<Rightarrow> char" where
  "hex_char n = ''0123456789abcdef'' ! n"

fun hex :: "nat \<Rightarrow> nat \<Rightarrow> string" where
  "hex 0 n = []"
| "hex (Suc k) n = hex k (n div 16) @ [hex_char (n mod 16)]"

text \<open>The hyphenated lowercase text of a \<open>Uuid\<close>.\<close>

definition uuid_text :: "uuid \<Rightarrow> string" where
  "uuid_text u =
     (let h = hex 32 (unat u)
      in take 8 h @ ''-'' @ take 4 (drop 8 h) @ ''-'' @ take 4 (drop 12 h) @ ''-''
           @ take 4 (drop 16 h) @ ''-'' @ drop 20 h)"

lemma length_hex [simp]: "length (hex k n) = k"
  by (induction k arbitrary: n) simp_all

lemma length_uuid_text [simp]: "length (uuid_text u) = 36"
  by (simp add: uuid_text_def Let_def)

lemma hex_char_inj: "m < 16 \<Longrightarrow> n < 16 \<Longrightarrow> hex_char m = hex_char n \<Longrightarrow> m = n"
proof -
  assume m: "m < 16" and n: "n < 16" and eq: "hex_char m = hex_char n"
  have "distinct ''0123456789abcdef''" by code_simp
  with m n eq show ?thesis
    unfolding hex_char_def by (subst (asm) nth_eq_iff_index_eq) auto
qed

lemma hex_inj: "m < 16 ^ k \<Longrightarrow> n < 16 ^ k \<Longrightarrow> hex k m = hex k n \<Longrightarrow> m = n"
proof (induction k arbitrary: m n)
  case 0
  then show ?case by simp
next
  case (Suc k)
  from Suc.prems have "m div 16 < 16 ^ k" and "n div 16 < 16 ^ k"
    by (simp_all add: less_mult_imp_div_less mult.commute)
  moreover from Suc.prems have "hex k (m div 16) = hex k (n div 16)"
    and "hex_char (m mod 16) = hex_char (n mod 16)"
    by simp_all
  ultimately have "m div 16 = n div 16" and "m mod 16 = n mod 16"
    using Suc.IH by (blast, auto intro: hex_char_inj)
  then show ?case by (metis div_mult_mod_eq)
qed

lemma uuid_text_inj: "uuid_text u = uuid_text v \<longleftrightarrow> u = v"
proof
  assume eq: "uuid_text u = uuid_text v"
  let ?g = "\<lambda>t. take 8 t @ take 4 (drop 9 t) @ take 4 (drop 14 t) @ take 4 (drop 19 t) @ drop 24 t"
  have parts: "?g (uuid_text w) = hex 32 (unat w)" for w
  proof -
    let ?h = "hex 32 (unat w)"
    have "?g (uuid_text w) = take 8 ?h @ take 4 (drop 8 ?h) @ take 4 (drop 12 ?h)
        @ take 4 (drop 16 ?h) @ drop 20 ?h"
      by (simp add: uuid_text_def Let_def)
    also have "take 4 (drop 16 ?h) @ drop 20 ?h = drop 16 ?h"
      using append_take_drop_id [of 4 "drop 16 ?h"] by simp
    also have "take 4 (drop 12 ?h) @ drop 16 ?h = drop 12 ?h"
      using append_take_drop_id [of 4 "drop 12 ?h"] by simp
    also have "take 4 (drop 8 ?h) @ drop 12 ?h = drop 8 ?h"
      using append_take_drop_id [of 4 "drop 8 ?h"] by simp
    finally show ?thesis by simp
  qed
  have "hex 32 (unat u) = hex 32 (unat v)"
    using eq parts [of u] parts [of v] by metis
  moreover have "unat w < 16 ^ 32" for w :: uuid
    using unsigned_less [of w] by simp
  ultimately have "unat u = unat v" by (blast intro: hex_inj)
  then show "u = v" by (rule unsigned_word_eqI)
qed simp

declare uuid_text_inj [key_simps, simp]

text \<open>Decimal text of naturals and of signed integers, as Rust prints them.\<close>

fun nat_text :: "nat \<Rightarrow> string" where
  "nat_text n = (if n < 10 then [hex_char n] else nat_text (n div 10) @ [hex_char (n mod 10)])"

declare nat_text.simps [simp del]

definition int_text :: "int \<Rightarrow> string" where
  "int_text i = (if i < 0 then ''-'' @ nat_text (nat (- i)) else nat_text (nat i))"

definition digit_value :: "char \<Rightarrow> nat option" where
  "digit_value c = (let v = of_char c :: nat in if 48 \<le> v \<and> v \<le> 57 then Some (v - 48) else None)"

fun digits_value :: "nat \<Rightarrow> string \<Rightarrow> nat option" where
  "digits_value acc [] = Some acc"
| "digits_value acc (c # cs) =
     (case digit_value c of None \<Rightarrow> None | Some v \<Rightarrow> digits_value (acc * 10 + v) cs)"

text \<open>
  \<open>str::parse\<close> for an unsigned integer type with the given maximum: one optional plus sign,
  at least one digit, nothing else, and a value in range.
\<close>

definition parse_unsigned :: "nat \<Rightarrow> string \<Rightarrow> nat option" where
  "parse_unsigned limit s =
     (let ds = (case s of c # cs \<Rightarrow> if c = CHR ''+'' then cs else s | [] \<Rightarrow> [])
      in if ds = [] then None
         else (case digits_value 0 ds of
                 None \<Rightarrow> None
               | Some n \<Rightarrow> if n \<le> limit then Some n else None))"

lemma digit_value_hex_char: "d < 10 \<Longrightarrow> digit_value (hex_char d) = Some d"
proof -
  have "\<forall>d \<in> set [0..<10]. digit_value (hex_char d) = Some d" by code_simp
  then show "d < 10 \<Longrightarrow> ?thesis" by simp
qed

lemma digits_value_append:
  "digits_value acc (xs @ ys) =
     (case digits_value acc xs of None \<Rightarrow> None | Some n \<Rightarrow> digits_value n ys)"
  by (induction xs arbitrary: acc) (simp_all split: option.split)

lemma digits_value_nat_text: "digits_value 0 (nat_text n) = Some n"
proof (induction n rule: nat_text.induct)
  case (1 n)
  then show ?case
    by (subst nat_text.simps)
      (auto simp: digit_value_hex_char digits_value_append)
qed

lemma nat_text_not_Nil [simp]: "nat_text n \<noteq> []"
  by (subst nat_text.simps) simp

lemma nat_text_no_plus: "hd (nat_text n) \<noteq> CHR ''+''"
proof (induction n rule: nat_text.induct)
  case (1 n)
  have "\<forall>d \<in> set [0..<10]. hex_char d \<noteq> CHR ''+''" by code_simp
  then have digit: "d < 10 \<Longrightarrow> hex_char d \<noteq> CHR ''+''" for d by simp
  show ?case
  proof (cases "n < 10")
    case True
    then show ?thesis by (subst nat_text.simps) (simp add: digit)
  next
    case False
    with "1.IH" have "hd (nat_text (n div 10)) \<noteq> CHR ''+''" by simp
    with False show ?thesis by (subst nat_text.simps) simp
  qed
qed

lemma parse_unsigned_nat_text: "parse_unsigned limit (nat_text n) = (if n \<le> limit then Some n else None)"
proof (cases "nat_text n")
  case (Cons c cs)
  with nat_text_no_plus [of n] have "c \<noteq> CHR ''+''" by simp
  then show ?thesis
    using digits_value_nat_text [of n] by (simp add: parse_unsigned_def Cons)
qed simp

lemma parse_unsigned_negative: "i < 0 \<Longrightarrow> parse_unsigned limit (int_text i) = None"
proof -
  have "digit_value (CHR ''-'') = None" by code_simp
  then show "i < 0 \<Longrightarrow> ?thesis"
    by (simp add: parse_unsigned_def int_text_def)
qed

section \<open>Rows of a table\<close>

text \<open>A table is the list of its rows. \<open>update ... set f where p\<close> and its row count:\<close>

definition update_where :: "('r \<Rightarrow> bool) \<Rightarrow> ('r \<Rightarrow> 'r) \<Rightarrow> 'r list \<Rightarrow> 'r list" where
  "update_where p f = map (\<lambda>r. if p r then f r else r)"

definition count_where :: "('r \<Rightarrow> bool) \<Rightarrow> 'r list \<Rightarrow> nat" where
  "count_where p rows = length (filter p rows)"

text \<open>The first row that a \<open>where\<close> clause admits, as \<open>fetch_optional\<close> returns it.\<close>

definition select_one :: "('r \<Rightarrow> bool) \<Rightarrow> 'r list \<Rightarrow> 'r option" where
  "select_one p rows = find p rows"

text \<open>A column or a tuple of columns holds no value twice.\<close>

abbreviation unique_by :: "('r \<Rightarrow> 'k) \<Rightarrow> 'r list \<Rightarrow> bool" where
  "unique_by k rows \<equiv> distinct (map k rows)"

lemma update_where_simps [row_simps]:
  "update_where p f [] = []"
  "update_where p f (r # rs) = (if p r then f r else r) # update_where p f rs"
  by (simp_all add: update_where_def)

lemma length_update_where [simp]: "length (update_where p f rows) = length rows"
  by (simp add: update_where_def)

lemma update_where_append [row_simps]:
  "update_where p f (xs @ ys) = update_where p f xs @ update_where p f ys"
  by (simp add: update_where_def)

lemma set_update_where:
  "set (update_where p f rows) = {f r | r. r \<in> set rows \<and> p r} \<union> {r \<in> set rows. \<not> p r}"
  by (auto simp: update_where_def)

lemma in_update_whereE:
  assumes "r' \<in> set (update_where p f rows)"
  obtains r where "r \<in> set rows" and "p r" and "r' = f r"
        | "r' \<in> set rows" and "\<not> p r'"
  using assms by (auto simp: set_update_where)

lemma map_update_where:
  "(\<And>r. r \<in> set rows \<Longrightarrow> p r \<Longrightarrow> k (f r) = k r) \<Longrightarrow> map k (update_where p f rows) = map k rows"
  by (simp add: update_where_def)

lemma update_where_none: "(\<And>r. r \<in> set rows \<Longrightarrow> \<not> p r) \<Longrightarrow> update_where p f rows = rows"
  by (induction rows) (simp_all add: update_where_simps)

lemma count_where_0: "count_where p rows = 0 \<longleftrightarrow> (\<forall>r \<in> set rows. \<not> p r)"
  by (auto simp: count_where_def filter_empty_conv)

lemma count_where_append: "count_where p (xs @ ys) = count_where p xs + count_where p ys"
  by (simp add: count_where_def)

lemma count_where_mono:
  "(\<And>r. r \<in> set rows \<Longrightarrow> p r \<Longrightarrow> q r) \<Longrightarrow> count_where p rows \<le> count_where q rows"
  by (induction rows) (auto simp: count_where_def)

lemma unique_by_inj: "unique_by k rows \<Longrightarrow> inj_on k (set rows)"
  by (simp add: distinct_map)

lemma unique_byD: "unique_by k rows \<Longrightarrow> r \<in> set rows \<Longrightarrow> s \<in> set rows \<Longrightarrow> k r = k s \<Longrightarrow> r = s"
  by (auto dest: unique_by_inj inj_onD)

lemma unique_by_distinct: "unique_by k rows \<Longrightarrow> distinct rows"
  by (simp add: distinct_map)

text \<open>With a primary key, a \<open>where\<close> clause that fixes the key touches at most one row.\<close>

lemma count_where_key_le_1:
  assumes "unique_by k rows" and "\<And>r. p r \<Longrightarrow> k r = v"
  shows "count_where p rows \<le> 1"
proof -
  have "distinct (map k (filter p rows))"
    using assms(1) by (rule distinct_map_filter)
  moreover have "set (map k (filter p rows)) \<subseteq> {v}" using assms(2) by auto
  ultimately have "card (set (map k (filter p rows))) = length (filter p rows)"
    and "card (set (map k (filter p rows))) \<le> 1"
    by (metis distinct_card length_map, metis card.empty card_insert_disjoint card_mono empty_iff
        finite.emptyI finite_insert One_nat_def)
  then show ?thesis by (simp add: count_where_def)
qed

lemma count_where_1E:
  assumes "count_where p rows = 1"
  obtains r where "r \<in> set rows" and "p r"
  using assms count_where_0 [of p rows] by auto

lemma select_one_Some: "select_one p rows = Some r \<Longrightarrow> r \<in> set rows \<and> p r"
  by (auto simp: select_one_def find_Some_iff in_set_conv_nth)

lemma select_one_None: "select_one p rows = None \<longleftrightarrow> (\<forall>r \<in> set rows. \<not> p r)"
  by (auto simp: select_one_def find_None_iff)

lemma select_one_key:
  assumes "unique_by k rows" and "r \<in> set rows" and "p r" and "\<And>s. p s \<Longrightarrow> k s = k r"
  shows "select_one p rows = Some r"
proof (cases "select_one p rows")
  case None
  with assms(2,3) show ?thesis by (auto simp: select_one_None)
next
  case (Some s)
  then have "s \<in> set rows" and "p s" by (auto dest: select_one_Some)
  with assms have "s = r" by (metis unique_byD)
  with Some show ?thesis by simp
qed

text \<open>An update by primary key replaces the one row that holds the key.\<close>

lemma update_where_key_split:
  assumes "unique_by k rows" and "r \<in> set rows" and "\<And>s. p s \<longleftrightarrow> k s = k r"
  obtains xs ys where "rows = xs @ r # ys" and "update_where p f rows = xs @ f r # ys"
proof -
  from assms(2) obtain xs ys where rows: "rows = xs @ r # ys" by (meson split_list)
  with assms(1) have "\<And>s. s \<in> set xs \<union> set ys \<Longrightarrow> k s \<noteq> k r" by (auto simp: rev_image_eqI)
  then have "update_where p f xs = xs" and "update_where p f ys = ys" and "p r"
    by (auto intro!: update_where_none simp: assms(3))
  with rows that show thesis by (simp add: row_simps)
qed

section \<open>Batches\<close>

text \<open>\<open>order by k limit n\<close> over the rows that a \<open>where\<close> clause admits.\<close>

definition oldest :: "('r \<Rightarrow> 'k::linorder) \<Rightarrow> nat \<Rightarrow> ('r \<Rightarrow> bool) \<Rightarrow> 'r list \<Rightarrow> 'r list" where
  "oldest k n p rows = take n (sort_key k (filter p rows))"

lemma length_oldest [simp]: "length (oldest k n p rows) = min n (count_where p rows)"
  by (simp add: oldest_def count_where_def min.commute)

lemma in_oldestD: "r \<in> set (oldest k n p rows) \<Longrightarrow> r \<in> set rows \<and> p r"
  by (auto simp: oldest_def dest: in_set_takeD)

lemma oldest_first:
  assumes "r \<in> set (oldest k n p rows)" and "s \<in> set rows" and "p s" and "s \<notin> set (oldest k n p rows)"
  shows "k r \<le> k s"
proof -
  let ?s = "sort_key k (filter p rows)"
  have "sorted (map k (take n ?s @ drop n ?s))" by simp
  then have "\<forall>x \<in> set (take n ?s). \<forall>y \<in> set (drop n ?s). k x \<le> k y"
    unfolding map_append sorted_append by auto
  moreover from assms(2,3) have "s \<in> set (take n ?s @ drop n ?s)" by simp
  then have "s \<in> set (take n ?s) \<or> s \<in> set (drop n ?s)" unfolding set_append by simp
  ultimately show ?thesis using assms(1,4) by (auto simp: oldest_def)
qed

lemma distinct_oldest:
  assumes "unique_by i rows"
  shows "unique_by i (oldest k n p rows)"
proof -
  have "mset (map i (sort_key k (filter p rows))) = mset (map i (filter p rows))" by simp
  then have "unique_by i (sort_key k (filter p rows)) = unique_by i (filter p rows)"
    by (rule mset_eq_imp_distinct_iff)
  with assms show ?thesis
    unfolding oldest_def take_map [symmetric] by (simp add: distinct_map_filter)
qed

text \<open>The rows of a batch, named by their primary key: how many they are, and how many stay.\<close>

abbreviation named :: "('r \<Rightarrow> 'i) \<Rightarrow> 'r list \<Rightarrow> 'r \<Rightarrow> bool" where
  "named i batch \<equiv> \<lambda>r. i r \<in> i ` set batch"

lemma named_iff:
  assumes "unique_by i rows" and "set batch \<subseteq> set rows" and "r \<in> set rows"
  shows "named i batch r \<longleftrightarrow> r \<in> set batch"
proof
  assume "i r \<in> i ` set batch"
  then obtain q where "q \<in> set batch" and "i q = i r" by auto
  with assms show "r \<in> set batch" by (metis subsetD unique_byD)
qed simp

lemma count_named:
  assumes "unique_by i rows" and "set batch \<subseteq> set rows" and "distinct batch"
  shows "count_where (named i batch) rows = length batch"
proof -
  have "filter (named i batch) rows = filter (\<lambda>r. r \<in> set batch) rows"
    by (rule filter_cong [OF refl]) (rule named_iff [OF assms(1,2)])
  moreover have "set (filter (\<lambda>r. r \<in> set batch) rows) = set batch" using assms(2) by auto
  moreover have "distinct (filter (\<lambda>r. r \<in> set batch) rows)"
    using assms(1) by (simp add: unique_by_distinct)
  ultimately show ?thesis
    using assms(3) unfolding count_where_def by (metis distinct_card)
qed

lemma count_batch:
  assumes "unique_by i rows"
  shows "count_where (named i (oldest k n p rows)) rows = min n (count_where p rows)"
proof -
  have "count_where (named i (oldest k n p rows)) rows = length (oldest k n p rows)"
    by (rule count_named [OF assms])
      (use assms in \<open>auto dest: in_oldestD intro: unique_by_distinct [OF distinct_oldest]\<close>)
  then show ?thesis by simp
qed

lemma count_after:
  assumes "\<And>r. r \<in> set rows \<Longrightarrow> t r \<Longrightarrow> p r" and "\<And>r. \<not> p (f r)"
  shows "count_where p (update_where t f rows) + count_where t rows = count_where p rows"
  using assms(1)
proof (induction rows)
  case (Cons r rs)
  then have "count_where p (update_where t f rs) + count_where t rs = count_where p rs" by simp
  with Cons.prems [of r] assms(2) [of r] show ?case
    by (auto simp: update_where_simps count_where_def)
qed (simp add: count_where_def update_where_def)

text \<open>A backlog drains: each batch removes as many as it may take.\<close>

lemma backlog_after_batch:
  assumes unique: "unique_by i rows" and finished: "\<And>r. \<not> p (f r)"
  shows "count_where p (update_where (named i (oldest k n p rows)) f rows) = count_where p rows - n"
proof -
  have "count_where p (update_where (named i (oldest k n p rows)) f rows)
      + count_where (named i (oldest k n p rows)) rows = count_where p rows"
  proof (rule count_after)
    fix r assume "r \<in> set rows" and "named i (oldest k n p rows) r"
    then show "p r" using unique named_iff [of i rows "oldest k n p rows" r] in_oldestD [of _ k n p rows]
      by blast
  qed (rule finished)
  then show ?thesis by (simp add: count_batch [OF unique])
qed

end
