(* ===== verification/Txn.thy ===== *)
theory Txn
  imports Prelude
begin

text \<open>
  How the service talks to its database. A statement is a function on the tables; it runs over
  a connection that may fail at every round trip. The environment's choices are a list of
  replies, one per round trip, and an exhausted list answers every further one. A pooled
  statement is its own transaction; \<open>pool.begin()\<close> opens one that ends by commit, by an explicit
  rollback, or by being dropped, which rolls back too. A lost reply to a commit or to a pooled
  statement leaves its effect in place while the caller sees an error: this is the case that
  the service's replay keys exist for.
\<close>

section \<open>Statements and round trips\<close>

datatype reply = Served | Refused | Lost

text \<open>What \<open>sqlx\<close> reports: no usable answer, a violated constraint, or \<open>errcode P0001\<close>.\<close>

datatype db_error = Unreachable | Violation | Raised_P0001

record 's world =
  tables :: 's
  wire :: "reply list"

type_synonym ('s, 'e, 'a) io = "'s world \<Rightarrow> ('e + 'a) \<times> 's world"
type_synonym ('s, 'a) statement = "'s \<Rightarrow> db_error + 'a \<times> 's"

definition ret :: "'a \<Rightarrow> ('s, 'e, 'a) io" where
  "ret x w = (Inr x, w)"

definition raise :: "'e \<Rightarrow> ('s, 'e, 'a) io" where
  "raise e w = (Inl e, w)"

definition bind_io :: "('s, 'e, 'a) io \<Rightarrow> ('a \<Rightarrow> ('s, 'e, 'b) io) \<Rightarrow> ('s, 'e, 'b) io" where
  "bind_io m k w = (case m w of (Inl e, w') \<Rightarrow> (Inl e, w') | (Inr x, w') \<Rightarrow> k x w')"

text \<open>\<open>map_err\<close> and the \<open>From\<close> conversions of the \<open>?\<close> operator.\<close>

definition map_err :: "('e \<Rightarrow> 'f) \<Rightarrow> ('s, 'e, 'a) io \<Rightarrow> ('s, 'f, 'a) io" where
  "map_err f m w = (case m w of (Inl e, w') \<Rightarrow> (Inl (f e), w') | (Inr x, w') \<Rightarrow> (Inr x, w'))"

text \<open>A fallible pure step, \<open>value.ok_or(e)?\<close>.\<close>

definition ok_or :: "'e \<Rightarrow> 'a option \<Rightarrow> ('s, 'e, 'a) io" where
  "ok_or e v = (case v of None \<Rightarrow> raise e | Some x \<Rightarrow> ret x)"

definition guard :: "'e \<Rightarrow> bool \<Rightarrow> ('s, 'e, unit) io" where
  "guard e b = (if b then ret () else raise e)"

text \<open>A pure \<open>Result\<close> inside an operation, and the chaining of two pure ones.\<close>

definition from_result :: "'e + 'a \<Rightarrow> ('s, 'e, 'a) io" where
  "from_result v = (case v of Inl e \<Rightarrow> raise e | Inr x \<Rightarrow> ret x)"

definition and_then :: "'e + 'a \<Rightarrow> ('a \<Rightarrow> 'e + 'b) \<Rightarrow> 'e + 'b" where
  "and_then v k = (case v of Inl e \<Rightarrow> Inl e | Inr x \<Rightarrow> k x)"

lemma and_then_simps [simp]: "and_then (Inl e) k = Inl e" "and_then (Inr x) k = k x"
  by (simp_all add: and_then_def)

text \<open>\<open>collect::<Result<Vec<_>, _>>()\<close>: the first error in order, or every value.\<close>

fun collect_results :: "('a \<Rightarrow> 'e + 'b) \<Rightarrow> 'a list \<Rightarrow> 'e + 'b list" where
  "collect_results f [] = Inr []"
| "collect_results f (x # xs) = and_then (f x) (\<lambda>y. and_then (collect_results f xs) (\<lambda>ys. Inr (y # ys)))"

lemma and_then_Inr: "and_then v k = Inr y \<longleftrightarrow> (\<exists>x. v = Inr x \<and> k x = Inr y)"
  by (cases v) simp_all

lemma collect_results_Inr:
  "collect_results f xs = Inr ys \<longleftrightarrow> list_all2 (\<lambda>x y. f x = Inr y) xs ys"
  by (induction xs arbitrary: ys) (auto simp: and_then_Inr list_all2_Cons1)

text \<open>The caller that inspects the error for \<open>P0001\<close> and propagates every other one.\<close>

definition catch_raised :: "('s, db_error, 'a) io \<Rightarrow> ('s, db_error, 'a option) io" where
  "catch_raised m w =
     (case m w of
        (Inl Raised_P0001, w') \<Rightarrow> (Inr None, w')
      | (Inl e, w') \<Rightarrow> (Inl e, w')
      | (Inr x, w') \<Rightarrow> (Inr (Some x), w'))"

fun next_reply :: "reply list \<Rightarrow> reply \<times> reply list" where
  "next_reply [] = (Served, [])"
| "next_reply (r # rs) = (r, rs)"

text \<open>One statement on an open transaction.\<close>

definition stmt :: "('s, 'a) statement \<Rightarrow> ('s, db_error, 'a) io" where
  "stmt q w =
     (case next_reply (wire w) of
        (Served, rs) \<Rightarrow>
          (case q (tables w) of
             Inl e \<Rightarrow> (Inl e, w\<lparr>wire := rs\<rparr>)
           | Inr (x, d) \<Rightarrow> (Inr x, w\<lparr>tables := d, wire := rs\<rparr>))
      | (_, rs) \<Rightarrow> (Inl Unreachable, w\<lparr>wire := rs\<rparr>))"

text \<open>One statement on the pool: its own transaction, whose reply may be lost after it ran.\<close>

definition pooled :: "('s, 'a) statement \<Rightarrow> ('s, db_error, 'a) io" where
  "pooled q w =
     (case next_reply (wire w) of
        (Served, rs) \<Rightarrow>
          (case q (tables w) of
             Inl e \<Rightarrow> (Inl e, w\<lparr>wire := rs\<rparr>)
           | Inr (x, d) \<Rightarrow> (Inr x, w\<lparr>tables := d, wire := rs\<rparr>))
      | (Refused, rs) \<Rightarrow> (Inl Unreachable, w\<lparr>wire := rs\<rparr>)
      | (Lost, rs) \<Rightarrow>
          (case q (tables w) of
             Inl e \<Rightarrow> (Inl Unreachable, w\<lparr>wire := rs\<rparr>)
           | Inr (x, d) \<Rightarrow> (Inl Unreachable, w\<lparr>tables := d, wire := rs\<rparr>)))"

text \<open>A statement that only reads.\<close>

definition query :: "('s \<Rightarrow> 'a) \<Rightarrow> ('s, 'a) statement" where
  "query f d = Inr (f d, d)"

text \<open>A read that may fail, when a column cannot be cast or decoded.\<close>

definition reading :: "('s \<Rightarrow> db_error + 'a) \<Rightarrow> ('s, 'a) statement" where
  "reading f d = (case f d of Inl e \<Rightarrow> Inl e | Inr v \<Rightarrow> Inr (v, d))"

section \<open>Transactions\<close>

datatype 'a tx_end = Commit 'a | Rollback 'a | Dropped 'a

fun committed :: "'a tx_end \<Rightarrow> bool" where
  "committed (Commit x) = True"
| "committed (Rollback x) = False"
| "committed (Dropped x) = False"

fun tx_value :: "'a tx_end \<Rightarrow> 'a" where
  "tx_value (Commit x) = x"
| "tx_value (Rollback x) = x"
| "tx_value (Dropped x) = x"

definition transaction :: "'e \<Rightarrow> ('s, 'e, 'a tx_end) io \<Rightarrow> ('s, 'e, 'a) io" where
  "transaction unavailable body w =
     (case next_reply (wire w) of
        (Served, rs) \<Rightarrow>
          (case body (w\<lparr>wire := rs\<rparr>) of
             (Inl e, w') \<Rightarrow> (Inl e, w\<lparr>wire := wire w'\<rparr>)
           | (Inr (Dropped x), w') \<Rightarrow> (Inr x, w\<lparr>wire := wire w'\<rparr>)
           | (Inr (Rollback x), w') \<Rightarrow>
               (case next_reply (wire w') of
                  (Served, rs') \<Rightarrow> (Inr x, w\<lparr>wire := rs'\<rparr>)
                | (_, rs') \<Rightarrow> (Inl unavailable, w\<lparr>wire := rs'\<rparr>))
           | (Inr (Commit x), w') \<Rightarrow>
               (case next_reply (wire w') of
                  (Served, rs') \<Rightarrow> (Inr x, w\<lparr>tables := tables w', wire := rs'\<rparr>)
                | (Refused, rs') \<Rightarrow> (Inl unavailable, w\<lparr>wire := rs'\<rparr>)
                | (Lost, rs') \<Rightarrow> (Inl unavailable, w\<lparr>tables := tables w', wire := rs'\<rparr>)))
      | (_, rs) \<Rightarrow> (Inl unavailable, w\<lparr>wire := rs\<rparr>))"

section \<open>The run without faults\<close>

definition healthy :: "'s \<Rightarrow> 's world" where
  "healthy d = \<lparr>tables = d, wire = []\<rparr>"

text \<open>What an operation answers, and the tables it leaves, when every round trip is served.\<close>

definition answer_of :: "('s, 'e, 'a) io \<Rightarrow> 's \<Rightarrow> 'e + 'a" where
  "answer_of m d = fst (m (healthy d))"

definition effect_of :: "('s, 'e, 'a) io \<Rightarrow> 's \<Rightarrow> 's" where
  "effect_of m d = tables (snd (m (healthy d)))"

lemma healthy_simps [simp]:
  "tables (healthy d) = d" "wire (healthy d) = []"
  "(healthy d)\<lparr>wire := []\<rparr> = healthy d" "(healthy d)\<lparr>tables := d', wire := []\<rparr> = healthy d'"
  "(healthy d)\<lparr>tables := d'\<rparr> = healthy d'"
  by (simp_all add: healthy_def)

lemma wire_Nil_healthy: "wire w = [] \<Longrightarrow> w = healthy (tables w)"
  by (cases w) (simp add: healthy_def)

lemma healthy_stays [simp]:
  "ret x (healthy d) = (Inr x, healthy d)"
  "raise e (healthy d) = (Inl e, healthy d)"
  by (simp_all add: ret_def raise_def)

lemma run_bind [simp]:
  "bind_io m k (healthy d) = (case m (healthy d) of (Inl e, w') \<Rightarrow> (Inl e, w') | (Inr x, w') \<Rightarrow> k x w')"
  by (simp add: bind_io_def)

lemma run_map_err [simp]:
  "map_err f m (healthy d) =
     (case m (healthy d) of (Inl e, w') \<Rightarrow> (Inl (f e), w') | (Inr x, w') \<Rightarrow> (Inr x, w'))"
  by (simp add: map_err_def)

lemma run_catch_raised [simp]:
  "catch_raised m (healthy d) =
     (case m (healthy d) of
        (Inl e, w') \<Rightarrow> (if e = Raised_P0001 then (Inr None, w') else (Inl e, w'))
      | (Inr x, w') \<Rightarrow> (Inr (Some x), w'))"
proof -
  obtain r w' where m: "m (healthy d) = (r, w')" by force
  show ?thesis
    by (cases r; cases "projl r") (simp_all add: catch_raised_def m)
qed

lemma run_guard [simp]:
  "guard e b (healthy d) = (if b then (Inr (), healthy d) else (Inl e, healthy d))"
  by (simp add: guard_def)

lemma run_ok_or [simp]:
  "ok_or e v (healthy d) = (case v of None \<Rightarrow> (Inl e, healthy d) | Some x \<Rightarrow> (Inr x, healthy d))"
  by (simp add: ok_or_def split: option.split)

lemma run_from_result [simp]:
  "from_result v (healthy d) = (v, healthy d)"
  by (simp add: from_result_def split: sum.split)

lemma run_stmt [simp]:
  "stmt q (healthy d) =
     (case q d of Inl e \<Rightarrow> (Inl e, healthy d) | Inr (x, d') \<Rightarrow> (Inr x, healthy d'))"
  by (simp add: stmt_def split: sum.split)

lemma run_pooled [simp]:
  "pooled q (healthy d) =
     (case q d of Inl e \<Rightarrow> (Inl e, healthy d) | Inr (x, d') \<Rightarrow> (Inr x, healthy d'))"
  by (simp add: pooled_def split: sum.split)

lemma run_query [simp]: "query f d = Inr (f d, d)"
  by (simp add: query_def)

lemma run_transaction:
  "transaction u body (healthy d) =
     (case body (healthy d) of
        (Inl e, w') \<Rightarrow> (Inl e, healthy d\<lparr>wire := wire w'\<rparr>)
      | (Inr t, w') \<Rightarrow>
          (case t of
             Dropped x \<Rightarrow> (Inr x, healthy d\<lparr>wire := wire w'\<rparr>)
           | Rollback x \<Rightarrow>
               (case next_reply (wire w') of
                  (Served, rs') \<Rightarrow> (Inr x, healthy d\<lparr>wire := rs'\<rparr>)
                | (_, rs') \<Rightarrow> (Inl u, healthy d\<lparr>wire := rs'\<rparr>))
           | Commit x \<Rightarrow>
               (case next_reply (wire w') of
                  (Served, rs') \<Rightarrow> (Inr x, healthy d\<lparr>tables := tables w', wire := rs'\<rparr>)
                | (Refused, rs') \<Rightarrow> (Inl u, healthy d\<lparr>wire := rs'\<rparr>)
                | (Lost, rs') \<Rightarrow> (Inl u, healthy d\<lparr>tables := tables w', wire := rs'\<rparr>))))"
proof -
  obtain r w' where body: "body (healthy d) = (r, w')" by force
  show ?thesis
  proof (cases r)
    case (Inr t)
    with body show ?thesis by (cases t) (simp_all add: transaction_def)
  qed (simp add: transaction_def body)
qed

section \<open>Programs whose success does not depend on the connection\<close>

text \<open>
  A transaction body is steady: when it succeeds over a faulty connection, it has read and
  written exactly what the run without faults reads and writes.
\<close>

definition steady :: "('s, 'e, 'a) io \<Rightarrow> bool" where
  "steady m \<longleftrightarrow>
     (\<forall>w x w'. m w = (Inr x, w') \<longrightarrow> m (healthy (tables w)) = (Inr x, healthy (tables w')))"

lemma steadyI:
  "(\<And>w x w'. m w = (Inr x, w') \<Longrightarrow> m (healthy (tables w)) = (Inr x, healthy (tables w'))) \<Longrightarrow> steady m"
  by (simp add: steady_def)

lemma steadyD: "steady m \<Longrightarrow> m w = (Inr x, w') \<Longrightarrow> m (healthy (tables w)) = (Inr x, healthy (tables w'))"
  by (simp add: steady_def)

named_theorems steady_intros \<open>closure rules of steady programs\<close>

lemma steady_ret [steady_intros]: "steady (ret x)"
  by (auto simp: steady_def ret_def)

lemma steady_raise [steady_intros]: "steady (raise e)"
  by (auto simp: steady_def raise_def)

lemma steady_guard [steady_intros]: "steady (guard e b)"
  by (auto simp: guard_def intro: steady_intros)

lemma steady_ok_or [steady_intros]: "steady (ok_or e v)"
  by (auto simp: ok_or_def split: option.split intro: steady_intros)

lemma steady_from_result [steady_intros]: "steady (from_result v)"
  by (auto simp: from_result_def split: sum.split intro: steady_intros)

lemma steady_bind [steady_intros]:
  assumes "steady m" and "\<And>x. steady (k x)"
  shows "steady (bind_io m k)"
proof (rule steadyI)
  fix w w' :: "_ world" and y
  assume "bind_io m k w = (Inr y, w')"
  then obtain x w1 where m: "m w = (Inr x, w1)" and k: "k x w1 = (Inr y, w')"
    by (auto simp: bind_io_def split: prod.splits sum.splits)
  show "bind_io m k (healthy (tables w)) = (Inr y, healthy (tables w'))"
    using steadyD [OF assms(1) m] steadyD [OF assms(2) k] by simp
qed

lemma steady_map_err [steady_intros]: "steady m \<Longrightarrow> steady (map_err f m)"
proof (rule steadyI)
  fix w w' :: "_ world" and x
  assume m: "steady m" and run: "map_err f m w = (Inr x, w')"
  then have "m w = (Inr x, w')"
    by (simp add: map_err_def split: prod.splits sum.splits)
  with m show "map_err f m (healthy (tables w)) = (Inr x, healthy (tables w'))"
    by (simp add: steadyD)
qed

lemma stmt_success:
  assumes "stmt q w = (Inr x, w')"
  shows "q (tables w) = Inr (x, tables w')"
proof -
  obtain c rs where reply: "next_reply (wire w) = (c, rs)" by force
  with assms have "c = Served" by (cases c) (simp_all add: stmt_def)
  with assms reply show ?thesis
    by (cases "q (tables w)") (auto simp: stmt_def)
qed

lemma stmt_raised:
  assumes "stmt q w = (Inl Raised_P0001, w')"
  shows "q (tables w) = Inl Raised_P0001 \<and> tables w' = tables w"
proof -
  obtain c rs where reply: "next_reply (wire w) = (c, rs)" by force
  with assms have "c = Served" by (cases c) (simp_all add: stmt_def)
  with assms reply show ?thesis
    by (cases "q (tables w)") (auto simp: stmt_def)
qed

lemma steady_stmt [steady_intros]: "steady (stmt q)"
  by (rule steadyI) (simp add: stmt_success)

lemma steady_catch_stmt [steady_intros]: "steady (catch_raised (stmt q))"
proof (rule steadyI)
  fix w w' :: "_ world" and v
  assume run: "catch_raised (stmt q) w = (Inr v, w')"
  obtain r w1 where m: "stmt q w = (r, w1)" by force
  show "catch_raised (stmt q) (healthy (tables w)) = (Inr v, healthy (tables w'))"
  proof (cases r)
    case (Inl e)
    with run m have "e = Raised_P0001" and "v = None" and "w' = w1"
      by (cases e; simp add: catch_raised_def)+
    with m Inl stmt_raised [of q w w1] show ?thesis by simp
  next
    case (Inr x)
    with run m have "v = Some x" and "w' = w1" by (simp_all add: catch_raised_def)
    with m Inr stmt_success [of q w x w1] show ?thesis by simp
  qed
qed

lemma steady_if [steady_intros]: "steady m \<Longrightarrow> steady n \<Longrightarrow> steady (if b then m else n)"
  by simp

lemma steady_case_option [steady_intros]:
  "steady m \<Longrightarrow> (\<And>x. steady (k x)) \<Longrightarrow> steady (case v of None \<Rightarrow> m | Some x \<Rightarrow> k x)"
  by (simp split: option.split)

lemma steady_case_prod [steady_intros]:
  "(\<And>x y. steady (k x y)) \<Longrightarrow> steady (case v of (x, y) \<Rightarrow> k x y)"
  by (simp split: prod.split)

text \<open>A loop over a list of items, one statement sequence each.\<close>

fun for_each :: "('a \<Rightarrow> ('s, 'e, unit) io) \<Rightarrow> 'a list \<Rightarrow> ('s, 'e, unit) io" where
  "for_each f [] = ret ()"
| "for_each f (x # xs) = bind_io (f x) (\<lambda>_. for_each f xs)"

lemma steady_for_each [steady_intros]: "(\<And>x. steady (f x)) \<Longrightarrow> steady (for_each f xs)"
  by (induction xs) (auto intro: steady_intros)

section \<open>Crash safety\<close>

text \<open>
  An operation is crash safe when, whatever the connection does, a success is the success of
  the run without faults, and an error leaves either the old tables or the complete effect.
\<close>

definition crash_safe :: "('s, 'e, 'a) io \<Rightarrow> bool" where
  "crash_safe m \<longleftrightarrow>
     (\<forall>w r w'. m w = (r, w') \<longrightarrow>
        (case r of
           Inr x \<Rightarrow> m (healthy (tables w)) = (Inr x, healthy (tables w'))
         | Inl e \<Rightarrow> tables w' = tables w \<or> tables w' = effect_of m (tables w)))"

named_theorems crash_intros \<open>closure rules of crash safe operations\<close>

lemma crash_safeI:
  assumes "\<And>w r w'. m w = (r, w') \<Longrightarrow>
      (case r of
         Inr x \<Rightarrow> m (healthy (tables w)) = (Inr x, healthy (tables w'))
       | Inl e \<Rightarrow> tables w' = tables w \<or> tables w' = effect_of m (tables w))"
  shows "crash_safe m"
  using assms by (simp add: crash_safe_def)

lemma crash_safe_cases:
  assumes "crash_safe m"
  shows "tables (snd (m w)) = tables w \<or> tables (snd (m w)) = effect_of m (tables w)"
proof (cases "m w")
  case (Pair r w')
  with assms have "case r of
           Inr x \<Rightarrow> m (healthy (tables w)) = (Inr x, healthy (tables w'))
         | Inl e \<Rightarrow> tables w' = tables w \<or> tables w' = effect_of m (tables w)"
    by (simp add: crash_safe_def)
  with Pair show ?thesis by (cases r) (auto simp: effect_of_def)
qed

lemma crash_safe_success:
  "crash_safe m \<Longrightarrow> m w = (Inr x, w') \<Longrightarrow> m (healthy (tables w)) = (Inr x, healthy (tables w'))"
  by (fastforce simp: crash_safe_def)

lemma crash_safe_ret [crash_intros]: "crash_safe (ret x)"
  by (auto simp: crash_safe_def ret_def)

lemma crash_safe_raise [crash_intros]: "crash_safe (raise e)"
  by (auto simp: crash_safe_def raise_def)

lemma crash_safe_if [crash_intros]: "crash_safe m \<Longrightarrow> crash_safe n \<Longrightarrow> crash_safe (if b then m else n)"
  by simp

lemma crash_safe_case_option [crash_intros]:
  "crash_safe m \<Longrightarrow> (\<And>x. crash_safe (k x)) \<Longrightarrow> crash_safe (case v of None \<Rightarrow> m | Some x \<Rightarrow> k x)"
  by (simp split: option.split)

lemma crash_safe_case_prod [crash_intros]:
  "(\<And>x y. crash_safe (k x y)) \<Longrightarrow> crash_safe (case v of (x, y) \<Rightarrow> k x y)"
  by (simp split: prod.split)

text \<open>A step that neither reads nor writes the tables, before an operation.\<close>

lemma bind_guard: "bind_io (guard e b) k = (if b then k () else raise e)"
  by (rule ext) (simp add: bind_io_def guard_def ret_def raise_def)

lemma bind_ok_or: "bind_io (ok_or e v) k = (case v of None \<Rightarrow> raise e | Some x \<Rightarrow> k x)"
  by (rule ext) (simp add: bind_io_def ok_or_def ret_def raise_def split: option.split)

lemma crash_safe_bind_guard [crash_intros]:
  "crash_safe (k ()) \<Longrightarrow> crash_safe (bind_io (guard e b) k)"
  by (simp add: bind_guard crash_safe_raise)

lemma crash_safe_bind_ok_or [crash_intros]:
  "(\<And>x. crash_safe (k x)) \<Longrightarrow> crash_safe (bind_io (ok_or e v) k)"
  by (simp add: bind_ok_or crash_safe_raise split: option.split)

lemma crash_safe_map_err [crash_intros]:
  assumes "crash_safe m"
  shows "crash_safe (map_err f m)"
proof -
  have eff: "effect_of (map_err f m) d = effect_of m d" for d
    by (auto simp: effect_of_def split: prod.split sum.split)
  show ?thesis
    unfolding crash_safe_def
  proof (intro allI impI)
    fix w w' :: "_ world" and r
    assume run: "map_err f m w = (r, w')"
    show "case r of
           Inr x \<Rightarrow> map_err f m (healthy (tables w)) = (Inr x, healthy (tables w'))
         | Inl e \<Rightarrow> tables w' = tables w \<or> tables w' = effect_of (map_err f m) (tables w)"
    proof (cases r)
      case (Inl e)
      with run have "tables w' = tables (snd (m w))"
        by (auto simp: map_err_def split: prod.splits sum.splits)
      with Inl show ?thesis using crash_safe_cases [OF assms] by (simp add: eff)
    next
      case (Inr x)
      with run have "m w = (Inr x, w')"
        by (auto simp: map_err_def split: prod.splits sum.splits)
      from crash_safe_success [OF assms this] Inr show ?thesis by simp
    qed
  qed
qed

text \<open>A read on the pool before an operation: the operation starts from the same tables.\<close>

lemma crash_safe_bind_read [crash_intros]:
  assumes "\<And>x. crash_safe (k x)"
  shows "crash_safe (bind_io (map_err f (pooled (query g))) k)"
  unfolding crash_safe_def
proof (intro allI impI)
  fix w w' :: "_ world" and r
  let ?m = "bind_io (map_err f (pooled (query g))) k"
  let ?k = "k (g (tables w))"
  assume run: "?m w = (r, w')"
  have healthy_run: "?m (healthy (tables w)) = ?k (healthy (tables w))" by simp
  then have eff: "effect_of ?m (tables w) = effect_of ?k (tables w)"
    by (simp add: effect_of_def)
  obtain c rs where reply: "next_reply (wire w) = (c, rs)" by force
  show "case r of
           Inr x \<Rightarrow> ?m (healthy (tables w)) = (Inr x, healthy (tables w'))
         | Inl e \<Rightarrow> tables w' = tables w \<or> tables w' = effect_of ?m (tables w)"
  proof (cases "c = Served")
    case True
    with run reply have k: "?k (w\<lparr>wire := rs\<rparr>) = (r, w')"
      by (auto simp: bind_io_def map_err_def pooled_def)
    show ?thesis
    proof (cases r)
      case (Inl e)
      from crash_safe_cases [OF assms, of "g (tables w)" "w\<lparr>wire := rs\<rparr>"] k Inl
      show ?thesis by (simp add: eff)
    next
      case (Inr x)
      with k crash_safe_success [OF assms, of "g (tables w)" "w\<lparr>wire := rs\<rparr>" x w']
      show ?thesis by (simp only: healthy_run) simp
    qed
  next
    case False
    with run reply show ?thesis
      by (cases c) (auto simp: bind_io_def map_err_def pooled_def)
  qed
qed

lemma reading_Inr: "reading f d = Inr (v, d') \<longleftrightarrow> f d = Inr v \<and> d' = d"
  by (auto simp: reading_def split: sum.split)

lemma run_reading [simp]: "reading f d = (case f d of Inl e \<Rightarrow> Inl e | Inr v \<Rightarrow> Inr (v, d))"
  by (simp add: reading_def)

lemma crash_safe_bind_reading [crash_intros]:
  assumes "\<And>x. crash_safe (k x)"
  shows "crash_safe (bind_io (map_err f (pooled (reading g))) k)"
proof (rule crash_safeI)
  fix w r and w' :: "_ world"
  let ?m = "bind_io (map_err f (pooled (reading g))) k"
  assume run: "?m w = (r, w')"
  obtain c rs where reply: "next_reply (wire w) = (c, rs)" by force
  show "case r of
           Inr x \<Rightarrow> ?m (healthy (tables w)) = (Inr x, healthy (tables w'))
         | Inl e \<Rightarrow> tables w' = tables w \<or> tables w' = effect_of ?m (tables w)"
  proof (cases "c = Served \<and> (\<exists>v. g (tables w) = Inr v)")
    case True
    then obtain v where g: "g (tables w) = Inr v" by blast
    with run reply True have k: "k v (w\<lparr>wire := rs\<rparr>) = (r, w')"
      by (auto simp: bind_io_def map_err_def pooled_def)
    have healthy_run: "?m (healthy (tables w)) = k v (healthy (tables w))" using g by simp
    then have eff: "effect_of ?m (tables w) = effect_of (k v) (tables w)"
      by (simp add: effect_of_def)
    show ?thesis
    proof (cases r)
      case (Inl e)
      from crash_safe_cases [OF assms, of v "w\<lparr>wire := rs\<rparr>"] k Inl
      show ?thesis by (simp add: eff)
    next
      case (Inr x)
      with k crash_safe_success [OF assms, of v "w\<lparr>wire := rs\<rparr>" x w']
      show ?thesis by (simp only: healthy_run) simp
    qed
  next
    case False
    with run reply show ?thesis
      by (cases c; cases "g (tables w)") (auto simp: bind_io_def map_err_def pooled_def)
  qed
qed

text \<open>A pure step after an operation.\<close>

lemma effect_of_bind_result [simp]: "effect_of (bind_io m (\<lambda>v. from_result (g v))) d = effect_of m d"
  by (simp add: effect_of_def from_result_def ret_def raise_def split: prod.split sum.split)

lemma crash_safe_bind_result [crash_intros]:
  assumes "crash_safe m"
  shows "crash_safe (bind_io m (\<lambda>v. from_result (g v)))"
proof (rule crash_safeI)
  fix w r and w' :: "_ world"
  let ?m = "bind_io m (\<lambda>v. from_result (g v))"
  assume run: "?m w = (r, w')"
  obtain r1 w1 where m: "m w = (r1, w1)" by force
  with run have same: "tables w' = tables w1"
    by (cases r1) (auto simp: bind_io_def from_result_def ret_def raise_def split: sum.splits)
  show "case r of
           Inr x \<Rightarrow> ?m (healthy (tables w)) = (Inr x, healthy (tables w'))
         | Inl e \<Rightarrow> tables w' = tables w \<or> tables w' = effect_of ?m (tables w)"
  proof (cases r)
    case (Inl e)
    with crash_safe_cases [OF assms, of w] m same show ?thesis by simp
  next
    case (Inr x)
    with run m obtain v where "r1 = Inr v" and "g v = Inr x"
      by (cases r1) (auto simp: bind_io_def from_result_def ret_def raise_def split: sum.splits)
    with crash_safe_success [OF assms, of w v w1] m same Inr show ?thesis by simp
  qed
qed

lemma crash_safe_bind_from_result [crash_intros]:
  assumes "\<And>x. crash_safe (k x)"
  shows "crash_safe (bind_io (from_result v) k)"
proof (cases v)
  case (Inl e)
  then have "bind_io (from_result v) k = raise e"
    by (intro ext) (simp add: bind_io_def from_result_def raise_def)
  then show ?thesis by (simp add: crash_safe_raise)
next
  case (Inr x)
  then have "bind_io (from_result v) k = k x"
    by (intro ext) (simp add: bind_io_def from_result_def ret_def)
  with assms show ?thesis by simp
qed

lemma crash_safe_pooled [crash_intros]: "crash_safe (pooled q)"
  unfolding crash_safe_def
proof (intro allI impI)
  fix w w' :: "_ world" and r
  assume run: "pooled q w = (r, w')"
  obtain c rs where reply: "next_reply (wire w) = (c, rs)" by force
  show "case r of
           Inr x \<Rightarrow> pooled q (healthy (tables w)) = (Inr x, healthy (tables w'))
         | Inl e \<Rightarrow> tables w' = tables w \<or> tables w' = effect_of (pooled q) (tables w)"
    using run reply
    by (cases c; cases "q (tables w)") (auto simp: pooled_def effect_of_def)
qed

text \<open>A transaction whose body is steady, under any connection.\<close>

lemma run_transaction_commit:
  "body (healthy d) = (Inr (Commit x), healthy d') \<Longrightarrow> transaction u body (healthy d) = (Inr x, healthy d')"
  by (simp add: run_transaction)

lemma run_transaction_undone:
  "body (healthy d) = (Inr t, healthy d') \<Longrightarrow> \<not> committed t
     \<Longrightarrow> transaction u body (healthy d) = (Inr (tx_value t), healthy d)"
  by (cases t) (simp_all add: run_transaction)

lemma transaction_cases:
  assumes run: "transaction u body w = (r, w')" and steady: "steady body"
  obtains (failed) e where "r = Inl e" and "tables w' = tables w"
    | (unacknowledged) x d' where "r = Inl u" and "tables w' = d'"
        and "body (healthy (tables w)) = (Inr (Commit x), healthy d')"
    | (settled) x d' where "r = Inr x" and "tables w' = d'"
        and "body (healthy (tables w)) = (Inr (Commit x), healthy d')"
    | (undone) t d' where "r = Inr (tx_value t)" and "tables w' = tables w" and "\<not> committed t"
        and "body (healthy (tables w)) = (Inr t, healthy d')"
proof -
  obtain c rs where reply: "next_reply (wire w) = (c, rs)" by force
  show thesis
  proof (cases "c = Served")
    case False
    with run reply show thesis
      by (intro failed [of u]) (cases c; auto simp: transaction_def)+
  next
    case True
    obtain v w1 where body: "body (w\<lparr>wire := rs\<rparr>) = (v, w1)" by force
    show thesis
    proof (cases v)
      case (Inl e)
      with run reply True body show thesis
        by (intro failed [of e]) (auto simp: transaction_def)
    next
      case (Inr t)
      with steadyD [OF steady, of "w\<lparr>wire := rs\<rparr>" t w1] body
      have served: "body (healthy (tables w)) = (Inr t, healthy (tables w1))" by simp
      obtain c' rs' where reply': "next_reply (wire w1) = (c', rs')" by force
      note unfold = transaction_def reply True body Inr reply'
      show thesis
      proof (cases t)
        case (Commit x)
        with run have "r = (if c' = Served then Inr x else Inl u)"
          and "tables w' = (if c' = Refused then tables w else tables w1)"
          by (cases c'; auto simp: unfold)+
        with served Commit show thesis
          by (cases c') (auto intro: failed unacknowledged settled)
      next
        case (Rollback x)
        with run have "r = (if c' = Served then Inr x else Inl u)" and "tables w' = tables w"
          by (cases c'; auto simp: unfold)+
        with served Rollback show thesis
          using undone [of t "tables w1"] by (cases c') (auto intro: failed)
      next
        case (Dropped x)
        with run have "r = Inr x" and "tables w' = tables w" by (auto simp: unfold)
        with served Dropped show thesis using undone [of t "tables w1"] by simp
      qed
    qed
  qed
qed

lemma crash_safe_transaction [crash_intros]:
  assumes "steady body"
  shows "crash_safe (transaction u body)"
  unfolding crash_safe_def
proof (intro allI impI)
  fix w w' :: "_ world" and r
  assume "transaction u body w = (r, w')"
  then show "case r of
           Inr x \<Rightarrow> transaction u body (healthy (tables w)) = (Inr x, healthy (tables w'))
         | Inl e \<Rightarrow> tables w' = tables w \<or> tables w' = effect_of (transaction u body) (tables w)"
    using assms
    by (cases rule: transaction_cases)
      (auto simp: effect_of_def run_transaction_commit run_transaction_undone)
qed

text \<open>
  A transaction that either settles the operation, or hands over to another operation after
  it has rolled back. \<open>hands_over_undone\<close>: it never hands over after a commit.
\<close>

definition hands_over_undone :: "('s, 'e, ('a + 'b) tx_end) io \<Rightarrow> bool" where
  "hands_over_undone body \<longleftrightarrow> (\<forall>d b. fst (body (healthy d)) \<noteq> Inr (Commit (Inr b)))"

definition or_else :: "('s, 'e, 'a + 'b) io \<Rightarrow> ('b \<Rightarrow> ('s, 'e, 'a) io) \<Rightarrow> ('s, 'e, 'a) io" where
  "or_else m k = bind_io m (\<lambda>v. case v of Inl x \<Rightarrow> ret x | Inr b \<Rightarrow> k b)"

lemma run_or_else [simp]:
  "or_else m k (healthy d) =
     (case m (healthy d) of
        (Inl e, w') \<Rightarrow> (Inl e, w')
      | (Inr v, w') \<Rightarrow> (case v of Inl x \<Rightarrow> (Inr x, w') | Inr b \<Rightarrow> k b w'))"
  by (simp add: or_else_def ret_def split: sum.split prod.split)

lemma crash_safe_or_else [crash_intros]:
  assumes steady: "steady body" and over: "hands_over_undone body" and k: "\<And>b. crash_safe (k b)"
  shows "crash_safe (or_else (transaction u body) k)"
  unfolding crash_safe_def
proof (intro allI impI)
  fix w w' :: "_ world" and r
  let ?m = "or_else (transaction u body) k"
  assume run: "?m w = (r, w')"
  obtain r1 w1 where tx: "transaction u body w = (r1, w1)" by force
  have inl: "\<exists>a. x = Inl a" if "body (healthy d) = (Inr (Commit x), healthy d')" for x d d'
    using over that by (cases x) (auto simp: hands_over_undone_def dest: spec [of _ d])
  from tx steady show "case r of
           Inr x \<Rightarrow> ?m (healthy (tables w)) = (Inr x, healthy (tables w'))
         | Inl e \<Rightarrow> tables w' = tables w \<or> tables w' = effect_of ?m (tables w)"
  proof (cases rule: transaction_cases)
    case (failed e)
    with run tx show ?thesis by (auto simp: or_else_def bind_io_def)
  next
    case (unacknowledged x d')
    from inl [OF unacknowledged(3)] obtain a where "x = Inl a" by blast
    with unacknowledged run tx show ?thesis
      by (auto simp: or_else_def bind_io_def effect_of_def run_transaction_commit)
  next
    case (settled x d')
    from inl [OF settled(3)] obtain a where "x = Inl a" by blast
    with settled run tx show ?thesis
      by (auto simp: or_else_def bind_io_def ret_def run_transaction_commit)
  next
    case (undone t d')
    show ?thesis
    proof (cases "tx_value t")
      case (Inl a)
      with undone run tx show ?thesis
        by (auto simp: or_else_def bind_io_def ret_def run_transaction_undone)
    next
      case (Inr b)
      with undone run tx have kb: "k b w1 = (r, w')"
        by (simp add: or_else_def bind_io_def)
      from undone Inr have healthy_run: "?m (healthy (tables w)) = k b (healthy (tables w))"
        by (simp add: run_transaction_undone)
      then have eff: "effect_of ?m (tables w) = effect_of (k b) (tables w)"
        by (simp add: effect_of_def)
      show ?thesis
      proof (cases r)
        case (Inl e)
        with crash_safe_cases [OF k [of b], of w1] kb undone(2) show ?thesis
          by (simp add: eff)
      next
        case (Inr x)
        with crash_safe_success [OF k [of b], of w1 x w'] kb undone(2) show ?thesis
          by (simp only: healthy_run) simp
      qed
    qed
  qed
qed

section \<open>Weakest preconditions\<close>

text \<open>
  \<open>wp m Q d\<close>: from tables \<open>d\<close>, over any connection, a success of \<open>m\<close> satisfies \<open>Q\<close>. A failing
  program has no success; what a failed transaction leaves is covered by \<open>preserves\<close>.
\<close>

definition wp :: "('s, 'e, 'a) io \<Rightarrow> ('a \<Rightarrow> 's \<Rightarrow> bool) \<Rightarrow> 's \<Rightarrow> bool" where
  "wp m Q d \<longleftrightarrow> (\<forall>w x w'. tables w = d \<longrightarrow> m w = (Inr x, w') \<longrightarrow> Q x (tables w'))"

lemma wpI: "(\<And>w x w'. tables w = d \<Longrightarrow> m w = (Inr x, w') \<Longrightarrow> Q x (tables w')) \<Longrightarrow> wp m Q d"
  by (simp add: wp_def)

lemma wpD: "wp m Q (tables w) \<Longrightarrow> m w = (Inr x, w') \<Longrightarrow> Q x (tables w')"
  by (simp add: wp_def)

lemma wp_answer: "wp m Q d \<Longrightarrow> answer_of m d = Inr x \<Longrightarrow> Q x (effect_of m d)"
  using wpD [of m Q "healthy d" x "snd (m (healthy d))"]
  by (simp add: answer_of_def effect_of_def prod_eq_iff)

lemma wp_mono: "wp m P d \<Longrightarrow> (\<And>x d'. P x d' \<Longrightarrow> Q x d') \<Longrightarrow> wp m Q d"
  by (simp add: wp_def)

lemma wp_conj: "wp m P d \<Longrightarrow> wp m Q d \<Longrightarrow> wp m (\<lambda>x d'. P x d' \<and> Q x d') d"
  by (simp add: wp_def)

named_theorems wp_intros \<open>weakest precondition rules\<close>

lemma wp_ret [wp_intros]: "Q x d \<Longrightarrow> wp (ret x) Q d"
  by (simp add: wp_def ret_def)

lemma wp_raise [wp_intros]: "wp (raise e) Q d"
  by (simp add: wp_def raise_def)

lemma wp_bind [wp_intros]: "wp m (\<lambda>x. wp (k x) Q) d \<Longrightarrow> wp (bind_io m k) Q d"
  unfolding wp_def bind_io_def by (auto split: prod.splits sum.splits)

lemma wp_map_err [wp_intros]: "wp m Q d \<Longrightarrow> wp (map_err f m) Q d"
  unfolding wp_def map_err_def by (auto split: prod.splits sum.splits)

lemma wp_guard [wp_intros]: "(b \<Longrightarrow> Q () d) \<Longrightarrow> wp (guard e b) Q d"
  by (simp add: guard_def wp_ret wp_raise)

lemma wp_ok_or [wp_intros]: "(\<And>x. v = Some x \<Longrightarrow> Q x d) \<Longrightarrow> wp (ok_or e v) Q d"
  by (simp add: ok_or_def wp_ret wp_raise split: option.split)

lemma wp_from_result [wp_intros]: "(\<And>x. v = Inr x \<Longrightarrow> Q x d) \<Longrightarrow> wp (from_result v) Q d"
  by (simp add: from_result_def wp_ret wp_raise split: sum.split)

lemma wp_stmt: "(\<And>x d'. q d = Inr (x, d') \<Longrightarrow> Q x d') \<Longrightarrow> wp (stmt q) Q d"
  by (auto simp: wp_def dest: stmt_success)

lemma wp_query [wp_intros]: "Q (f d) d \<Longrightarrow> wp (stmt (query f)) Q d"
  by (rule wp_stmt) (simp add: query_def)

lemma wp_reading [wp_intros]: "(\<And>v. f d = Inr v \<Longrightarrow> Q v d) \<Longrightarrow> wp (stmt (reading f)) Q d"
  by (rule wp_stmt) (auto simp: reading_def split: sum.splits)

lemma wp_catch_stmt:
  assumes "\<And>x d'. q d = Inr (x, d') \<Longrightarrow> Q (Some x) d'"
    and "q d = Inl Raised_P0001 \<Longrightarrow> Q None d"
  shows "wp (catch_raised (stmt q)) Q d"
proof (rule wpI)
  fix w w' :: "_ world" and v
  assume d: "tables w = d" and run: "catch_raised (stmt q) w = (Inr v, w')"
  obtain r w1 where m: "stmt q w = (r, w1)" by force
  show "Q v (tables w')"
  proof (cases r)
    case (Inl e)
    with run m have "e = Raised_P0001" and "v = None" and "w' = w1"
      by (cases e; simp add: catch_raised_def)+
    with m Inl stmt_raised [of q w w1] assms(2) d show ?thesis by simp
  next
    case (Inr x)
    with run m have "v = Some x" and "w' = w1" by (simp_all add: catch_raised_def)
    with m Inr stmt_success [of q w x w1] assms(1) d show ?thesis by simp
  qed
qed

lemma wp_if [wp_intros]: "(b \<Longrightarrow> wp m Q d) \<Longrightarrow> (\<not> b \<Longrightarrow> wp n Q d) \<Longrightarrow> wp (if b then m else n) Q d"
  by simp

lemma wp_case_option [wp_intros]:
  "(v = None \<Longrightarrow> wp m Q d) \<Longrightarrow> (\<And>x. v = Some x \<Longrightarrow> wp (k x) Q d)
     \<Longrightarrow> wp (case v of None \<Rightarrow> m | Some x \<Rightarrow> k x) Q d"
  by (simp split: option.split)

lemma wp_case_prod [wp_intros]:
  "(\<And>x y. v = (x, y) \<Longrightarrow> wp (k x y) Q d) \<Longrightarrow> wp (case v of (x, y) \<Rightarrow> k x y) Q d"
  by (simp split: prod.split)

lemma wp_for_each:
  assumes "\<And>x d. x \<in> set xs \<Longrightarrow> I d \<Longrightarrow> wp (f x) (\<lambda>_. I) d" and "I d"
  shows "wp (for_each f xs) (\<lambda>_. I) d"
  using assms
proof (induction xs arbitrary: d)
  case (Cons x xs)
  have "wp (f x) (\<lambda>_. I) d" by (rule Cons.prems(1)) (simp_all add: Cons.prems(2))
  then have "wp (f x) (\<lambda>_. wp (for_each f xs) (\<lambda>_. I)) d"
    by (rule wp_mono) (rule Cons.IH; simp add: Cons.prems(1))
  then show ?case by (auto intro: wp_bind)
qed (simp add: wp_ret)

text \<open>Each item is done when its turn comes, and stays done.\<close>

lemma wp_for_each_done:
  assumes "\<And>x d. x \<in> set xs \<Longrightarrow> J d \<Longrightarrow> wp (f x) (\<lambda>_ d'. J d' \<and> D x d' \<and> (\<forall>y. D y d \<longrightarrow> D y d')) d"
    and "J d"
  shows "wp (for_each f xs) (\<lambda>_ d'. J d' \<and> (\<forall>x \<in> set xs. D x d') \<and> (\<forall>y. D y d \<longrightarrow> D y d')) d"
  using assms
proof (induction xs arbitrary: d)
  case (Cons x xs)
  have "wp (f x) (\<lambda>_ d'. J d' \<and> D x d' \<and> (\<forall>y. D y d \<longrightarrow> D y d')) d"
    by (rule Cons.prems(1)) (simp_all add: Cons.prems(2))
  then have "wp (f x) (\<lambda>_. wp (for_each f xs)
      (\<lambda>_ d'. J d' \<and> (\<forall>x \<in> set (x # xs). D x d') \<and> (\<forall>y. D y d \<longrightarrow> D y d'))) d"
  proof (rule wp_mono)
    fix u d1
    assume d1: "J d1 \<and> D x d1 \<and> (\<forall>y. D y d \<longrightarrow> D y d1)"
    have "wp (for_each f xs) (\<lambda>_ d'. J d' \<and> (\<forall>x \<in> set xs. D x d') \<and> (\<forall>y. D y d1 \<longrightarrow> D y d')) d1"
      using d1 by (intro Cons.IH) (auto intro: Cons.prems(1))
    then show "wp (for_each f xs)
        (\<lambda>_ d'. J d' \<and> (\<forall>x \<in> set (x # xs). D x d') \<and> (\<forall>y. D y d \<longrightarrow> D y d')) d1"
      by (rule wp_mono) (use d1 in auto)
  qed
  then show ?case by (auto intro: wp_bind)
qed (simp add: wp_ret)

text \<open>What an operation leaves behind, whatever it answers and whatever the connection does.\<close>

definition preserves :: "('s \<Rightarrow> bool) \<Rightarrow> ('s, 'e, 'a) io \<Rightarrow> bool" where
  "preserves I m \<longleftrightarrow> (\<forall>w. I (tables w) \<longrightarrow> I (tables (snd (m w))))"

named_theorems preserves_intros \<open>closure rules of preservation\<close>

lemma preserves_ret [preserves_intros]: "preserves I (ret x)"
  by (simp add: preserves_def ret_def)

lemma preserves_raise [preserves_intros]: "preserves I (raise e)"
  by (simp add: preserves_def raise_def)

lemma preserves_guard [preserves_intros]: "preserves I (guard e b)"
  by (simp add: guard_def preserves_ret preserves_raise)

lemma preserves_ok_or [preserves_intros]: "preserves I (ok_or e v)"
  by (simp add: ok_or_def preserves_ret preserves_raise split: option.split)

lemma preserves_from_result [preserves_intros]: "preserves I (from_result v)"
  by (simp add: from_result_def preserves_ret preserves_raise split: sum.split)

lemma preserves_bind [preserves_intros]:
  "preserves I m \<Longrightarrow> (\<And>x. preserves I (k x)) \<Longrightarrow> preserves I (bind_io m k)"
  unfolding preserves_def bind_io_def
  by (auto split: prod.split sum.split)

lemma preserves_map_err [preserves_intros]: "preserves I m \<Longrightarrow> preserves I (map_err f m)"
  unfolding preserves_def map_err_def
  by (auto split: prod.split sum.split)

lemma preserves_bind_from_result:
  "(\<And>v. z = Inr v \<Longrightarrow> preserves I (k v)) \<Longrightarrow> preserves I (bind_io (from_result z) k)"
  by (auto simp: preserves_def bind_io_def from_result_def ret_def raise_def split: sum.split)

lemma preserves_if [preserves_intros]:
  "(b \<Longrightarrow> preserves I m) \<Longrightarrow> (\<not> b \<Longrightarrow> preserves I n) \<Longrightarrow> preserves I (if b then m else n)"
  by simp

lemma preserves_case_option [preserves_intros]:
  "preserves I m \<Longrightarrow> (\<And>x. v = Some x \<Longrightarrow> preserves I (k x))
     \<Longrightarrow> preserves I (case v of None \<Rightarrow> m | Some x \<Rightarrow> k x)"
  by (simp split: option.split)

lemma preserves_case_prod [preserves_intros]:
  "(\<And>x y. v = (x, y) \<Longrightarrow> preserves I (k x y)) \<Longrightarrow> preserves I (case v of (x, y) \<Rightarrow> k x y)"
  by (simp split: prod.split)

lemma preserves_or_else:
  "preserves I m \<Longrightarrow> (\<And>b. preserves I (k b)) \<Longrightarrow> preserves I (or_else m k)"
  unfolding or_else_def
  by (rule preserves_bind) (auto split: sum.split intro: preserves_intros)

lemma preserves_pooled:
  assumes "\<And>d x d'. I d \<Longrightarrow> q d = Inr (x, d') \<Longrightarrow> I d'"
  shows "preserves I (pooled q)"
  unfolding preserves_def
proof (intro allI impI)
  fix w :: "_ world"
  assume I: "I (tables w)"
  obtain c rs where reply: "next_reply (wire w) = (c, rs)" by force
  show "I (tables (snd (pooled q w)))"
    using I assms [OF I] reply
    by (cases c; cases "q (tables w)") (auto simp: pooled_def split: prod.splits)
qed

lemma preserves_read [preserves_intros]: "preserves I (pooled (query f))"
  by (rule preserves_pooled) (simp add: query_def)

lemma preserves_reading [preserves_intros]: "preserves I (pooled (reading f))"
  by (rule preserves_pooled) (auto simp: reading_def split: sum.splits)

lemma transaction_leaves:
  assumes body: "wp body (\<lambda>t d'. committed t \<longrightarrow> I d') (tables w)" and I: "I (tables w)"
  shows "I (tables (snd (transaction u body w)))"
proof -
  obtain c rs where reply: "next_reply (wire w) = (c, rs)" by force
  obtain v w1 where run: "body (w\<lparr>wire := rs\<rparr>) = (v, w1)" by force
  obtain c' rs' where reply': "next_reply (wire w1) = (c', rs')" by force
  note unfold = transaction_def reply run reply'
  show ?thesis
  proof (cases v)
    case (Inl e)
    with I show ?thesis by (cases c) (simp_all add: unfold)
  next
    case (Inr t)
    have "committed t \<Longrightarrow> I (tables w1)"
      using wpD [of body "\<lambda>t d'. committed t \<longrightarrow> I d'" "w\<lparr>wire := rs\<rparr>" t w1] body run Inr
      by simp
    with I Inr show ?thesis by (cases t; cases c; cases c') (simp_all add: unfold)
  qed
qed

lemma preserves_transaction [preserves_intros]:
  "(\<And>d. I d \<Longrightarrow> wp body (\<lambda>t d'. committed t \<longrightarrow> I d') d) \<Longrightarrow> preserves I (transaction u body)"
  by (simp add: preserves_def transaction_leaves)

text \<open>The effect of a transaction without faults is that of its committed body, or nothing.\<close>

lemma effect_of_transaction:
  assumes body: "wp body (\<lambda>t d'. committed t \<longrightarrow> P d') d"
  shows "effect_of (transaction u body) d = d \<or> P (effect_of (transaction u body) d)"
proof -
  obtain v w1 where run: "body (healthy d) = (v, w1)" by force
  obtain c rs where reply: "next_reply (wire w1) = (c, rs)" by force
  show ?thesis
  proof (cases v)
    case (Inl e)
    with run show ?thesis by (simp add: effect_of_def run_transaction)
  next
    case (Inr t)
    have "committed t \<Longrightarrow> P (tables w1)"
      using wpD [of body "\<lambda>t d'. committed t \<longrightarrow> P d'" "healthy d" t w1] body run Inr by simp
    with Inr run reply show ?thesis
      by (cases t; cases c) (simp_all add: effect_of_def run_transaction)
  qed
qed

lemma effect_of_uncommitted:
  assumes "wp body (\<lambda>t d'. \<not> committed t) d"
  shows "effect_of (transaction u body) d = d"
  using effect_of_transaction [of body "\<lambda>d'. False" d u] assms by (auto elim: wp_mono)

text \<open>
  The same for a transaction that may hand over: \<open>P\<close> holds of what it commits, \<open>K\<close> of what it
  hands over.
\<close>

fun settles :: "('s \<Rightarrow> bool) \<Rightarrow> ('b \<Rightarrow> bool) \<Rightarrow> ('a + 'b) tx_end \<Rightarrow> 's \<Rightarrow> bool" where
  "settles P K (Commit v) d = (case v of Inl x \<Rightarrow> P d | Inr b \<Rightarrow> False)"
| "settles P K (Rollback v) d = (case v of Inl x \<Rightarrow> True | Inr b \<Rightarrow> K b)"
| "settles P K (Dropped v) d = (case v of Inl x \<Rightarrow> True | Inr b \<Rightarrow> K b)"

lemma effect_of_or_else:
  assumes body: "wp body (settles P K) d"
    and over: "\<And>b. K b \<Longrightarrow> effect_of (k b) d = d \<or> P (effect_of (k b) d)"
    and steady: "steady body"
  shows "effect_of (or_else (transaction u body) k) d = d
           \<or> P (effect_of (or_else (transaction u body) k) d)"
proof -
  obtain v w1 where run: "body (healthy d) = (v, w1)" by force
  show ?thesis
  proof (cases v)
    case (Inl e)
    with run show ?thesis by (simp add: effect_of_def run_transaction)
  next
    case (Inr t)
    with run steadyD [OF steady, of "healthy d" t w1]
    have served: "body (healthy d) = (Inr t, healthy (tables w1))" by simp
    from body have "wp body (settles P K) (tables (healthy d))" by simp
    from wpD [OF this served] have settles: "settles P K t (tables w1)" by simp
    show ?thesis
    proof (cases "committed t")
      case True
      then obtain y where t: "t = Commit y" by (cases t) simp_all
      with settles obtain z where "y = Inl z" and "P (tables w1)" by (cases y) simp_all
      with served t show ?thesis
        by (simp add: effect_of_def run_transaction_commit ret_def)
    next
      case False
      with served have undone: "transaction u body (healthy d) = (Inr (tx_value t), healthy d)"
        by (rule run_transaction_undone)
      show ?thesis
      proof (cases "tx_value t")
        case (Inl y)
        with undone show ?thesis by (simp add: effect_of_def ret_def)
      next
        case (Inr b)
        with settles False have "K b" by (cases t) simp_all
        from over [OF this] undone Inr show ?thesis by (simp add: effect_of_def)
      qed
    qed
  qed
qed

lemma hands_over_undone_settles:
  assumes "\<And>d. wp body (settles (\<lambda>_. True) (\<lambda>_. True)) d"
  shows "hands_over_undone body"
  unfolding hands_over_undone_def
proof (intro allI notI)
  fix d b
  assume "fst (body (healthy d)) = Inr (Commit (Inr b))"
  then have run: "body (healthy d) = (Inr (Commit (Inr b)), snd (body (healthy d)))"
    by (simp add: prod_eq_iff)
  have "wp body (settles (\<lambda>_. True) (\<lambda>_. True)) (tables (healthy d))" by (rule assms)
  from wpD [OF this run] show False by simp
qed

text \<open>Reads and pure steps before an operation do not change its effect.\<close>

lemma effect_of_bind_reading:
  "effect_of (bind_io (map_err f (pooled (reading g))) k) d
     = (case g d of Inl e \<Rightarrow> d | Inr v \<Rightarrow> effect_of (k v) d)"
  by (simp add: effect_of_def split: sum.split)

lemma effect_of_bind_query:
  "effect_of (bind_io (map_err f (pooled (query g))) k) d = effect_of (k (g d)) d"
  by (simp add: effect_of_def)

lemma effect_of_bind_from_result:
  "effect_of (bind_io (from_result v) k) d = (case v of Inl e \<Rightarrow> d | Inr x \<Rightarrow> effect_of (k x) d)"
  by (simp add: effect_of_def split: sum.split)

lemma effect_of_bind_ok_or:
  "effect_of (bind_io (ok_or e v) k) d = (case v of None \<Rightarrow> d | Some x \<Rightarrow> effect_of (k x) d)"
  by (simp add: effect_of_def split: option.split)

lemma effect_of_bind_guard:
  "effect_of (bind_io (guard e b) k) d = (if b then effect_of (k ()) d else d)"
  by (simp add: effect_of_def)

lemmas effect_of_binds = effect_of_bind_reading effect_of_bind_query effect_of_bind_from_result
  effect_of_bind_ok_or effect_of_bind_guard

lemma effect_of_map_err [simp]: "effect_of (map_err f m) d = effect_of m d"
  by (simp add: effect_of_def map_err_def split: prod.split sum.split)

lemma effect_of_raise [simp]: "effect_of (raise e) d = d"
  by (simp add: effect_of_def)

lemma effect_of_ret [simp]: "effect_of (ret x) d = d"
  by (simp add: effect_of_def)

section \<open>A process state beside the tables\<close>

text \<open>
  An operation on the tables alone, run by a process that also keeps a state of its own, and a
  local step on that state, which makes no round trip and is never rolled back.
\<close>

definition on_tables :: "('s, 'e, 'a) io \<Rightarrow> ('s \<times> 'c, 'e, 'a) io" where
  "on_tables m w =
     (case m \<lparr>tables = fst (tables w), wire = wire w\<rparr> of
        (r, w') \<Rightarrow> (r, \<lparr>tables = (tables w', snd (tables w)), wire = wire w'\<rparr>))"

definition on_process :: "('c \<Rightarrow> 'c) \<Rightarrow> ('s \<times> 'c, 'e, unit) io" where
  "on_process f w = (Inr (), w\<lparr>tables := (fst (tables w), f (snd (tables w)))\<rparr>)"

text \<open>A caller that looks at the outcome, error or not, and goes on.\<close>

definition attempt :: "('s, 'e, 'a) io \<Rightarrow> ('s, 'f, 'e + 'a) io" where
  "attempt m w = (case m w of (r, w') \<Rightarrow> (Inr r, w'))"

abbreviation tables_inv :: "('s \<Rightarrow> bool) \<Rightarrow> 's \<times> 'c \<Rightarrow> bool" where
  "tables_inv I s \<equiv> I (fst s)"

lemma preserves_on_tables [preserves_intros]: "preserves I m \<Longrightarrow> preserves (tables_inv I) (on_tables m)"
  unfolding preserves_def on_tables_def by (auto split: prod.split) (metis snd_conv world.select_convs(1))

lemma preserves_on_process [preserves_intros]: "preserves (tables_inv I) (on_process f)"
  by (simp add: preserves_def on_process_def)

lemma preserves_attempt [preserves_intros]: "preserves I m \<Longrightarrow> preserves I (attempt m)"
  by (auto simp: preserves_def attempt_def split: prod.split)

section \<open>Both outcomes\<close>

lemma wp_pooled: "(\<And>v d'. q d = Inr (v, d') \<Longrightarrow> Q v d') \<Longrightarrow> wp (pooled q) Q d"
proof (rule wpI)
  fix w v w'
  assume q: "\<And>v d'. q d = Inr (v, d') \<Longrightarrow> Q v d'" and "tables w = d" and run: "pooled q w = (Inr v, w')"
  obtain c rs where reply: "next_reply (wire w) = (c, rs)" by force
  with q run \<open>tables w = d\<close> show "Q v (tables w')"
    by (cases c; cases "q d") (auto simp: pooled_def)
qed

lemma wp_on_tables: "wp m (\<lambda>v d'. Q v (d', snd s)) (fst s) \<Longrightarrow> wp (on_tables m) Q s"
  by (force simp: wp_def on_tables_def split: prod.splits)

lemma wp_on_process: "Q () (fst s, f (snd s)) \<Longrightarrow> wp (on_process f) Q s"
  by (auto simp: wp_def on_process_def)

text \<open>
  \<open>ends m Q J s\<close>: over any connection, a success of \<open>m\<close> satisfies \<open>Q\<close> and a failure leaves a state
  that satisfies \<open>J\<close>.
\<close>

definition ends :: "('s, 'e, 'a) io \<Rightarrow> ('a \<Rightarrow> 's \<Rightarrow> bool) \<Rightarrow> ('s \<Rightarrow> bool) \<Rightarrow> 's \<Rightarrow> bool" where
  "ends m Q J s \<longleftrightarrow> (\<forall>w. tables w = s \<longrightarrow>
     (case m w of (Inl e, w') \<Rightarrow> J (tables w') | (Inr v, w') \<Rightarrow> Q v (tables w')))"

named_theorems ends_intros \<open>rules for both outcomes\<close>

lemma ends_bind: "ends m (\<lambda>v. ends (k v) Q J) J s \<Longrightarrow> ends (bind_io m k) Q J s"
  unfolding ends_def bind_io_def by (auto split: prod.splits sum.splits) fastforce+

lemma ends_ret [ends_intros]: "Q v s \<Longrightarrow> ends (ret v) Q J s"
  and ends_raise [ends_intros]: "J s \<Longrightarrow> ends (raise e) Q J s"
  by (simp_all add: ends_def ret_def raise_def)

lemma ends_ok_or [ends_intros]:
  "(\<And>v. u = Some v \<Longrightarrow> Q v s) \<Longrightarrow> (u = None \<Longrightarrow> J s) \<Longrightarrow> ends (ok_or e u) Q J s"
  by (cases u) (simp_all add: ends_def ok_or_def ret_def raise_def)

lemma ends_from_result [ends_intros]:
  "(\<And>v. z = Inr v \<Longrightarrow> Q v s) \<Longrightarrow> J s \<Longrightarrow> ends (from_result z) Q J s"
  and ends_guard [ends_intros]: "(b \<Longrightarrow> R () s) \<Longrightarrow> J s \<Longrightarrow> ends (guard e b) R J s"
  by (simp_all add: ends_def from_result_def guard_def ret_def raise_def split: sum.split)

lemma ends_mono:
  assumes "ends m P J s" and "\<And>v s'. P v s' \<Longrightarrow> Q v s'"
  shows "ends m Q J s"
  unfolding ends_def
proof (intro allI impI)
  fix w :: "_ world"
  assume w: "tables w = s"
  obtain r w' where m: "m w = (r, w')" by force
  with assms w show "case m w of (Inl e, w') \<Rightarrow> J (tables w') | (Inr v, w') \<Rightarrow> Q v (tables w')"
    by (cases r) (force simp: ends_def)+
qed

lemma ends_wp:
  assumes "wp m Q s" and "preserves J m" and "J s"
  shows "ends m (\<lambda>v s'. Q v s' \<and> J s') J s"
  unfolding ends_def
proof (intro allI impI)
  fix w :: "_ world"
  assume w: "tables w = s"
  obtain r w' where m: "m w = (r, w')" by force
  have "J (tables w')" using assms(2,3) w m by (auto simp: preserves_def dest: spec [of _ w])
  with assms(1) w m show "case m w of (Inl e, w') \<Rightarrow> J (tables w') | (Inr v, w') \<Rightarrow> Q v (tables w') \<and> J (tables w')"
    by (cases r) (simp_all add: wp_def)
qed

text \<open>A successful transaction: its body succeeded, and its tables stay or are taken back.\<close>

lemma wp_transaction:
  assumes "wp body (\<lambda>t d'. Q (tx_value t) (if committed t then d' else d)) d"
  shows "wp (transaction u body) Q d"
proof (rule wpI)
  fix w v w'
  assume d: "tables w = d" and run: "transaction u body w = (Inr v, w')"
  obtain c rs where reply: "next_reply (wire w) = (c, rs)" by force
  obtain r w1 where body: "body (w\<lparr>wire := rs\<rparr>) = (r, w1)" by force
  obtain c' rs' where reply': "next_reply (wire w1) = (c', rs')" by force
  note unfold = transaction_def reply body reply'
  from run have served: "c = Served" by (cases c) (simp_all add: unfold)
  show "Q v (tables w')"
  proof (cases r)
    case (Inl e)
    with run served show ?thesis by (simp add: unfold)
  next
    case (Inr t)
    with assms d body have "Q (tx_value t) (if committed t then tables w1 else d)"
      using wpD [of body "\<lambda>t d'. Q (tx_value t) (if committed t then d' else d)" "w\<lparr>wire := rs\<rparr>" t w1] by simp
    with run served Inr d show ?thesis by (cases t; cases c') (auto simp: unfold)
  qed
qed

lemma wp_or_else:
  "wp m (\<lambda>v d'. case v of Inl x \<Rightarrow> Q x d' | Inr b \<Rightarrow> wp (k b) Q d') d \<Longrightarrow> wp (or_else m k) Q d"
  unfolding or_else_def by (rule wp_bind, erule wp_mono) (auto split: sum.splits intro: wp_ret)

lemma wp_read: "Q (f d) d \<Longrightarrow> wp (pooled (query f)) Q d"
  and wp_pooled_reading: "(\<And>v. g d = Inr v \<Longrightarrow> R v d) \<Longrightarrow> wp (pooled (reading g)) R d"
  by (rule wp_pooled; auto simp: query_def reading_def split: sum.splits)+

text \<open>
  \<open>undone E m\<close>: an error of the class \<open>E\<close> means that nothing happened. A transaction never fails so
  after a commit, as long as its own storage error is outside the class.
\<close>

definition undone :: "('e \<Rightarrow> bool) \<Rightarrow> ('s, 'e, 'a) io \<Rightarrow> bool" where
  "undone E m \<longleftrightarrow> (\<forall>w e w'. m w = (Inl e, w') \<longrightarrow> E e \<longrightarrow> tables w' = tables w)"

named_theorems undone_intros \<open>closure rules of undone errors\<close>

lemma undone_basic [undone_intros]:
  "undone E (ret v)" "undone E (raise e)" "undone E (guard e b)" "undone E (ok_or e z)" "undone E (from_result y)"
  by (auto simp: undone_def ret_def raise_def guard_def ok_or_def from_result_def split: option.splits sum.splits)

lemma undone_cases [undone_intros]:
  "undone E m \<Longrightarrow> undone E n \<Longrightarrow> undone E (if b then m else n)"
  "undone E m \<Longrightarrow> (\<And>v. undone E (k v)) \<Longrightarrow> undone E (case z of None \<Rightarrow> m | Some v \<Rightarrow> k v)"
  "(\<And>v w. undone E (h v w)) \<Longrightarrow> undone E (case y of (v, w) \<Rightarrow> h v w)"
  by (simp_all split: option.split prod.split)

lemma undone_transaction [undone_intros]:
  assumes "\<not> E u"
  shows "undone E (transaction u body)"
  unfolding undone_def
proof (intro allI impI)
  fix w e w'
  assume run: "transaction u body w = (Inl e, w')" and "E e"
  with assms have "e \<noteq> u" by blast
  with run show "tables w' = tables w"
    by (auto simp: transaction_def split: prod.splits reply.splits sum.splits tx_end.splits)
qed

text \<open>A first step that leaves the tables alone when it succeeds or fails.\<close>

definition silent :: "('s, 'e, 'a) io \<Rightarrow> bool" where
  "silent m \<longleftrightarrow> (\<forall>w. tables (snd (m w)) = tables w)"

lemma silent_steps [undone_intros]:
  "silent (guard e b)" "silent (ok_or e z)" "silent (from_result y)"
  "silent (pooled (query f))" "silent (pooled (reading g))"
  by (auto simp: silent_def guard_def ok_or_def from_result_def ret_def raise_def pooled_def query_def
      reading_def split: option.splits sum.splits prod.splits reply.splits)

lemma silent_map_err [undone_intros]: "silent m \<Longrightarrow> silent (map_err h m)"
  by (auto simp: silent_def map_err_def split: prod.splits sum.splits) (metis snd_conv)+

lemma undone_bind [undone_intros]:
  assumes "silent m" and "\<And>v. undone E (k v)"
  shows "undone E (bind_io m k)"
  unfolding undone_def
proof (intro allI impI)
  fix w e w'
  assume run: "bind_io m k w = (Inl e, w')" and e: "E e"
  obtain r w1 where m: "m w = (r, w1)" by force
  with assms(1) have "tables w1 = tables w" by (metis silent_def snd_conv)
  with run m e assms(2) show "tables w' = tables w"
    by (cases r) (auto simp: bind_io_def undone_def)
qed

lemma undone_or_else [undone_intros]:
  assumes steady: "steady body" and over: "hands_over_undone body" and u: "\<not> E u"
    and k: "\<And>b. undone E (k b)"
  shows "undone E (or_else (transaction u body) k)"
  unfolding undone_def
proof (intro allI impI)
  fix w e w'
  assume run: "or_else (transaction u body) k w = (Inl e, w')" and e: "E e"
  obtain r w1 where tx: "transaction u body w = (r, w1)" by force
  from tx steady show "tables w' = tables w"
  proof (cases rule: transaction_cases)
    case (failed f)
    with run tx show ?thesis by (auto simp: or_else_def bind_io_def)
  next
    case (unacknowledged v d')
    with run tx u e show ?thesis by (auto simp: or_else_def bind_io_def)
  next
    case (settled v d')
    then obtain a where "v = Inl a"
      using over by (cases v) (auto simp: hands_over_undone_def dest: spec [of _ "tables w"])
    with settled run tx show ?thesis by (auto simp: or_else_def bind_io_def ret_def)
  next
    case (undone t d')
    with run tx k e show ?thesis
      by (auto simp: or_else_def bind_io_def ret_def Txn.undone_def split: sum.splits)
  qed
qed

section \<open>At-least-once delivery\<close>

text \<open>
  A message is delivered again until it is acknowledged, each time under other circumstances
  \<open>'c\<close> (fresh identities, another clock) and over another connection.
\<close>

fun deliveries :: "('c \<Rightarrow> ('s, 'e, 'a) io) \<Rightarrow> ('c \<times> reply list) list \<Rightarrow> 's \<Rightarrow> 's" where
  "deliveries h [] d = d"
| "deliveries h ((c, ns) # cs) d = deliveries h cs (tables (snd (h c \<lparr>tables = d, wire = ns\<rparr>)))"

text \<open>
  The contract of a replay-guarded handler: it is crash safe, an effect leaves durable evidence
  that the message was handled, and with that evidence it changes nothing.
\<close>

locale replay_guarded =
  fixes handle :: "'c \<Rightarrow> ('s, 'e, 'a) io"
    and evidence :: "'s \<Rightarrow> bool"
  assumes handle_crash_safe: "crash_safe (handle c)"
    and effect_leaves_evidence: "effect_of (handle c) d \<noteq> d \<Longrightarrow> evidence (effect_of (handle c) d)"
    and evidence_stops_effect: "evidence d \<Longrightarrow> effect_of (handle c) d = d"
begin

lemma delivery_cases:
  "tables (snd (handle c \<lparr>tables = d, wire = ns\<rparr>)) \<in> {d, effect_of (handle c) d}"
  using crash_safe_cases [OF handle_crash_safe, of c "\<lparr>tables = d, wire = ns\<rparr>"] by auto

lemma deliveries_with_evidence: "evidence d \<Longrightarrow> deliveries handle cs d = d"
proof (induction cs)
  case (Cons x cs)
  obtain c ns where x: "x = (c, ns)" by force
  from delivery_cases [of c d ns] evidence_stops_effect [OF Cons.prems]
  have "tables (snd (handle c \<lparr>tables = d, wire = ns\<rparr>)) = d" by auto
  with Cons x show ?case by simp
qed simp

lemma deliveries_once:
  "deliveries handle cs d = d \<or> (\<exists>c \<in> fst ` set cs. deliveries handle cs d = effect_of (handle c) d)"
proof (induction cs)
  case (Cons x cs)
  obtain c ns where x: "x = (c, ns)" by force
  let ?d = "tables (snd (handle c \<lparr>tables = d, wire = ns\<rparr>))"
  show ?case
  proof (cases "?d = d")
    case True
    with Cons.IH x show ?thesis by auto
  next
    case False
    with delivery_cases [of c d ns] have eff: "?d = effect_of (handle c) d" by auto
    with False have "evidence ?d" using effect_leaves_evidence [of c d] by simp
    then have "deliveries handle cs ?d = ?d" by (rule deliveries_with_evidence)
    with eff x show ?thesis by auto
  qed
qed simp

lemma acknowledged_then_silent:
  assumes "handle c \<lparr>tables = d, wire = ns\<rparr> = (Inr x, w')" and "tables w' \<noteq> d"
  shows "deliveries handle cs (tables w') = tables w'"
proof -
  from assms(1) delivery_cases [of c d ns] have "tables w' \<in> {d, effect_of (handle c) d}" by simp
  with assms(2) have "tables w' = effect_of (handle c) d" and "effect_of (handle c) d \<noteq> d" by auto
  with effect_leaves_evidence [of c d] have "evidence (tables w')" by simp
  then show ?thesis by (rule deliveries_with_evidence)
qed

end

end
