(* ===== verification/Schema.thy ===== *)
theory Schema
  imports Txn
begin

text \<open>
  The tables of \<open>src/schema.sql\<close> with their constraints. A table is the list of its rows in
  insertion order; an insert checks what the schema checks and answers a violation, or, with
  an \<open>on conflict do nothing\<close> clause, that nothing was inserted. The contract crates, the hash
  and the text forms that the repository only uses are the fields of \<open>externals\<close>.
\<close>

section \<open>Finite vocabularies\<close>

datatype run_trigger = On_Demand | Scheduled

datatype run_state = Accepted | Acquiring | Waiting_Recap | Completed | Partial | Failed

datatype inbox_state = Inbox_Processing | Inbox_Completed | Inbox_Failed

datatype language = Ru | En

datatype operation_status =
  Op_Queued | Op_Running | Op_Succeeded | Op_Partially_Succeeded | Op_Failed

fun terminal :: "run_state \<Rightarrow> bool" where
  "terminal Completed = True"
| "terminal Partial = True"
| "terminal Failed = True"
| "terminal _ = False"

text \<open>\<open>RunTrigger::as_str\<close> and \<open>RunState::as_str\<close>, the stored words.\<close>

fun trigger_as_str :: "run_trigger \<Rightarrow> string" where
  "trigger_as_str On_Demand = ''on_demand''"
| "trigger_as_str Scheduled = ''scheduled''"

fun state_as_str :: "run_state \<Rightarrow> string" where
  "state_as_str Accepted = ''accepted''"
| "state_as_str Acquiring = ''acquiring''"
| "state_as_str Waiting_Recap = ''waiting_recap''"
| "state_as_str Completed = ''completed''"
| "state_as_str Partial = ''partial''"
| "state_as_str Failed = ''failed''"

text \<open>The wire words of an operation status, as they appear in report keys.\<close>

fun status_text :: "operation_status \<Rightarrow> string" where
  "status_text Op_Queued = ''queued''"
| "status_text Op_Running = ''running''"
| "status_text Op_Succeeded = ''succeeded''"
| "status_text Op_Partially_Succeeded = ''partially_succeeded''"
| "status_text Op_Failed = ''failed''"

lemma status_text_inj [key_simps]: "status_text s = status_text t \<longleftrightarrow> s = t"
  by (cases s; cases t) simp_all

section \<open>Contract payloads\<close>

text \<open>\<open>OperationReported\<close>: results are kind and target, warnings code and message.\<close>

record report =
  rep_operation :: uuid
  rep_status :: operation_status
  rep_stage :: "string option"
  rep_results :: "(string \<times> string) list"
  rep_error :: "(string \<times> string \<times> bool) option"
  rep_warnings :: "(string \<times> string) list"

text \<open>\<open>KnowledgeChannelDigestRecapRequested\<close>, the fields the service writes and checks.\<close>

record recap_request =
  rq_operation :: uuid
  rq_owner :: string
  rq_run :: string
  rq_window :: "string \<times> string"
  rq_language :: language
  rq_source_count :: nat
  rq_channel_count :: nat
  rq_manifest_ref :: string
  rq_manifest_sha256 :: string
  rq_family :: string
  rq_contract :: string

text \<open>\<open>PlatformScheduleRegistrationRequested\<close>, the configured part.\<close>

record registration =
  reg_service :: string
  reg_name :: string
  reg_owner :: uuid
  reg_cron :: string
  reg_operation_kind :: string
  reg_enabled :: bool

datatype payload =
    Report_Payload report
  | Recap_Payload recap_request
  | Registration_Payload registration

section \<open>Rows\<close>

record channel =
  ch_id :: uuid
  ch_username :: string
  ch_display_name :: "nat list option"

record subscription_row =
  sub_id :: uuid
  sub_owner :: uuid
  sub_channel :: uuid
  sub_first_activated :: instant
  sub_enabled :: bool
  sub_updated :: instant

record revision =
  rev_id :: uuid
  rev_channel :: uuid
  rev_message :: int
  rev_sha256 :: string
  rev_body :: "string option"
  rev_published :: instant
  rev_observed :: instant
  rev_link :: string
  rev_deleted :: "instant option"
  rev_minimized :: "instant option"

record run_row =
  run_id :: uuid
  run_owner :: uuid
  run_operation :: uuid
  run_trigger :: run_trigger
  run_key :: string
  run_start :: instant
  run_end :: instant
  run_language :: language
  run_state :: run_state
  run_failure :: "string option"
  run_incomplete :: bool
  run_created :: instant
  run_updated :: instant

record manifest_row =
  man_id :: uuid
  man_run :: uuid
  man_owner :: uuid
  man_sha256 :: string
  man_sources :: nat
  man_channels :: nat
  man_text :: "string option"
  man_minimized :: "instant option"

record result_row =
  res_id :: uuid
  res_run :: uuid
  res_manifest :: uuid
  res_owner :: uuid
  res_outcome :: run_state
  res_recap :: "uuid option"
  res_digest :: "string option"
  res_citations :: int
  res_failure :: "string option"
  res_created :: instant

record inbox_row =
  in_id :: uuid
  in_subject :: string
  in_key :: string
  in_sha256 :: string
  in_state :: inbox_state
  in_completed :: "instant option"
  in_failure :: "string option"

record outbox_row =
  out_id :: uuid
  out_subject :: string
  out_key :: string
  out_owner :: uuid
  out_operation :: "uuid option"
  out_causation :: "string option"
  out_payload :: payload
  out_created :: instant
  out_published :: "instant option"
  out_attempts :: nat
  out_next_attempt :: instant
  out_failure :: "string option"

text \<open>A lease row with its acquisition checkpoint.\<close>

record lease =
  lease_kind :: string
  lease_resource :: uuid
  lease_holder :: uuid
  lease_acquired :: instant
  lease_expires :: instant
  lease_before :: "int option"
  lease_pages :: nat
  lease_revisions :: nat
  lease_state :: "string option"

record db =
  channels :: "channel list"
  subscriptions :: "subscription_row list"
  revisions :: "revision list"
  runs :: "run_row list"
  manifests :: "manifest_row list"
  manifest_sources :: "(uuid \<times> uuid \<times> int) list"
  results :: "result_row list"
  inbox :: "inbox_row list"
  outbox :: "outbox_row list"
  leases :: "lease list"

definition empty_db :: db where
  "empty_db = \<lparr>channels = [], subscriptions = [], revisions = [], runs = [], manifests = [],
     manifest_sources = [], results = [], inbox = [], outbox = [], leases = []\<rparr>"

section \<open>Inserts\<close>

text \<open>The natural key of a run, \<open>unique (owner_id, trigger, idempotency_key, ...)\<close>.\<close>

definition natural_key :: "run_row \<Rightarrow> uuid \<times> run_trigger \<times> string \<times> instant \<times> instant" where
  "natural_key r = (run_owner r, run_trigger r, run_key r, run_start r, run_end r)"

text \<open>
  \<open>insert into inbox_messages ... on conflict do nothing returning message_id\<close>: a message
  identity or a (subject, semantic key) pair that is already stored inserts nothing.
\<close>

definition inbox_conflict :: "uuid \<Rightarrow> string \<Rightarrow> string \<Rightarrow> db \<Rightarrow> bool" where
  "inbox_conflict message subject key d \<longleftrightarrow>
     (\<exists>r \<in> set (inbox d). in_id r = message \<or> (in_subject r = subject \<and> in_key r = key))"

definition insert_inbox :: "inbox_row \<Rightarrow> (db, bool) statement" where
  "insert_inbox r d =
     (if length (in_sha256 r) \<noteq> 64 then Inl Violation
      else if inbox_conflict (in_id r) (in_subject r) (in_key r) d then Inr (False, d)
      else Inr (True, d\<lparr>inbox := inbox d @ [r]\<rparr>))"

definition outbox_conflict :: "string \<Rightarrow> string \<Rightarrow> db \<Rightarrow> bool" where
  "outbox_conflict subject key d \<longleftrightarrow>
     (\<exists>r \<in> set (outbox d). out_subject r = subject \<and> out_key r = key)"

abbreviation outbox_id_taken :: "uuid \<Rightarrow> db \<Rightarrow> bool" where
  "outbox_id_taken i d \<equiv> i \<in> out_id ` set (outbox d)"

text \<open>\<open>... on conflict (subject, semantic_key) do nothing\<close>\<close>

definition insert_outbox_once :: "outbox_row \<Rightarrow> (db, unit) statement" where
  "insert_outbox_once r d =
     (if outbox_conflict (out_subject r) (out_key r) d then Inr ((), d)
      else if outbox_id_taken (out_id r) d then Inl Violation
      else Inr ((), d\<lparr>outbox := outbox d @ [r]\<rparr>))"

text \<open>An insert with no conflict clause.\<close>

definition insert_outbox :: "outbox_row \<Rightarrow> (db, unit) statement" where
  "insert_outbox r d =
     (if outbox_conflict (out_subject r) (out_key r) d \<or> outbox_id_taken (out_id r) d
      then Inl Violation
      else Inr ((), d\<lparr>outbox := outbox d @ [r]\<rparr>))"

text \<open>
  \<open>insert into digest_runs ... on conflict (natural key) do nothing\<close>: the window check comes
  first, then the natural key, then the primary key.
\<close>

definition insert_run :: "run_row \<Rightarrow> (db, bool) statement" where
  "insert_run r d =
     (if \<not> run_start r < run_end r then Inl Violation
      else if natural_key r \<in> natural_key ` set (runs d) then Inr (False, d)
      else if run_id r \<in> run_id ` set (runs d) then Inl Violation
      else Inr (True, d\<lparr>runs := runs d @ [r]\<rparr>))"

text \<open>\<open>insert into digest_manifests ... on conflict (run_id) do nothing\<close>\<close>

definition manifest_checks :: "manifest_row \<Rightarrow> bool" where
  "manifest_checks m \<longleftrightarrow>
     length (man_sha256 m) = 64 \<and> 1 \<le> man_sources m \<and> man_sources m \<le> 100
     \<and> 1 \<le> man_channels m \<and> man_channels m \<le> 20
     \<and> (man_text m = None \<longleftrightarrow> man_minimized m \<noteq> None)"

definition insert_manifest :: "manifest_row \<Rightarrow> (db, bool) statement" where
  "insert_manifest m d =
     (if \<not> manifest_checks m then Inl Violation
      else if man_run m \<in> man_run ` set (manifests d) then Inr (False, d)
      else if man_id m \<in> man_id ` set (manifests d) \<or> man_run m \<notin> run_id ` set (runs d)
           then Inl Violation
      else Inr (True, d\<lparr>manifests := manifests d @ [m]\<rparr>))"

definition insert_manifest_sources :: "uuid \<Rightarrow> (uuid \<times> int) list \<Rightarrow> (db, unit) statement" where
  "insert_manifest_sources m held d =
     (let rows = map (Pair m) held
      in if \<not> distinct rows \<or> set rows \<inter> set (manifest_sources d) \<noteq> {}
            \<or> (held \<noteq> [] \<and> m \<notin> man_id ` set (manifests d))
         then Inl Violation
         else Inr ((), d\<lparr>manifest_sources := manifest_sources d @ rows\<rparr>))"

text \<open>\<open>result_digest_hex ~ '^[0-9a-f]{64}$'\<close>\<close>

definition lower_hex_digit :: "char \<Rightarrow> bool" where
  "lower_hex_digit c \<longleftrightarrow> c \<in> set ''0123456789abcdef''"

definition is_sha256_hex :: "string \<Rightarrow> bool" where
  "is_sha256_hex s \<longleftrightarrow> length s = 64 \<and> list_all lower_hex_digit s"

definition result_checks :: "result_row \<Rightarrow> bool" where
  "result_checks r \<longleftrightarrow>
     (case res_digest r of None \<Rightarrow> True | Some h \<Rightarrow> is_sha256_hex h) \<and> 0 \<le> res_citations r
     \<and> (if res_outcome r = Failed then res_recap r = None \<and> res_digest r = None
        else terminal (res_outcome r) \<and> res_recap r \<noteq> None \<and> res_digest r \<noteq> None)"

definition insert_result :: "result_row \<Rightarrow> (db, unit) statement" where
  "insert_result r d =
     (if \<not> result_checks r
        \<or> res_id r \<in> res_id ` set (results d) \<or> res_run r \<in> res_run ` set (results d)
        \<or> res_manifest r \<in> res_manifest ` set (results d)
        \<or> res_run r \<notin> run_id ` set (runs d) \<or> res_manifest r \<notin> man_id ` set (manifests d)
      then Inl Violation
      else Inr ((), d\<lparr>results := results d @ [r]\<rparr>))"

section \<open>Updates\<close>

definition update_runs :: "(run_row \<Rightarrow> bool) \<Rightarrow> (run_row \<Rightarrow> run_row) \<Rightarrow> (db, nat) statement" where
  "update_runs p f d =
     Inr (count_where p (runs d), d\<lparr>runs := update_where p f (runs d)\<rparr>)"

definition complete_inbox :: "instant \<Rightarrow> uuid \<Rightarrow> (db, unit) statement" where
  "complete_inbox now message d =
     Inr ((), d\<lparr>inbox := update_where (\<lambda>r. in_id r = message)
       (\<lambda>r. r\<lparr>in_state := Inbox_Completed, in_completed := Some now\<rparr>) (inbox d)\<rparr>)"

text \<open>What the statements on the inbox and the run table do, as precondition rules.\<close>

lemma wp_insert_inbox [wp_intros]:
  assumes "\<not> inbox_conflict (in_id r) (in_subject r) (in_key r) d
      \<Longrightarrow> Q True (d\<lparr>inbox := inbox d @ [r]\<rparr>)"
    and "inbox_conflict (in_id r) (in_subject r) (in_key r) d \<Longrightarrow> Q False d"
  shows "wp (stmt (insert_inbox r)) Q d"
  by (rule wp_stmt) (use assms in \<open>auto simp: insert_inbox_def split: if_splits\<close>)

lemma wp_complete_inbox [wp_intros]:
  "Q () (d\<lparr>inbox := update_where (\<lambda>r. in_id r = message)
       (\<lambda>r. r\<lparr>in_state := Inbox_Completed, in_completed := Some now\<rparr>) (inbox d)\<rparr>)
     \<Longrightarrow> wp (stmt (complete_inbox now message)) Q d"
  by (rule wp_stmt) (simp add: complete_inbox_def)

lemma wp_update_runs [wp_intros]:
  "Q (count_where p (runs d)) (d\<lparr>runs := update_where p f (runs d)\<rparr>)
     \<Longrightarrow> wp (stmt (update_runs p f)) Q d"
  by (rule wp_stmt) (simp add: update_runs_def)

lemma inbox_conflict_appended [simp]:
  "inbox_conflict m s k (d\<lparr>inbox := rows @ [r]\<rparr>) \<longleftrightarrow>
     in_id r = m \<or> (in_subject r = s \<and> in_key r = k) \<or> inbox_conflict m s k (d\<lparr>inbox := rows\<rparr>)"
  by (simp add: inbox_conflict_def)

lemma inbox_conflict_completed [simp]:
  "inbox_conflict m s k (d\<lparr>inbox := update_where p
       (\<lambda>r. r\<lparr>in_state := st, in_completed := at\<rparr>) rows\<rparr>)
     \<longleftrightarrow> inbox_conflict m s k (d\<lparr>inbox := rows\<rparr>)"
proof -
  let ?k = "\<lambda>r. (in_id r, in_subject r, in_key r)"
  have keys: "inbox_conflict m s k d'
      \<longleftrightarrow> (\<exists>(i, q) \<in> set (map ?k (inbox d')). i = m \<or> q = (s, k))" for d' :: db
    by (auto simp: inbox_conflict_def)
  have "map ?k (update_where p (\<lambda>r. r\<lparr>in_state := st, in_completed := at\<rparr>) rows) = map ?k rows"
    by (rule map_update_where) simp
  then show ?thesis by (simp add: keys del: set_map list.set_map)
qed

lemma inbox_conflict_cong: "inbox d = inbox d' \<Longrightarrow> inbox_conflict m s k d = inbox_conflict m s k d'"
  by (simp add: inbox_conflict_def)

section \<open>Code that is not in the repository\<close>

text \<open>
  What the service gets from the contract crates, the hash crate, the JSON decoder and the text
  forms of instants. Each is an argument of the definitions that use it; the hypotheses that
  theorems put on them are their documented behaviour.
\<close>

record subscription_command =
  sc_owner :: uuid
  sc_key :: string
  sc_operation :: uuid
  sc_username :: string
  sc_active :: bool

record run_command =
  rc_owner :: uuid
  rc_key :: string
  rc_operation :: uuid
  rc_run :: uuid
  rc_on_demand :: bool
  rc_start :: instant
  rc_end :: instant
  rc_language :: language

datatype recap_failure =
    Manifest_Unavailable | Manifest_Integrity | Unsupported_Language | Context_Budget
  | Provider_Unavailable | Provider_Timeout | Invalid_Output | Cost_Budget | Cancelled

record completion_fact =
  cf_run :: uuid
  cf_owner :: uuid
  cf_result :: uuid
  cf_analysis_ref :: string
  cf_result_ref :: string
  cf_result_sha256 :: string
  cf_manifest_sha256 :: string
  cf_omitted :: nat
  cf_included :: nat
  cf_selected :: nat
  cf_channels :: nat

record failure_fact =
  ff_run :: uuid
  ff_owner :: uuid
  ff_code :: recap_failure
  ff_manifest_sha256 :: string

text \<open>A decoded JSON value, as \<open>serde_json\<close> holds it.\<close>

datatype json =
    JNull | JBool bool | JNumber string | JString string
  | JArray "json list" | JObject "(string \<times> json) list"

text \<open>
  \<open>pg_parse\<close> is the cast to \<open>timestamptz\<close>, \<open>pg_text\<close> its cast to text and \<open>pg_char\<close> the
  \<open>to_char\<close> form that the service selects; \<open>jiff_parse\<close> and \<open>jiff_text\<close> are those of
  \<open>jiff::Timestamp\<close>, \<open>wire_text\<close> that of \<open>WireTimestamp\<close>.
\<close>

record externals =
  sha256 :: "string \<Rightarrow> string"
  parse_uuid :: "string \<Rightarrow> uuid option"
  decode_subscription :: "string \<Rightarrow> subscription_command option"
  valid_subscription :: "subscription_command \<Rightarrow> bool"
  decode_run :: "string \<Rightarrow> run_command option"
  valid_run :: "run_command \<Rightarrow> bool"
  decode_completion :: "string \<Rightarrow> completion_fact option"
  valid_completion :: "completion_fact \<Rightarrow> bool"
  decode_failure :: "string \<Rightarrow> failure_fact option"
  valid_failure :: "failure_fact \<Rightarrow> bool"
  encode_recap :: "recap_request \<Rightarrow> string"
  decode_recap :: "string \<Rightarrow> recap_request option"
  valid_recap :: "recap_request \<Rightarrow> bool"
  stage_parses :: "string \<Rightarrow> bool"
  code_parses :: "string \<Rightarrow> bool"
  message_parses :: "string \<Rightarrow> bool"
  result_kind_parses :: "string \<Rightarrow> bool"
  entity_parses :: "string \<Rightarrow> bool"
  valid_report :: "report \<Rightarrow> bool"
  value_operation :: "json \<Rightarrow> uuid option"
  value_tenant :: "json \<Rightarrow> string option"
  tenant_user :: "string \<Rightarrow> uuid"
  encode_object :: "(string \<times> json) list \<Rightarrow> string"
  pg_parse :: "string \<Rightarrow> instant option"
  pg_text :: "instant \<Rightarrow> string"
  pg_char :: "instant \<Rightarrow> string"
  jiff_parse :: "string \<Rightarrow> instant option"
  jiff_text :: "instant \<Rightarrow> string"
  wire_text :: "instant \<Rightarrow> string"
  jiff_sub :: "instant \<Rightarrow> int \<Rightarrow> instant option"
  label_parses :: "string \<Rightarrow> bool"
  cron_parses :: "string \<Rightarrow> bool"
  operation_kind_parses :: "string \<Rightarrow> bool"

text \<open>How the three text forms of an instant agree.\<close>

definition text_forms_agree :: "externals \<Rightarrow> bool" where
  "text_forms_agree x \<longleftrightarrow>
     (\<forall>t. pg_parse x (pg_text x t) = Some t
        \<and> pg_parse x (pg_char x t) = Some (whole_second t)
        \<and> jiff_parse x (pg_char x t) = Some (whole_second t)
        \<and> pg_parse x (jiff_text x t) = Some t
        \<and> pg_parse x (wire_text x t) = Some t)"

lemma text_forms_agreeD:
  assumes "text_forms_agree x"
  shows "pg_parse x (pg_text x t) = Some t"
    and "pg_parse x (pg_char x t) = Some (whole_second t)"
    and "jiff_parse x (pg_char x t) = Some (whole_second t)"
    and "pg_parse x (jiff_text x t) = Some t"
    and "pg_parse x (wire_text x t) = Some t"
  using assms by (auto simp: text_forms_agree_def)

end
