(* ===== verification/Reports.thy ===== *)
theory Reports
  imports Schema
begin

text \<open>
  \<open>src/reports.rs\<close>: the operation reports queued in the transaction of the state that they
  report. Building a report parses its words through the contract crates; queueing it stores
  it at most once per operation and status.
\<close>

section \<open>Building a report\<close>

definition report_subject :: string where
  "report_subject = ''platform.operation.reported.v1''"

definition result_kind :: string where
  "result_kind = ''channel_digest.result''"

datatype report_error = Report_Invalid | Report_Storage

record report_row =
  rr_operation :: uuid
  rr_owner :: uuid
  rr_causation :: "string option"
  rr_report :: report

definition new_report ::
  "externals \<Rightarrow> uuid \<Rightarrow> uuid \<Rightarrow> operation_status \<Rightarrow> string \<Rightarrow> report_error + report_row" where
  "new_report x operation owner status stage =
     (if stage_parses x stage
      then Inr \<lparr>rr_operation = operation, rr_owner = owner, rr_causation = None,
             rr_report = \<lparr>rep_operation = operation, rep_status = status,
               rep_stage = Some stage, rep_results = [], rep_error = None, rep_warnings = []\<rparr>\<rparr>
      else Inl Report_Invalid)"

definition caused_by :: "string \<Rightarrow> report_row \<Rightarrow> report_row" where
  "caused_by reference row = row\<lparr>rr_causation := Some reference\<rparr>"

definition with_result :: "externals \<Rightarrow> string \<Rightarrow> report_row \<Rightarrow> report_error + report_row" where
  "with_result x target row =
     (if result_kind_parses x result_kind \<and> entity_parses x target
      then Inr (row\<lparr>rr_report := rr_report row
             \<lparr>rep_results := rep_results (rr_report row) @ [(result_kind, target)]\<rparr>\<rparr>)
      else Inl Report_Invalid)"

definition with_error ::
  "externals \<Rightarrow> string \<Rightarrow> string \<Rightarrow> bool \<Rightarrow> report_row \<Rightarrow> report_error + report_row" where
  "with_error x code message retryable row =
     (if code_parses x code \<and> message_parses x message
      then Inr (row\<lparr>rr_report := rr_report row
             \<lparr>rep_error := Some (code, message, retryable)\<rparr>\<rparr>)
      else Inl Report_Invalid)"

definition with_warning ::
  "externals \<Rightarrow> string \<Rightarrow> string \<Rightarrow> report_row \<Rightarrow> report_error + report_row" where
  "with_warning x code message row =
     (if code_parses x code \<and> message_parses x message
      then Inr (row\<lparr>rr_report := rr_report row
             \<lparr>rep_warnings := rep_warnings (rr_report row) @ [(code, message)]\<rparr>\<rparr>)
      else Inl Report_Invalid)"

section \<open>Queueing a report\<close>

definition report_key :: "uuid \<Rightarrow> operation_status \<Rightarrow> string" where
  "report_key operation status = ''operation:'' @ uuid_text operation @ '':'' @ status_text status"

definition queued_report :: "instant \<Rightarrow> uuid \<Rightarrow> report_row \<Rightarrow> outbox_row" where
  "queued_report now fresh row =
     \<lparr>out_id = fresh, out_subject = report_subject,
      out_key = report_key (rr_operation row) (rep_status (rr_report row)),
      out_owner = rr_owner row, out_operation = Some (rr_operation row),
      out_causation = rr_causation row, out_payload = Report_Payload (rr_report row),
      out_created = now, out_published = None, out_attempts = 0, out_next_attempt = now,
      out_failure = None\<rparr>"

definition enqueue ::
  "externals \<Rightarrow> instant \<Rightarrow> uuid \<Rightarrow> report_row \<Rightarrow> (db, report_error, unit) io" where
  "enqueue x now fresh row =
     bind_io (guard Report_Invalid (valid_report x (rr_report row))) (\<lambda>_.
     map_err (\<lambda>_. Report_Storage) (stmt (insert_outbox_once (queued_report now fresh row))))"

section \<open>Reports of a settled run\<close>

definition owns_on_demand :: "uuid \<Rightarrow> uuid \<Rightarrow> run_row \<Rightarrow> bool" where
  "owns_on_demand run owner r \<longleftrightarrow>
     run_id r = run \<and> run_owner r = owner \<and> run_trigger r = On_Demand"

definition on_demand_operation :: "uuid \<Rightarrow> uuid \<Rightarrow> (db, report_error, uuid option) io" where
  "on_demand_operation run owner =
     map_err (\<lambda>_. Report_Storage) (stmt (query (\<lambda>d.
       map_option run_operation (select_one (owns_on_demand run owner) (runs d)))))"

definition completion_report ::
  "externals \<Rightarrow> uuid \<Rightarrow> uuid \<Rightarrow> uuid \<Rightarrow> string \<Rightarrow> nat \<Rightarrow> bool \<Rightarrow> report_error + report_row" where
  "completion_report x operation owner event result_ref omitted incomplete =
     (let status = (if omitted = 0 \<and> \<not> incomplete then Op_Succeeded else Op_Partially_Succeeded)
      in and_then (new_report x operation owner status ''completed'') (\<lambda>row.
         and_then (with_result x result_ref (caused_by (''event:'' @ uuid_text event) row)) (\<lambda>row.
         and_then
           (if omitted > 0
            then with_warning x ''channel_digest.context_omitted''
              ''Some selected posts did not fit the recap context and were left out.'' row
            else Inr row) (\<lambda>row.
         if incomplete
         then with_warning x ''channel_digest.acquisition_incomplete''
           ''The digest does not cover every post of the window: some channels could not be read completely, or the window held more posts than one digest takes.'' row
         else Inr row))))"

definition report_completion ::
  "externals \<Rightarrow> instant \<Rightarrow> uuid \<Rightarrow> uuid \<Rightarrow> uuid \<Rightarrow> uuid \<Rightarrow> string \<Rightarrow> nat \<Rightarrow> bool
     \<Rightarrow> (db, report_error, unit) io" where
  "report_completion x now fresh run owner event result_ref omitted incomplete =
     bind_io (on_demand_operation run owner) (\<lambda>found.
     case found of
       None \<Rightarrow> ret ()
     | Some operation \<Rightarrow>
         bind_io (from_result
           (completion_report x operation owner event result_ref omitted incomplete)) (\<lambda>row.
         enqueue x now fresh row))"

definition recap_failure_report ::
  "externals \<Rightarrow> uuid \<Rightarrow> uuid \<Rightarrow> uuid \<Rightarrow> string \<Rightarrow> bool \<Rightarrow> report_error + report_row" where
  "recap_failure_report x operation owner event failure_class retryable =
     and_then (new_report x operation owner Op_Failed ''recap'') (\<lambda>row.
     with_error x (''channel_digest.recap.'' @ failure_class)
       ''The recap could not be produced.'' retryable
       (caused_by (''event:'' @ uuid_text event) row))"

definition report_recap_failure ::
  "externals \<Rightarrow> instant \<Rightarrow> uuid \<Rightarrow> uuid \<Rightarrow> uuid \<Rightarrow> uuid \<Rightarrow> string \<Rightarrow> bool
     \<Rightarrow> (db, report_error, unit) io" where
  "report_recap_failure x now fresh run owner event failure_class retryable =
     bind_io (on_demand_operation run owner) (\<lambda>found.
     case found of
       None \<Rightarrow> ret ()
     | Some operation \<Rightarrow>
         bind_io (from_result
           (recap_failure_report x operation owner event failure_class retryable)) (\<lambda>row.
         enqueue x now fresh row))"

section \<open>The queue after a report\<close>

text \<open>The rows of the outbox after an insert that a stored key turns into nothing.\<close>

definition once :: "outbox_row \<Rightarrow> outbox_row list \<Rightarrow> outbox_row list" where
  "once r rows =
     (if list_ex (\<lambda>q. out_subject q = out_subject r \<and> out_key q = out_key r) rows
      then rows else rows @ [r])"

definition put_once :: "outbox_row \<Rightarrow> db \<Rightarrow> db" where
  "put_once r d = d\<lparr>outbox := once r (outbox d)\<rparr>"

lemma put_once_frame [simp]:
  "channels (put_once r d) = channels d" "subscriptions (put_once r d) = subscriptions d"
  "revisions (put_once r d) = revisions d" "runs (put_once r d) = runs d"
  "manifests (put_once r d) = manifests d" "manifest_sources (put_once r d) = manifest_sources d"
  "results (put_once r d) = results d" "inbox (put_once r d) = inbox d"
  "leases (put_once r d) = leases d" "outbox (put_once r d) = once r (outbox d)"
  by (simp_all add: put_once_def)

lemma outbox_conflict_ex:
  "outbox_conflict s k d \<longleftrightarrow> list_ex (\<lambda>q. out_subject q = s \<and> out_key q = k) (outbox d)"
  by (simp add: outbox_conflict_def list_ex_iff)

lemma once_mono: "row \<in> set rows \<Longrightarrow> row \<in> set (once r rows)"
  by (simp add: once_def)

lemma once_cases:
  assumes "row \<in> set (once r rows)"
  obtains "row \<in> set rows" | "row = r"
  using assms by (auto simp: once_def split: if_splits)

lemma once_key:
  obtains row where "row \<in> set (once r rows)"
    and "out_subject row = out_subject r" and "out_key row = out_key r"
proof (cases "list_ex (\<lambda>q. out_subject q = out_subject r \<and> out_key q = out_key r) rows")
  case True
  with that show thesis by (auto simp: once_def list_ex_iff)
next
  case False
  then have "r \<in> set (once r rows)" by (simp add: once_def)
  with that show thesis by blast
qed

lemma put_once_again: "outbox_conflict (out_subject r) (out_key r) d \<Longrightarrow> put_once r d = d"
  by (simp add: put_once_def once_def outbox_conflict_ex)

lemma wp_insert_outbox_once [wp_intros]:
  "Q () (put_once r d) \<Longrightarrow> wp (stmt (insert_outbox_once r)) Q d"
  by (rule wp_stmt) (auto simp: insert_outbox_once_def put_once_def once_def outbox_conflict_ex split: if_splits)

lemma wp_enqueue [wp_intros]:
  "(valid_report x (rr_report row) \<Longrightarrow> Q () (put_once (queued_report now fresh row) d))
     \<Longrightarrow> wp (enqueue x now fresh row) Q d"
  unfolding enqueue_def by (intro wp_intros) simp

lemma steady_enqueue [steady_intros]: "steady (enqueue x now fresh row)"
  by (simp add: enqueue_def steady_intros)

lemma enqueue_run [simp]:
  "enqueue x now fresh row (healthy d) =
     (if \<not> valid_report x (rr_report row) then (Inl Report_Invalid, healthy d)
      else if outbox_conflict report_subject
                (report_key (rr_operation row) (rep_status (rr_report row))) d
      then (Inr (), healthy d)
      else if outbox_id_taken fresh d then (Inl Report_Storage, healthy d)
      else (Inr (), healthy (d\<lparr>outbox := outbox d @ [queued_report now fresh row]\<rparr>)))"
  by (simp add: enqueue_def insert_outbox_once_def queued_report_def)

section \<open>What a built report says\<close>

lemma new_report_Inr:
  "new_report x operation owner status stage = Inr row \<longleftrightarrow> stage_parses x stage
     \<and> row = \<lparr>rr_operation = operation, rr_owner = owner, rr_causation = None,
         rr_report = \<lparr>rep_operation = operation, rep_status = status, rep_stage = Some stage,
           rep_results = [], rep_error = None, rep_warnings = []\<rparr>\<rparr>"
  by (auto simp: new_report_def)

lemma with_error_Inr:
  "with_error x code message retryable row = Inr row' \<longleftrightarrow> code_parses x code \<and> message_parses x message
     \<and> row' = row\<lparr>rr_report := rr_report row\<lparr>rep_error := Some (code, message, retryable)\<rparr>\<rparr>"
  by (auto simp: with_error_def)

lemma with_warning_Inr:
  "with_warning x code message row = Inr row' \<longleftrightarrow> code_parses x code \<and> message_parses x message
     \<and> row' = row\<lparr>rr_report := rr_report row
         \<lparr>rep_warnings := rep_warnings (rr_report row) @ [(code, message)]\<rparr>\<rparr>"
  by (auto simp: with_warning_def)

lemma with_result_Inr:
  "with_result x target row = Inr row' \<longleftrightarrow> result_kind_parses x result_kind \<and> entity_parses x target
     \<and> row' = row\<lparr>rr_report := rr_report row
         \<lparr>rep_results := rep_results (rr_report row) @ [(result_kind, target)]\<rparr>\<rparr>"
  by (auto simp: with_result_def)

lemmas report_builders = new_report_Inr with_error_Inr with_warning_Inr with_result_Inr and_then_Inr
  caused_by_def

lemma completion_report_Inr:
  assumes "completion_report x operation owner event result_ref omitted incomplete = Inr row"
  shows "rr_operation row = operation" and "rr_owner row = owner"
    and "rr_causation row = Some (''event:'' @ uuid_text event)"
    and "rep_operation (rr_report row) = operation"
    and "rep_status (rr_report row)
           = (if omitted = 0 \<and> \<not> incomplete then Op_Succeeded else Op_Partially_Succeeded)"
    and "rep_results (rr_report row) = [(result_kind, result_ref)]"
    and "rep_error (rr_report row) = None"
    and "rep_warnings (rr_report row) = [] \<longleftrightarrow> rep_status (rr_report row) = Op_Succeeded"
  using assms
  by (auto simp: completion_report_def Let_def report_builders split: if_splits)

lemma recap_failure_report_Inr:
  assumes "recap_failure_report x operation owner event failure_class retryable = Inr row"
  shows "rr_operation row = operation" and "rr_owner row = owner"
    and "rep_operation (rr_report row) = operation" and "rep_status (rr_report row) = Op_Failed"
    and "rep_error (rr_report row)
           = Some (''channel_digest.recap.'' @ failure_class, ''The recap could not be produced.'', retryable)"
  using assms by (auto simp: recap_failure_report_def report_builders)

lemma wp_on_demand_operation [wp_intros]:
  "Q (map_option run_operation (select_one (owns_on_demand run owner) (runs d))) d
     \<Longrightarrow> wp (on_demand_operation run owner) Q d"
  unfolding on_demand_operation_def by (intro wp_intros)

lemma on_demand_operation_run [simp]:
  "on_demand_operation run owner (healthy d) =
     (Inr (map_option run_operation (select_one (owns_on_demand run owner) (runs d))), healthy d)"
  by (simp add: on_demand_operation_def)

lemma steady_on_demand_operation [steady_intros]: "steady (on_demand_operation run owner)"
  by (simp add: on_demand_operation_def steady_intros)

text \<open>The tables after the terminal report of a run: unchanged when no operation owns the run.\<close>

lemma wp_report_completion [wp_intros]:
  assumes "select_one (owns_on_demand run owner) (runs d) = None \<Longrightarrow> Q () d"
    and "\<And>r row. select_one (owns_on_demand run owner) (runs d) = Some r
      \<Longrightarrow> completion_report x (run_operation r) owner event result_ref omitted incomplete = Inr row
      \<Longrightarrow> valid_report x (rr_report row) \<Longrightarrow> Q () (put_once (queued_report now fresh row) d)"
  shows "wp (report_completion x now fresh run owner event result_ref omitted incomplete) Q d"
  unfolding report_completion_def
  by (intro wp_intros) (auto intro: assms)

lemma wp_report_recap_failure [wp_intros]:
  assumes "select_one (owns_on_demand run owner) (runs d) = None \<Longrightarrow> Q () d"
    and "\<And>r row. select_one (owns_on_demand run owner) (runs d) = Some r
      \<Longrightarrow> recap_failure_report x (run_operation r) owner event failure_class retryable = Inr row
      \<Longrightarrow> valid_report x (rr_report row) \<Longrightarrow> Q () (put_once (queued_report now fresh row) d)"
  shows "wp (report_recap_failure x now fresh run owner event failure_class retryable) Q d"
  unfolding report_recap_failure_def
  by (intro wp_intros) (auto intro: assms)

lemma steady_report_completion [steady_intros]:
  "steady (report_completion x now fresh run owner event result_ref omitted incomplete)"
  unfolding report_completion_def by (intro steady_intros)

lemma steady_report_recap_failure [steady_intros]:
  "steady (report_recap_failure x now fresh run owner event failure_class retryable)"
  unfolding report_recap_failure_def by (intro steady_intros)

section \<open>Reports and their keys\<close>

lemma report_key_inj [key_simps]: "report_key o1 s1 = report_key o2 s2 \<longleftrightarrow> o1 = o2 \<and> s1 = s2"
proof
  assume "report_key o1 s1 = report_key o2 s2"
  then have "uuid_text o1 @ '':'' @ status_text s1 = uuid_text o2 @ '':'' @ status_text s2"
    by (simp add: report_key_def)
  then have "uuid_text o1 = uuid_text o2" and "status_text s1 = status_text s2"
    by (simp_all add: append_eq_append_conv)
  then show "o1 = o2 \<and> s1 = s2" by (simp add: status_text_inj)
qed simp

text \<open>A stored report row is keyed by the operation and the status of its payload.\<close>

definition report_row_ok :: "outbox_row \<Rightarrow> bool" where
  "report_row_ok row \<longleftrightarrow>
     (out_subject row = report_subject \<longrightarrow>
        (case out_payload row of
           Report_Payload r \<Rightarrow>
             out_key row = report_key (rep_operation r) (rep_status r)
             \<and> out_operation row = Some (rep_operation r)
         | _ \<Rightarrow> False))"

definition reports_wf :: "outbox_row list \<Rightarrow> bool" where
  "reports_wf rows \<longleftrightarrow> list_all report_row_ok rows"

definition is_report :: "uuid \<Rightarrow> operation_status \<Rightarrow> outbox_row \<Rightarrow> bool" where
  "is_report operation status row \<longleftrightarrow>
     out_subject row = report_subject \<and> out_operation row = Some operation
     \<and> (case out_payload row of
           Report_Payload r \<Rightarrow> rep_operation r = operation \<and> rep_status r = status
         | _ \<Rightarrow> False)"

definition reported :: "outbox_row list \<Rightarrow> uuid \<Rightarrow> operation_status \<Rightarrow> bool" where
  "reported rows operation status \<longleftrightarrow> list_ex (is_report operation status) rows"

lemma is_report_key:
  assumes "report_row_ok row" and "out_subject row = report_subject"
    and "out_key row = report_key operation status"
  shows "is_report operation status row"
  using assms
  by (auto simp: report_row_ok_def is_report_def report_key_inj split: payload.splits)

lemma reported_once: "reported rows operation status \<Longrightarrow> reported (once r rows) operation status"
  by (auto simp: reported_def list_ex_iff intro: once_mono)

lemma queued_report_ok:
  "rep_operation (rr_report row) = rr_operation row \<Longrightarrow> report_row_ok (queued_report now fresh row)"
  by (simp add: report_row_ok_def queued_report_def)

lemma reports_wf_once: "reports_wf rows \<Longrightarrow> report_row_ok r \<Longrightarrow> reports_wf (once r rows)"
  by (simp add: reports_wf_def once_def)

lemma reported_queued:
  assumes "reports_wf rows" and "rep_operation (rr_report row) = rr_operation row"
  shows "reported (once (queued_report now fresh row) rows)
           (rr_operation row) (rep_status (rr_report row))"
proof -
  let ?rows = "once (queued_report now fresh row) rows"
  have wf: "reports_wf ?rows"
    using assms by (intro reports_wf_once queued_report_ok)
  obtain q where q: "q \<in> set ?rows" "out_subject q = report_subject"
    "out_key q = report_key (rr_operation row) (rep_status (rr_report row))"
    by (rule once_key [of "queued_report now fresh row" rows])
      (simp add: queued_report_def)
  from wf q(1) have "report_row_ok q" by (simp add: reports_wf_def list_all_iff)
  with q show ?thesis
    unfolding reported_def list_ex_iff by (blast intro: is_report_key)
qed

end
