(* ===== verification/Demo.thy ===== *)
theory Demo
  imports Schema
begin

text \<open>
  One concrete instance of the code that the repository only uses, on which the properties are
  tried: instants are written in decimal, every word parses, and a few fixed payloads decode.
\<close>

section \<open>Instants in decimal\<close>

fun int_parse :: "string \<Rightarrow> int option" where
  "int_parse [] = None"
| "int_parse (c # cs) =
     (if c = CHR ''-'' then map_option (\<lambda>n. - int n) (digits_value 0 cs)
      else map_option int (digits_value 0 (c # cs)))"

lemma int_parse_nat_text: "int_parse (nat_text n) = Some (int n)"
proof (cases "nat_text n")
  case (Cons c cs)
  have "digit_value (CHR ''-'') = None" by code_simp
  moreover have "digits_value 0 (c # cs) = Some n" using digits_value_nat_text [of n] Cons by simp
  ultimately have "c \<noteq> CHR ''-''" by auto
  with Cons digits_value_nat_text [of n] show ?thesis by simp
qed simp

lemma int_parse_int_text [simp]: "int_parse (int_text i) = Some i"
  by (simp add: int_text_def int_parse_nat_text digits_value_nat_text)

section \<open>The instance\<close>

definition demo_sha256 :: "string \<Rightarrow> string" where
  "demo_sha256 s = take 64 (s @ replicate 64 (CHR ''a''))"

definition demo_subscription :: subscription_command where
  "demo_subscription = \<lparr>sc_owner = 7, sc_key = ''follow'', sc_operation = 71, sc_username = ''rustlang'',
     sc_active = True\<rparr>"

definition demo_run :: run_command where
  "demo_run = \<lparr>rc_owner = 7, rc_key = ''digest'', rc_operation = 72, rc_run = 5, rc_on_demand = True,
     rc_start = 100, rc_end = 200, rc_language = En\<rparr>"

definition demo_completion :: completion_fact where
  "demo_completion = \<lparr>cf_run = 5, cf_owner = 7, cf_result = 50, cf_analysis_ref = ''analysis:9'',
     cf_result_ref = ''result'', cf_result_sha256 = replicate 64 (CHR ''b''),
     cf_manifest_sha256 = demo_sha256 ''manifest'', cf_omitted = 0, cf_included = 1, cf_selected = 1,
     cf_channels = 1\<rparr>"

definition demo_failure :: failure_fact where
  "demo_failure = \<lparr>ff_run = 5, ff_owner = 7, ff_code = Provider_Timeout,
     ff_manifest_sha256 = demo_sha256 ''manifest''\<rparr>"

definition demo_request :: recap_request where
  "demo_request = \<lparr>rq_operation = 72, rq_owner = ''user:'' @ uuid_text 7, rq_run = uuid_text 5,
     rq_window = (int_text 100, int_text 200), rq_language = En, rq_source_count = 1,
     rq_channel_count = 1, rq_manifest_ref = ''channel-digest-manifest:'' @ uuid_text 30,
     rq_manifest_sha256 = demo_sha256 ''manifest'', rq_family = ''channel_digest_recap'',
     rq_contract = ''channel_digest_recap.v1''\<rparr>"

definition demo :: externals where
  "demo =
     \<lparr>sha256 = demo_sha256,
      parse_uuid = (\<lambda>s. map_option of_nat (parse_unsigned (2 ^ 128 - 1) s)),
      decode_subscription = (\<lambda>s. if s = ''follow'' then Some demo_subscription else None),
      valid_subscription = (\<lambda>_. True),
      decode_run = (\<lambda>s. if s = ''digest'' then Some demo_run else None),
      valid_run = (\<lambda>_. True),
      decode_completion = (\<lambda>s. if s = ''completed'' then Some demo_completion else None),
      valid_completion = (\<lambda>_. True),
      decode_failure = (\<lambda>s. if s = ''failed'' then Some demo_failure else None),
      valid_failure = (\<lambda>_. True),
      encode_recap = (\<lambda>_. ''request''),
      decode_recap = (\<lambda>s. if s = ''request'' then Some demo_request else None),
      valid_recap = (\<lambda>_. True),
      stage_parses = (\<lambda>_. True), code_parses = (\<lambda>_. True), message_parses = (\<lambda>_. True),
      result_kind_parses = (\<lambda>_. True), entity_parses = (\<lambda>_. True), valid_report = (\<lambda>_. True),
      value_operation = (\<lambda>v. case v of JString s \<Rightarrow> map_option of_nat (parse_unsigned 1000 s) | _ \<Rightarrow> None),
      value_tenant = (\<lambda>v. case v of JString s \<Rightarrow> Some s | _ \<Rightarrow> None),
      tenant_user = (\<lambda>_. 7), encode_object = (\<lambda>_. ''object''),
      pg_parse = int_parse, pg_text = int_text, pg_char = (\<lambda>t. int_text (whole_second t)),
      jiff_parse = int_parse, jiff_text = int_text, wire_text = int_text,
      jiff_sub = (\<lambda>t s. Some (t - s)),
      label_parses = (\<lambda>_. True), cron_parses = (\<lambda>_. True), operation_kind_parses = (\<lambda>_. True)\<rparr>"

lemma demo_simps [simp]:
  "sha256 demo = demo_sha256" "decode_run demo ''digest'' = Some demo_run" "valid_run demo c = True"
  "decode_subscription demo ''follow'' = Some demo_subscription" "valid_subscription demo sc = True"
  "stage_parses demo s = True" "code_parses demo s = True" "message_parses demo s = True"
  "result_kind_parses demo s = True" "entity_parses demo s = True" "valid_report demo r = True"
  "pg_parse demo = int_parse" "pg_text demo = int_text" "jiff_parse demo = int_parse"
  "jiff_text demo = int_text" "wire_text demo = int_text" "pg_char demo t = int_text (whole_second t)"
  "jiff_sub demo t n = Some (t - n)"
  by (simp_all add: demo_def)

lemma length_demo_sha256 [simp]: "length (demo_sha256 s) = 64"
  by (simp add: demo_sha256_def)

lemma demo_text_forms: "text_forms_agree demo"
  by (simp add: text_forms_agree_def)

end
