(* ===== verification/Subscriptions.thy ===== *)
theory Subscriptions
  imports Demo
begin

text \<open>
  \<open>src/subscriptions.rs\<close> and the function \<open>set_subscription\<close> of \<open>src/schema.sql\<close>: the channels
  that an owner follows, with at most twenty of them active.
\<close>

section \<open>The stored function\<close>

text \<open>\<open>lower\<close> and \<open>to_ascii_lowercase\<close> on the ASCII usernames of the contract.\<close>

definition ascii_lower_char :: "char \<Rightarrow> char" where
  "ascii_lower_char c =
     (let n = of_char c :: nat in if 65 \<le> n \<and> n \<le> 90 then char_of (n + 32) else c)"

definition ascii_lower :: "string \<Rightarrow> string" where
  "ascii_lower s = map ascii_lower_char s"

definition active_of :: "uuid \<Rightarrow> subscription_row \<Rightarrow> bool" where
  "active_of owner s \<longleftrightarrow> sub_owner s = owner \<and> sub_enabled s"

definition active_count :: "uuid \<Rightarrow> db \<Rightarrow> nat" where
  "active_count owner d = count_where (active_of owner) (subscriptions d)"

definition active_limit :: nat where
  "active_limit = 20"

text \<open>\<open>insert into channels ... on conflict (username) do nothing\<close>\<close>

definition insert_channel :: "uuid \<Rightarrow> string \<Rightarrow> (db, unit) statement" where
  "insert_channel channel username d =
     (if username \<in> ch_username ` set (channels d) then Inr ((), d)
      else if username \<noteq> ascii_lower username \<or> channel \<in> ch_id ` set (channels d) then Inl Violation
      else Inr ((), d\<lparr>channels := channels d @
             [\<lparr>ch_id = channel, ch_username = username, ch_display_name = None\<rparr>]\<rparr>))"

definition subscription_for :: "uuid \<Rightarrow> uuid \<Rightarrow> subscription_row \<Rightarrow> bool" where
  "subscription_for owner channel s \<longleftrightarrow> sub_owner s = owner \<and> sub_channel s = channel"

definition desire_subscription ::
  "uuid \<Rightarrow> uuid \<Rightarrow> uuid \<Rightarrow> bool \<Rightarrow> instant \<Rightarrow> (db, uuid \<times> instant \<times> bool) statement" where
  "desire_subscription fresh channel owner enabled at d =
     (case select_one (subscription_for owner channel) (subscriptions d) of
        Some existing \<Rightarrow>
          if enabled \<and> \<not> sub_enabled existing \<and> active_count owner d \<ge> active_limit
          then Inl Raised_P0001
          else Inr ((sub_id existing, sub_first_activated existing, enabled),
                 d\<lparr>subscriptions := update_where (\<lambda>s. sub_id s = sub_id existing)
                     (\<lambda>s. s\<lparr>sub_enabled := enabled, sub_updated := at\<rparr>) (subscriptions d)\<rparr>)
      | None \<Rightarrow>
          if enabled \<and> active_count owner d \<ge> active_limit then Inl Raised_P0001
          else if fresh \<in> sub_id ` set (subscriptions d) then Inl Violation
          else Inr ((fresh, at, enabled),
                 d\<lparr>subscriptions := subscriptions d @
                     [\<lparr>sub_id = fresh, sub_owner = owner, sub_channel = channel,
                       sub_first_activated = at, sub_enabled = enabled, sub_updated = at\<rparr>]\<rparr>))"

text \<open>
  \<open>set_subscription\<close>: the two statements of the function run in the caller's transaction, and
  \<open>select ... into strict\<close> raises when the channel is not there.
\<close>

definition set_subscription ::
  "uuid \<Rightarrow> uuid \<Rightarrow> uuid \<Rightarrow> string \<Rightarrow> bool \<Rightarrow> instant \<Rightarrow> (db, uuid \<times> instant \<times> bool) statement" where
  "set_subscription fresh fresh_channel owner username enabled at d =
     (case insert_channel fresh_channel (ascii_lower username) d of
        Inl e \<Rightarrow> Inl e
      | Inr (_, d1) \<Rightarrow>
          (case select_one (\<lambda>c. ch_username c = ascii_lower username) (channels d1) of
             None \<Rightarrow> Inl Violation
           | Some c \<Rightarrow> desire_subscription fresh (ch_id c) owner enabled at d1))"

section \<open>The repository\<close>

record subscription =
  sp_id :: uuid
  sp_username :: string
  sp_first_activated :: string
  sp_enabled :: bool

datatype subscription_error = Subscription_Limit | Subscription_Storage

definition map_subscription_error :: "db_error \<Rightarrow> subscription_error" where
  "map_subscription_error e = (if e = Raised_P0001 then Subscription_Limit else Subscription_Storage)"

definition subscription_set ::
  "externals \<Rightarrow> uuid \<Rightarrow> uuid \<Rightarrow> uuid \<Rightarrow> string \<Rightarrow> bool \<Rightarrow> string
     \<Rightarrow> (db, subscription_error, subscription) io" where
  "subscription_set x fresh fresh_channel owner username enabled requested_at =
     bind_io
       (map_err map_subscription_error (pooled (\<lambda>d.
          case pg_parse x requested_at of
            None \<Rightarrow> Inl Violation
          | Some at \<Rightarrow> set_subscription fresh fresh_channel owner username enabled at d)))
       (\<lambda>(i, first, on). ret
          \<lparr>sp_id = i, sp_username = ascii_lower username, sp_first_activated = pg_char x first,
           sp_enabled = on\<rparr>)"

definition subscription_get ::
  "externals \<Rightarrow> uuid \<Rightarrow> string \<Rightarrow> (db, subscription_error, subscription option) io" where
  "subscription_get x owner username =
     map_err (\<lambda>_. Subscription_Storage) (pooled (query (\<lambda>d.
       map_option (\<lambda>(s, c).
           \<lparr>sp_id = sub_id s, sp_username = ch_username c,
            sp_first_activated = pg_char x (sub_first_activated s), sp_enabled = sub_enabled s\<rparr>)
         (select_one (\<lambda>(s, c). sub_owner s = owner \<and> sub_channel s = ch_id c
              \<and> ch_username c = ascii_lower username)
            (List.product (subscriptions d) (channels d))))))"

section \<open>What a call changes\<close>

text \<open>The keys and checks of the two tables, and the limit of active subscriptions.\<close>

definition subscriptions_ok :: "db \<Rightarrow> bool" where
  "subscriptions_ok d \<longleftrightarrow>
     unique_by ch_username (channels d) \<and> unique_by ch_id (channels d)
     \<and> unique_by sub_id (subscriptions d)
     \<and> unique_by (\<lambda>s. (sub_owner s, sub_channel s)) (subscriptions d)
     \<and> sub_channel ` set (subscriptions d) \<subseteq> ch_id ` set (channels d)
     \<and> (\<forall>owner. active_count owner d \<le> active_limit)"

lemma ascii_lower_idem [simp]: "ascii_lower (ascii_lower s) = ascii_lower s"
proof -
  have "ascii_lower_char (ascii_lower_char c) = ascii_lower_char c" for c
    by (simp add: ascii_lower_char_def Let_def)
  then show ?thesis by (simp add: ascii_lower_def)
qed

definition with_subscriptions :: "channel list \<Rightarrow> subscription_row list \<Rightarrow> db \<Rightarrow> db" where
  "with_subscriptions cs ss d = d\<lparr>channels := cs, subscriptions := ss\<rparr>"

lemma insert_channel_cases:
  assumes "insert_channel channel username d = Inr (u, d1)"
  obtains "d1 = d" and "username \<in> ch_username ` set (channels d)"
    | "d1 = d\<lparr>channels := channels d @
         [\<lparr>ch_id = channel, ch_username = username, ch_display_name = None\<rparr>]\<rparr>"
      and "username \<notin> ch_username ` set (channels d)" and "channel \<notin> ch_id ` set (channels d)"
  using assms by (auto simp: insert_channel_def split: if_splits)

lemma desire_subscription_cases:
  assumes "desire_subscription fresh channel owner enabled at d = Inr (v, d')"
  obtains (converged) existing where
      "select_one (subscription_for owner channel) (subscriptions d) = Some existing"
      and "enabled \<Longrightarrow> sub_enabled existing \<or> active_count owner d < active_limit"
      and "v = (sub_id existing, sub_first_activated existing, enabled)"
      and "d' = d\<lparr>subscriptions := update_where (\<lambda>s. sub_id s = sub_id existing)
                 (\<lambda>s. s\<lparr>sub_enabled := enabled, sub_updated := at\<rparr>) (subscriptions d)\<rparr>"
    | (created) "select_one (subscription_for owner channel) (subscriptions d) = None"
      and "enabled \<Longrightarrow> active_count owner d < active_limit"
      and "fresh \<notin> sub_id ` set (subscriptions d)" and "v = (fresh, at, enabled)"
      and "d' = d\<lparr>subscriptions := subscriptions d @
             [\<lparr>sub_id = fresh, sub_owner = owner, sub_channel = channel,
               sub_first_activated = at, sub_enabled = enabled, sub_updated = at\<rparr>]\<rparr>"
  using assms
  by (auto simp: desire_subscription_def not_le split: option.splits if_splits)

lemma set_subscription_steps:
  assumes "set_subscription fresh fresh_channel owner username enabled at d = Inr (v, d')"
  obtains u d1 and c :: channel where "insert_channel fresh_channel (ascii_lower username) d = Inr (u, d1)"
    and "select_one (\<lambda>c. ch_username c = ascii_lower username) (channels d1) = Some c"
    and "desire_subscription fresh (ch_id c) owner enabled at d1 = Inr (v, d')"
proof (cases "insert_channel fresh_channel (ascii_lower username) d")
  case (Inr r)
  obtain u d1 where r: "r = (u, d1)" by (cases r)
  show thesis
  proof (cases "select_one (\<lambda>c. ch_username c = ascii_lower username) (channels d1)")
    case (Some c)
    with assms Inr r that show thesis by (simp add: set_subscription_def)
  qed (use assms Inr r in \<open>simp add: set_subscription_def\<close>)
qed (use assms in \<open>simp add: set_subscription_def\<close>)

text \<open>The call leaves every other table alone.\<close>

lemma set_subscription_frame:
  assumes "set_subscription fresh fresh_channel owner username enabled at d = Inr (v, d')"
  shows "d' = with_subscriptions (channels d') (subscriptions d') d"
proof -
  from assms obtain u d1 and c :: channel
    where one: "insert_channel fresh_channel (ascii_lower username) d = Inr (u, d1)"
    and two: "desire_subscription fresh (ch_id c) owner enabled at d1 = Inr (v, d')"
    by (rule set_subscription_steps)
  from one have "d1 = with_subscriptions (channels d1) (subscriptions d1) d"
    by (rule insert_channel_cases) (simp_all add: with_subscriptions_def)
  moreover from two have "d' = with_subscriptions (channels d') (subscriptions d') d1"
    by (cases rule: desire_subscription_cases) (simp_all add: with_subscriptions_def)
  ultimately show ?thesis by (cases d; cases d1; cases d') (simp add: with_subscriptions_def)
qed

lemma with_subscriptions_frame [simp]:
  "revisions (with_subscriptions cs ss d) = revisions d"
  "runs (with_subscriptions cs ss d) = runs d"
  "manifests (with_subscriptions cs ss d) = manifests d"
  "manifest_sources (with_subscriptions cs ss d) = manifest_sources d"
  "results (with_subscriptions cs ss d) = results d"
  "inbox (with_subscriptions cs ss d) = inbox d"
  "outbox (with_subscriptions cs ss d) = outbox d"
  "leases (with_subscriptions cs ss d) = leases d"
  "channels (with_subscriptions cs ss d) = cs"
  "subscriptions (with_subscriptions cs ss d) = ss"
  by (simp_all add: with_subscriptions_def)

lemma active_count_converge:
  assumes unique: "unique_by sub_id (subscriptions d)" and member: "existing \<in> set (subscriptions d)"
  shows "active_count o' (d\<lparr>subscriptions := update_where (\<lambda>s. sub_id s = sub_id existing)
           (\<lambda>s. s\<lparr>sub_enabled := enabled, sub_updated := at\<rparr>) (subscriptions d)\<rparr>)
         \<le> active_count o' d
             + (if o' = sub_owner existing \<and> enabled \<and> \<not> sub_enabled existing then 1 else 0)"
proof -
  let ?p = "\<lambda>s. sub_id s = sub_id existing"
  let ?f = "\<lambda>s. s\<lparr>sub_enabled := enabled, sub_updated := at\<rparr>"
  obtain xs ys where "subscriptions d = xs @ existing # ys"
    and "update_where ?p ?f (subscriptions d) = xs @ ?f existing # ys"
    using update_where_key_split [OF unique member, of ?p ?f] by blast
  then show ?thesis by (simp add: active_count_def count_where_def active_of_def)
qed

lemma desire_subscription_ok:
  assumes ok: "subscriptions_ok d" and channel: "channel \<in> ch_id ` set (channels d)"
    and run: "desire_subscription fresh channel owner enabled at d = Inr (v, d')"
  shows "subscriptions_ok d'"
  using run
proof (cases rule: desire_subscription_cases)
  case (converged existing)
  let ?p = "\<lambda>s. sub_id s = sub_id existing"
  let ?f = "\<lambda>s. s\<lparr>sub_enabled := enabled, sub_updated := at\<rparr>"
  from converged(1) have member: "existing \<in> set (subscriptions d)" and "sub_owner existing = owner"
    by (auto dest!: select_one_Some simp: subscription_for_def)
  have same: "map k (update_where ?p ?f (subscriptions d)) = map k (subscriptions d)"
    if "\<And>s. k (?f s) = k s" for k :: "subscription_row \<Rightarrow> 'k"
    using that by (rule map_update_where)
  have "sub_channel ` set (update_where ?p ?f (subscriptions d)) = sub_channel ` set (subscriptions d)"
    using same [of sub_channel] by (simp flip: set_map)
  moreover have "active_count o' d' \<le> active_limit" for o'
  proof -
    have "active_count o' d' \<le> active_count o' d
             + (if o' = sub_owner existing \<and> enabled \<and> \<not> sub_enabled existing then 1 else 0)"
      unfolding converged(4) using ok member by (intro active_count_converge) (simp_all add: subscriptions_ok_def)
    also have "\<dots> \<le> active_limit"
      using ok converged(2) \<open>sub_owner existing = owner\<close>
      by (auto simp: subscriptions_ok_def)
    finally show ?thesis .
  qed
  ultimately show ?thesis
    using ok by (simp add: subscriptions_ok_def converged(4) same)
next
  case created
  then have "\<forall>s \<in> set (subscriptions d). \<not> subscription_for owner channel s"
    by (simp add: select_one_None)
  moreover have "active_count o' d' \<le> active_limit" for o'
    using ok created(2)
    by (auto simp: created(5) active_count_def count_where_def active_of_def subscriptions_ok_def)
  ultimately show ?thesis
    using ok created(3) channel
    by (auto simp: subscriptions_ok_def created(5) subscription_for_def)
qed

lemma set_subscription_ok:
  assumes ok: "subscriptions_ok d"
    and run: "set_subscription fresh fresh_channel owner username enabled at d = Inr (v, d')"
  shows "subscriptions_ok d'"
proof -
  from run obtain u d1 c where one: "insert_channel fresh_channel (ascii_lower username) d = Inr (u, d1)"
    and found: "select_one (\<lambda>c. ch_username c = ascii_lower username) (channels d1) = Some c"
    and two: "desire_subscription fresh (ch_id c) owner enabled at d1 = Inr (v, d')"
    by (rule set_subscription_steps)
  from one have "subscriptions_ok d1"
    by (rule insert_channel_cases)
      (use ok in \<open>auto simp: subscriptions_ok_def active_count_def\<close>)
  moreover from found have "ch_id c \<in> ch_id ` set (channels d1)"
    by (auto dest: select_one_Some)
  ultimately show ?thesis using two by (rule desire_subscription_ok)
qed

section \<open>What a call means\<close>

definition followed :: "uuid \<Rightarrow> string \<Rightarrow> db \<Rightarrow> subscription_row \<Rightarrow> bool" where
  "followed owner username d s \<longleftrightarrow> s \<in> set (subscriptions d) \<and> sub_owner s = owner
     \<and> list_ex (\<lambda>c. ch_id c = sub_channel s \<and> ch_username c = ascii_lower username) (channels d)"

lemma followed_unique:
  "subscriptions_ok d \<Longrightarrow> followed owner username d s \<Longrightarrow> followed owner username d s' \<Longrightarrow> s = s'"
  unfolding subscriptions_ok_def followed_def list_ex_iff
  by (metis (no_types, lifting) unique_byD)

lemma followed_selected:
  assumes ok: "subscriptions_ok d" and c: "c \<in> set (channels d)" "ch_username c = ascii_lower username"
  shows "select_one (subscription_for owner (ch_id c)) (subscriptions d) = Some s
           \<longleftrightarrow> followed owner username d s"
proof
  assume "select_one (subscription_for owner (ch_id c)) (subscriptions d) = Some s"
  then show "followed owner username d s"
    using c by (auto dest!: select_one_Some simp: subscription_for_def followed_def list_ex_iff)
next
  assume f: "followed owner username d s"
  then obtain c' where "c' \<in> set (channels d)" "ch_id c' = sub_channel s"
    "ch_username c' = ascii_lower username"
    by (auto simp: followed_def list_ex_iff)
  with ok c have "c' = c" by (metis subscriptions_ok_def unique_byD)
  with f \<open>ch_id c' = sub_channel s\<close> have "s \<in> set (subscriptions d)" "subscription_for owner (ch_id c) s"
    by (simp_all add: followed_def subscription_for_def)
  with ok show "select_one (subscription_for owner (ch_id c)) (subscriptions d) = Some s"
    by (intro select_one_key [where k = "\<lambda>s. (sub_owner s, sub_channel s)"])
      (auto simp: subscriptions_ok_def subscription_for_def)
qed

lemma insert_channel_run:
  assumes ok: "subscriptions_ok d" and fresh: "fc \<notin> ch_id ` set (channels d)"
  obtains d1 and c :: channel where "insert_channel fc (ascii_lower username) d = Inr ((), d1)"
    and "select_one (\<lambda>c. ch_username c = ascii_lower username) (channels d1) = Some c"
    and "c \<in> set (channels d1)" and "ch_username c = ascii_lower username"
    and "subscriptions d1 = subscriptions d" and "subscriptions_ok d1"
    and "followed owner username d1 = followed owner username d"
proof -
  have "\<exists>d1. insert_channel fc (ascii_lower username) d = Inr ((), d1)"
    using fresh by (simp add: insert_channel_def)
  then obtain d1 where run: "insert_channel fc (ascii_lower username) d = Inr ((), d1)" by blast
  then have "ascii_lower username \<in> ch_username ` set (channels d1)"
    by (rule insert_channel_cases) auto
  then obtain c where c: "select_one (\<lambda>c. ch_username c = ascii_lower username) (channels d1) = Some c"
    by (cases "select_one (\<lambda>c. ch_username c = ascii_lower username) (channels d1)")
      (auto simp: select_one_None)
  have subs: "subscriptions d1 = subscriptions d"
    using run by (rule insert_channel_cases) simp_all
  have ok1: "subscriptions_ok d1"
    using run by (rule insert_channel_cases) (use ok in \<open>auto simp: subscriptions_ok_def active_count_def\<close>)
  have "followed owner username d1 s = followed owner username d s" for s
    using run
  proof (rule insert_channel_cases)
    assume d1: "d1 = d\<lparr>channels := channels d @
         [\<lparr>ch_id = fc, ch_username = ascii_lower username, ch_display_name = None\<rparr>]\<rparr>"
    have "s \<in> set (subscriptions d) \<Longrightarrow> sub_channel s \<noteq> fc"
      using ok fresh by (auto simp: subscriptions_ok_def)
    then show ?thesis by (auto simp: d1 followed_def)
  qed simp
  then have same: "followed owner username d1 = followed owner username d" by (simp add: fun_eq_iff)
  from c have "c \<in> set (channels d1)" and "ch_username c = ascii_lower username"
    by (auto dest: select_one_Some)
  with that [OF run c _ _ subs ok1 same] show thesis by blast
qed

lemma set_subscription_run:
  assumes "insert_channel fc (ascii_lower username) d = Inr ((), d1)"
    and "select_one (\<lambda>c. ch_username c = ascii_lower username) (channels d1) = Some c"
  shows "set_subscription fs fc owner username enabled t d
           = desire_subscription fs (ch_id c) owner enabled t d1"
  using assms by (simp add: set_subscription_def)

lemma set_subscription_raised:
  assumes ok: "subscriptions_ok d" and "fs \<notin> sub_id ` set (subscriptions d)" and "fc \<notin> ch_id ` set (channels d)"
  shows "set_subscription fs fc owner username enabled t d = Inl Raised_P0001
           \<longleftrightarrow> enabled \<and> active_count owner d = 20
              \<and> (\<forall>s. followed owner username d s \<longrightarrow> \<not> sub_enabled s)"
proof -
  obtain d1 and c :: channel where run: "insert_channel fc (ascii_lower username) d = Inr ((), d1)"
    "select_one (\<lambda>c. ch_username c = ascii_lower username) (channels d1) = Some c"
    and c: "c \<in> set (channels d1)" "ch_username c = ascii_lower username"
    and subs: "subscriptions d1 = subscriptions d" and ok1: "subscriptions_ok d1"
    and same: "followed owner username d1 = followed owner username d"
    by (rule insert_channel_run [OF assms(1,3), of username owner])
  have sel: "select_one (subscription_for owner (ch_id c)) (subscriptions d) = Some s
      \<longleftrightarrow> followed owner username d s" for s
    using followed_selected [OF ok1 c, of owner s] by (simp add: same subs)
  have count: "active_count owner d1 = active_count owner d" by (simp add: active_count_def subs)
  have "active_count owner d \<le> 20" using ok by (simp add: subscriptions_ok_def active_limit_def)
  then have limit: "active_count owner d \<ge> active_limit \<longleftrightarrow> active_count owner d = 20"
    by (auto simp: active_limit_def)
  show ?thesis
  proof (cases "select_one (subscription_for owner (ch_id c)) (subscriptions d)")
    case None
    then have "\<not> followed owner username d s" for s using sel [of s] by simp
    with None assms(2) limit show ?thesis
      by (auto simp: set_subscription_run [OF run] desire_subscription_def subs count)
  next
    case (Some s)
    then have s: "followed owner username d s" by (simp add: sel)
    then have "followed owner username d q \<longleftrightarrow> q = s" for q
      using ok followed_unique by blast
    then show ?thesis
      using Some limit
      by (simp add: set_subscription_run [OF run] desire_subscription_def subs count) blast
  qed
qed

text \<open>
  A call is refused by the limit exactly when it would activate a twenty-first channel of its
  owner; a channel that is already active never counts twice, and a deactivation is never refused.
\<close>

theorem subscription_limit_exact:
  assumes ok: "subscriptions_ok d" and "fs \<notin> sub_id ` set (subscriptions d)" and "fc \<notin> ch_id ` set (channels d)"
  shows "set_subscription fs fc owner username enabled t d = Inl Raised_P0001
           \<longleftrightarrow> enabled \<and> active_count owner d = 20
              \<and> (\<forall>s. followed owner username d s \<longrightarrow> \<not> sub_enabled s)"
  using assms by (rule set_subscription_raised)

text \<open>An owner with twenty active channels, on which the limit is met.\<close>

definition full_owner :: db where
  "full_owner = empty_db
     \<lparr>channels := map (\<lambda>i. \<lparr>ch_id = of_nat i, ch_username = ''channel'' @ nat_text i,
        ch_display_name = None\<rparr>) [0..<20],
      subscriptions := map (\<lambda>i. \<lparr>sub_id = of_nat i, sub_owner = 7, sub_channel = of_nat i,
        sub_first_activated = 0, sub_enabled = True, sub_updated = 0\<rparr>) [0..<20]\<rparr>"

lemma full_owner_ok: "subscriptions_ok full_owner"
proof -
  have "active_count owner full_owner \<le> active_limit" for owner
  proof -
    have "active_count owner full_owner \<le> length (subscriptions full_owner)"
      by (simp add: active_count_def count_where_def)
    also have "\<dots> = 20" by (simp add: full_owner_def)
    finally show ?thesis by (simp add: active_limit_def)
  qed
  moreover have "unique_by ch_username (channels full_owner)" and "unique_by ch_id (channels full_owner)"
    and "unique_by sub_id (subscriptions full_owner)"
    and "unique_by (\<lambda>s. (sub_owner s, sub_channel s)) (subscriptions full_owner)"
    and "sub_channel ` set (subscriptions full_owner) \<subseteq> ch_id ` set (channels full_owner)"
    by code_simp+
  ultimately show ?thesis by (simp add: subscriptions_ok_def)
qed

theorem subscription_limit_exact_witness:
  "set_subscription 100 100 7 ''RustLang'' True 5 full_owner = Inl Raised_P0001"
proof -
  have "active_count 7 full_owner = 20" by code_simp
  moreover have "''rustlang'' \<notin> ch_username ` set (channels full_owner)"
    and "ascii_lower ''RustLang'' = ''rustlang''" by code_simp+
  ultimately have full: "active_count 7 full_owner = 20
      \<and> (\<forall>s. followed 7 ''RustLang'' full_owner s \<longrightarrow> \<not> sub_enabled s)"
    by (auto simp: followed_def list_ex_iff rev_image_eqI)
  have "(100 :: uuid) \<notin> sub_id ` set (subscriptions full_owner)"
    and "(100 :: uuid) \<notin> ch_id ` set (channels full_owner)" by code_simp+
  from subscription_limit_exact [OF full_owner_ok this, of 7 "''RustLang''" True 5] full
  show ?thesis by blast
qed

text \<open>
  After a call that is not refused, the owner follows exactly one row for the channel, in the
  desired state; a row that was there keeps its identity and its first activation, and no other
  row changes.
\<close>

theorem subscription_converges:
  assumes ok: "subscriptions_ok d"
    and run: "set_subscription fs fc owner username enabled t d = Inr ((i, first, on), d')"
  shows "on = enabled
     \<and> (\<exists>s. followed owner username d' s \<and> sub_id s = i \<and> sub_first_activated s = first
           \<and> sub_enabled s = enabled \<and> (\<forall>q. followed owner username d' q \<longrightarrow> q = s))
     \<and> (\<forall>s. followed owner username d s \<longrightarrow> sub_id s = i \<and> sub_first_activated s = first)
     \<and> (\<forall>s. sub_id s \<noteq> i \<longrightarrow> (s \<in> set (subscriptions d') \<longleftrightarrow> s \<in> set (subscriptions d)))"
proof -
  from run obtain u d1 and c :: channel where one: "insert_channel fc (ascii_lower username) d = Inr (u, d1)"
    and found: "select_one (\<lambda>c. ch_username c = ascii_lower username) (channels d1) = Some c"
    and two: "desire_subscription fs (ch_id c) owner enabled t d1 = Inr ((i, first, on), d')"
    by (rule set_subscription_steps)
  have ok': "subscriptions_ok d'" using ok run by (rule set_subscription_ok)
  have subs: "subscriptions d1 = subscriptions d" and ok1: "subscriptions_ok d1"
    using one by (rule insert_channel_cases, use ok in \<open>auto simp: subscriptions_ok_def active_count_def\<close>)+
  from found have c: "c \<in> set (channels d1)" "ch_username c = ascii_lower username"
    by (auto dest: select_one_Some)
  have before: "followed owner username d s \<Longrightarrow> followed owner username d1 s" for s
    using one by (rule insert_channel_cases) (auto simp: followed_def)
  note sel = followed_selected [OF ok1 c, of owner]
  from two show ?thesis
  proof (cases rule: desire_subscription_cases)
    case (converged s)
    then have s: "followed owner username d1 s" using sel by blast
    then have member: "s \<in> set (subscriptions d1)" by (simp add: followed_def)
    let ?s = "s\<lparr>sub_enabled := enabled, sub_updated := t\<rparr>"
    have rows: "set (subscriptions d') = insert ?s (set (subscriptions d1) - {s})"
    proof -
      have unique: "unique_by sub_id (subscriptions d1)" using ok1 by (simp add: subscriptions_ok_def)
      obtain xs ys where split: "subscriptions d1 = xs @ s # ys" and "subscriptions d' = xs @ ?s # ys"
        using update_where_key_split [OF unique member, of "\<lambda>q. sub_id q = sub_id s"
            "\<lambda>q. q\<lparr>sub_enabled := enabled, sub_updated := t\<rparr>"] converged(4)
        by auto
      moreover have "s \<notin> set xs \<union> set ys"
        using unique_by_distinct [OF unique] split by auto
      ultimately show ?thesis by auto
    qed
    have chans: "channels d' = channels d1" by (simp add: converged(4))
    have new: "followed owner username d' ?s"
      using s by (auto simp: followed_def rows chans)
    have i: "i = sub_id s" "first = sub_first_activated s" "on = enabled" using converged(3) by simp_all
    show ?thesis
    proof (intro conjI exI [of _ ?s] allI impI)
      fix q :: subscription_row assume "followed owner username d q"
      then have "q = s" using before followed_unique [OF ok1] s by blast
      then show "sub_id q = i" and "sub_first_activated q = first" by (simp_all add: i)
    next
      fix q :: subscription_row assume "sub_id q \<noteq> i"
      then show "q \<in> set (subscriptions d') \<longleftrightarrow> q \<in> set (subscriptions d)"
        by (auto simp: rows subs i)
    qed (use new followed_unique [OF ok'] i in \<open>auto\<close>)
  next
    case created
    let ?s = "\<lparr>sub_id = fs, sub_owner = owner, sub_channel = ch_id c,
               sub_first_activated = t, sub_enabled = enabled, sub_updated = t\<rparr>"
    have new: "followed owner username d' ?s"
      using c by (auto simp: created(5) followed_def list_ex_iff)
    have "\<not> followed owner username d q" for q
      using before [of q] sel [of q] created(1) by auto
    with new followed_unique [OF ok'] created(4) show ?thesis
      by (auto simp: created(5) subs)
  qed
qed

theorem subscription_converges_witness:
  "\<exists>d'. set_subscription 100 100 7 ''Channel3'' False 5 full_owner = Inr ((3, 0, False), d')
     \<and> (\<exists>s. followed 7 ''Channel3'' d' s \<and> sub_id s = 3 \<and> \<not> sub_enabled s)"
proof -
  have "case set_subscription 100 100 7 ''Channel3'' False 5 full_owner of
      Inl e \<Rightarrow> False | Inr (v, d') \<Rightarrow> v = (3, 0, False)"
    by code_simp
  then obtain d' where run: "set_subscription 100 100 7 ''Channel3'' False 5 full_owner
      = Inr ((3, 0, False), d')"
    by (auto split: sum.splits prod.splits)
  from subscription_converges [OF full_owner_ok this] run show ?thesis by blast
qed

end
