(* ===== verification/Runs.thy ===== *)
theory Runs
  imports Demo
begin

text \<open>
  \<open>src/runs.rs\<close> with the functions \<open>normalized_window\<close>, \<open>create_digest_run\<close> and \<open>transition_run\<close>
  of \<open>src/schema.sql\<close>: the natural key of a run, its window and its expected-state transitions.
\<close>

section \<open>The window of a run\<close>

definition days :: "int \<Rightarrow> int" where
  "days n = seconds (86400 * n)"

definition normalized_window ::
  "bool \<Rightarrow> instant \<Rightarrow> instant option \<Rightarrow> instant \<Rightarrow> instant \<times> instant" where
  "normalized_window scheduled activation prior due =
     (max activation
        (if scheduled
         then max (case prior of None \<Rightarrow> due - days 7 | Some p \<Rightarrow> p) (due - days 7)
         else due - days 1), due)"

lemma normalized_window_bounds:
  assumes "activation < due"
  shows "fst (normalized_window scheduled activation prior due) \<ge> activation"
    and "fst (normalized_window scheduled activation prior due) \<ge> due - days 7"
    and "snd (normalized_window scheduled activation prior due) = due"
    and "(\<And>p. prior = Some p \<Longrightarrow> p < due)
          \<Longrightarrow> fst (normalized_window scheduled activation prior due) < due"
  using assms by (auto simp: normalized_window_def days_def max_def split: option.split)

section \<open>Creating and moving a run\<close>

definition new_run ::
  "instant \<Rightarrow> uuid \<Rightarrow> uuid \<Rightarrow> uuid \<Rightarrow> run_trigger \<Rightarrow> string \<Rightarrow> instant \<Rightarrow> instant \<Rightarrow> run_row" where
  "new_run now run owner operation trigger key start end =
     \<lparr>run_id = run, run_owner = owner, run_operation = operation, run_trigger = trigger,
      run_key = key, run_start = start, run_end = end, run_language = Ru, run_state = Accepted,
      run_failure = None, run_incomplete = False, run_created = now, run_updated = now\<rparr>"

definition create_digest_run ::
  "instant \<Rightarrow> uuid \<Rightarrow> uuid \<Rightarrow> uuid \<Rightarrow> run_trigger \<Rightarrow> string \<Rightarrow> instant \<Rightarrow> instant
     \<Rightarrow> (db, uuid) statement" where
  "create_digest_run now run owner operation trigger key start end d =
     (let r = new_run now run owner operation trigger key start end
      in case insert_run r d of
           Inl e \<Rightarrow> Inl e
         | Inr (True, d') \<Rightarrow> Inr (run, d')
         | Inr (False, d') \<Rightarrow>
             (case select_one (\<lambda>q. natural_key q = natural_key r) (runs d') of
                None \<Rightarrow> Inl Violation
              | Some q \<Rightarrow> Inr (run_id q, d')))"

definition transition_run ::
  "instant \<Rightarrow> uuid \<Rightarrow> run_state \<Rightarrow> run_state \<Rightarrow> string option \<Rightarrow> (db, bool) statement" where
  "transition_run now run expected target failure d =
     (case update_runs (\<lambda>r. run_id r = run \<and> run_state r = expected \<and> \<not> terminal (run_state r))
             (\<lambda>r. r\<lparr>run_state := target, run_failure := failure, run_updated := now\<rparr>) d of
        Inl e \<Rightarrow> Inl e
      | Inr (changed, d') \<Rightarrow> Inr (0 < changed, d'))"

text \<open>The repository: one pooled statement each, and one error.\<close>

definition run_create ::
  "externals \<Rightarrow> instant \<Rightarrow> uuid \<Rightarrow> uuid \<Rightarrow> uuid \<Rightarrow> run_trigger \<Rightarrow> string \<Rightarrow> string \<Rightarrow> string
     \<Rightarrow> (db, unit, uuid) io" where
  "run_create x now fresh owner operation trigger key start end =
     map_err (\<lambda>_. ()) (pooled (\<lambda>d.
       case (pg_parse x start, pg_parse x end) of
         (Some s, Some e) \<Rightarrow> create_digest_run now fresh owner operation trigger key s e d
       | _ \<Rightarrow> Inl Violation))"

definition run_transition ::
  "instant \<Rightarrow> uuid \<Rightarrow> run_state \<Rightarrow> run_state \<Rightarrow> string option \<Rightarrow> (db, unit, bool) io" where
  "run_transition now run expected target failure =
     map_err (\<lambda>_. ()) (pooled (transition_run now run expected target failure))"

section \<open>What the statements guarantee\<close>

text \<open>The primary and natural keys of the run table, and its check.\<close>

definition runs_ok :: "run_row list \<Rightarrow> bool" where
  "runs_ok rs \<longleftrightarrow> unique_by run_id rs \<and> unique_by natural_key rs
     \<and> list_all (\<lambda>r. run_start r < run_end r) rs"

lemma insert_run_cases:
  assumes "insert_run r d = Inr (b, d')"
  obtains (inserted) "b" and "d' = d\<lparr>runs := runs d @ [r]\<rparr>" and "run_start r < run_end r"
      and "natural_key r \<notin> natural_key ` set (runs d)" and "run_id r \<notin> run_id ` set (runs d)"
    | (known) "\<not> b" and "d' = d" and "run_start r < run_end r"
      and "natural_key r \<in> natural_key ` set (runs d)"
  using assms by (auto simp: insert_run_def split: if_splits)

lemma insert_run_ok: "runs_ok (runs d) \<Longrightarrow> insert_run r d = Inr (b, d') \<Longrightarrow> runs_ok (runs d')"
  by (erule insert_run_cases) (auto simp: runs_ok_def)

lemma create_digest_run_cases:
  assumes "create_digest_run now run owner operation trigger key start end d = Inr (i, d')"
  obtains (created) "i = run"
      and "d' = d\<lparr>runs := runs d @ [new_run now run owner operation trigger key start end]\<rparr>"
      and "run \<notin> run_id ` set (runs d)"
      and "natural_key (new_run now run owner operation trigger key start end)
             \<notin> natural_key ` set (runs d)" and "start < end"
    | (reused) r where "d' = d" and "r \<in> set (runs d)" and "run_id r = i"
      and "natural_key r = natural_key (new_run now run owner operation trigger key start end)"
proof -
  let ?r = "new_run now run owner operation trigger key start end"
  show thesis
  proof (cases "insert_run ?r d")
    case (Inl e)
    with assms show thesis by (simp add: create_digest_run_def)
  next
    case (Inr v)
    obtain b d1 where v: "v = (b, d1)" by force
    from Inr v have "insert_run ?r d = Inr (b, d1)" by simp
    then show thesis
    proof (cases rule: insert_run_cases)
      case inserted
      with assms Inr v show thesis
        by (intro created) (auto simp: create_digest_run_def new_run_def)
    next
      case known
      then obtain q where q: "select_one (\<lambda>q. natural_key q = natural_key ?r) (runs d) = Some q"
        by (cases "select_one (\<lambda>q. natural_key q = natural_key ?r) (runs d)")
          (auto simp: select_one_None)
      with known assms Inr v have "i = run_id q" and "d' = d"
        by (simp_all add: create_digest_run_def Let_def)
      with q show thesis by (auto dest!: select_one_Some intro: reused)
    qed
  qed
qed

text \<open>An update of states and flags keeps the keys.\<close>

definition keeps_keys :: "(run_row \<Rightarrow> run_row) \<Rightarrow> bool" where
  "keeps_keys f \<longleftrightarrow> (\<forall>r. run_id (f r) = run_id r \<and> natural_key (f r) = natural_key r
     \<and> run_operation (f r) = run_operation r)"

lemma update_runs_ok:
  assumes "runs_ok rs" and "keeps_keys f"
  shows "runs_ok (update_where p f rs)"
proof -
  have same: "map k (update_where p f rs) = map k rs" if "\<And>r. k (f r) = k r"
    for k :: "run_row \<Rightarrow> 'k"
    using that by (rule map_update_where)
  have "run_start (f r) < run_end (f r) \<longleftrightarrow> run_start r < run_end r" for r
    using assms(2) by (simp add: keeps_keys_def natural_key_def)
  with assms show ?thesis
    by (auto simp: runs_ok_def same keeps_keys_def list_all_iff set_update_where)
qed

lemma update_runs_Inr: "update_runs p f d = Inr (n, d') \<longleftrightarrow>
    n = count_where p (runs d) \<and> d' = d\<lparr>runs := update_where p f (runs d)\<rparr>"
  by (auto simp: update_runs_def)

lemma transition_run_Inr:
  "transition_run now run expected target failure d = Inr (b, d') \<longleftrightarrow>
     (let p = \<lambda>r. run_id r = run \<and> run_state r = expected \<and> \<not> terminal (run_state r)
      in b = (0 < count_where p (runs d))
         \<and> d' = d\<lparr>runs := update_where p
             (\<lambda>r. r\<lparr>run_state := target, run_failure := failure, run_updated := now\<rparr>) (runs d)\<rparr>)"
  by (auto simp: transition_run_def update_runs_def Let_def)

section \<open>The natural key and the expected state\<close>

lemma select_natural_key:
  assumes "unique_by natural_key rs" and "q \<in> set rs" and "natural_key q = k"
  shows "select_one (\<lambda>r. natural_key r = k) rs = Some q"
  by (rule select_one_key [OF assms(1,2)]) (simp_all add: assms(3))

lemma create_digest_run_known:
  assumes "unique_by natural_key (runs d)" and "q \<in> set (runs d)" and "start < end"
    and "natural_key q = natural_key (new_run now run owner operation trigger key start end)"
  shows "create_digest_run now run owner operation trigger key start end d = Inr (run_id q, d)"
proof -
  let ?r = "new_run now run owner operation trigger key start end"
  have "natural_key ?r \<in> natural_key ` set (runs d)" using assms(2,4) by (metis image_eqI)
  then have "insert_run ?r d = Inr (False, d)" using assms(3) by (simp add: insert_run_def new_run_def)
  moreover have "select_one (\<lambda>r. natural_key r = natural_key ?r) (runs d) = Some q"
    using assms by (intro select_natural_key) simp_all
  ultimately show ?thesis by (simp add: create_digest_run_def Let_def)
qed

text \<open>
  Creating a run is idempotent in its natural key. Whatever a first call answered, any later
  call with the same owner, trigger, key and window, under another identity, operation and clock,
  answers the identity of the one run that holds the key and changes nothing.
\<close>

theorem create_run_idempotent:
  assumes ok: "runs_ok (runs d)"
    and first: "create_digest_run now run owner operation trigger key start end d = Inr (i, d')"
  shows "runs_ok (runs d')
     \<and> (\<exists>r \<in> set (runs d'). run_id r = i \<and> natural_key r = (owner, trigger, key, start, end)
           \<and> (\<forall>q \<in> set (runs d'). natural_key q = natural_key r \<longrightarrow> q = r))
     \<and> create_digest_run now' run' owner operation' trigger key start end d' = Inr (i, d')"
proof -
  let ?r = "new_run now run owner operation trigger key start end"
  from first have ok': "runs_ok (runs d')"
    by (cases rule: create_digest_run_cases) (use ok in \<open>auto simp: runs_ok_def new_run_def\<close>)
  have key: "natural_key (new_run n i' owner o' trigger key start end) = (owner, trigger, key, start, end)"
    for n i' o' by (simp add: natural_key_def new_run_def)
  from first obtain r where r: "r \<in> set (runs d')" "run_id r = i" "natural_key r = natural_key ?r"
  proof (cases rule: create_digest_run_cases)
    case created
    with that [of ?r] show thesis by (simp add: new_run_def)
  next
    case (reused q)
    with that [of q] show thesis by simp
  qed
  then have "start < end"
    using ok' key [of now run operation] by (auto simp: runs_ok_def list_all_iff natural_key_def)
  moreover have "unique_by natural_key (runs d')" using ok' by (simp add: runs_ok_def)
  ultimately show ?thesis
    using ok' r key create_digest_run_known [of d' r start "end" now' run' owner operation' trigger key]
    by (auto dest: unique_byD)
qed

theorem create_run_idempotent_witness:
  "\<exists>d'. create_digest_run 1 5 7 70 Scheduled ''k'' 100 200 empty_db = Inr (5, d')
     \<and> create_digest_run 2 6 7 71 Scheduled ''k'' 100 200 d' = Inr (5, d')"
proof -
  have ok: "runs_ok (runs empty_db)" by (simp add: runs_ok_def empty_db_def)
  obtain d' where run: "create_digest_run 1 5 7 70 Scheduled ''k'' 100 200 empty_db = Inr (5, d')"
    by (simp add: create_digest_run_def insert_run_def new_run_def empty_db_def)
  from create_run_idempotent [OF ok run, of 2 6 71] run show ?thesis by blast
qed

text \<open>
  A transition is a compare-and-swap on one run. It takes place exactly when the run is in the
  expected, not terminal state; it leaves every other run and every terminal run as it was; and once
  it has moved the run out of the expected state, the same transition never takes place again.
\<close>

theorem transition_compare_and_swap:
  assumes ok: "runs_ok (runs d)"
    and run: "transition_run now run expected target failure d = Inr (moved, d')"
  shows "(moved \<longleftrightarrow> \<not> terminal expected
           \<and> list_ex (\<lambda>r. run_id r = run \<and> run_state r = expected) (runs d))
     \<and> (\<forall>r \<in> set (runs d). terminal (run_state r) \<or> run_id r \<noteq> run \<longrightarrow> r \<in> set (runs d'))
     \<and> (moved \<longrightarrow> list_ex (\<lambda>r. run_id r = run \<and> run_state r = target \<and> run_failure r = failure) (runs d'))
     \<and> (expected \<noteq> target \<longrightarrow> transition_run now' run expected target failure' d' = Inr (False, d'))"
proof -
  let ?p = "\<lambda>r. run_id r = run \<and> run_state r = expected \<and> \<not> terminal (run_state r)"
  let ?f = "\<lambda>r. r\<lparr>run_state := target, run_failure := failure, run_updated := now\<rparr>"
  have moved: "moved \<longleftrightarrow> 0 < count_where ?p (runs d)"
    and d': "d' = d\<lparr>runs := update_where ?p ?f (runs d)\<rparr>"
    using run by (auto simp: transition_run_def update_runs_def)
  have found: "0 < count_where ?p (runs d) \<longleftrightarrow> (\<exists>r \<in> set (runs d). ?p r)"
    using count_where_0 [of ?p "runs d"] by auto
  have "transition_run now' run expected target failure' d' = Inr (False, d')" if "expected \<noteq> target"
  proof -
    let ?g = "\<lambda>r. r\<lparr>run_state := target, run_failure := failure', run_updated := now'\<rparr>"
    have none: "\<not> ?p r" if r: "r \<in> set (runs d')" for r
    proof -
      from r have "r \<in> set (update_where ?p ?f (runs d))" by (simp add: d')
      then show ?thesis by (rule in_update_whereE) (use \<open>expected \<noteq> target\<close> in auto)
    qed
    then have "count_where ?p (runs d') = 0" by (simp only: count_where_0) blast
    moreover from none have "update_where ?p ?g (runs d') = runs d'" by (rule update_where_none)
    ultimately show ?thesis by (simp add: transition_run_def update_runs_def)
  qed
  note again = this
  have kept: "r \<in> set (runs d')" if "r \<in> set (runs d)" "\<not> ?p r" for r
    using that by (simp add: d' set_update_where)
  have "\<exists>r \<in> set (runs d'). run_id r = run \<and> run_state r = target \<and> run_failure r = failure"
    if moved
  proof -
    from that obtain r where r: "r \<in> set (runs d)" "?p r" by (auto simp: moved found)
    then have "?f r \<in> set (runs d')" by (auto simp: d' set_update_where)
    with r(2) show ?thesis by (intro bexI [of _ "?f r"]) simp_all
  qed
  then have arrived: "moved \<longrightarrow> list_ex (\<lambda>r. run_id r = run \<and> run_state r = target
      \<and> run_failure r = failure) (runs d')" by (simp add: list_ex_iff)
  have "moved \<longleftrightarrow> \<not> terminal expected
      \<and> list_ex (\<lambda>r. run_id r = run \<and> run_state r = expected) (runs d)"
    unfolding moved found list_ex_iff by blast
  with again kept arrived show ?thesis by blast
qed

theorem transition_compare_and_swap_witness:
  "let d = empty_db\<lparr>runs := [new_run 1 5 7 70 Scheduled ''k'' 100 200]\<rparr>
   in (case transition_run 2 5 Accepted Acquiring None d of
         Inl e \<Rightarrow> False
       | Inr (moved, d') \<Rightarrow> moved \<and> transition_run 3 5 Accepted Acquiring None d' = Inr (False, d'))"
proof -
  let ?d = "empty_db\<lparr>runs := [new_run 1 5 7 70 Scheduled ''k'' 100 200]\<rparr>"
  have ok: "runs_ok (runs ?d)" by (simp add: runs_ok_def new_run_def)
  obtain d' where run: "transition_run 2 5 Accepted Acquiring None ?d = Inr (True, d')"
    by (simp add: transition_run_def update_runs_def count_where_def new_run_def)
  from transition_compare_and_swap [OF ok run, of 3 None] run show ?thesis by (simp add: Let_def)
qed

end
