(* ===== verification/Intake.thy ===== *)
theory Intake
  imports Reports Subscriptions Runs
begin

text \<open>
  \<open>src/intake.rs\<close>: the transactions that accept or refuse a command. A command leaves one inbox
  row, its effect and its report together, or nothing.
\<close>

section \<open>Vocabulary\<close>

definition subscription_subject :: string where
  "subscription_subject = ''channel_digest.subscription.set_requested.v1''"

definition run_subject :: string where
  "run_subject = ''channel_digest.run.requested.v1''"

datatype intake_outcome = Applied | Replayed

datatype intake_error = Intake_Invalid | Intake_Storage

fun intake_of_report :: "report_error \<Rightarrow> intake_error" where
  "intake_of_report Report_Invalid = Intake_Invalid"
| "intake_of_report Report_Storage = Intake_Storage"

datatype command_kind = Subscription_Command | Run_Command

fun kind_subject :: "command_kind \<Rightarrow> string" where
  "kind_subject Subscription_Command = subscription_subject"
| "kind_subject Run_Command = run_subject"

datatype rejection_reason = Subscription_Limit_Reached | Command_Invalid

fun reason_class :: "rejection_reason \<Rightarrow> string" where
  "reason_class Subscription_Limit_Reached = ''subscription_limit''"
| "reason_class Command_Invalid = ''command_invalid''"

fun reason_code :: "rejection_reason \<Rightarrow> string" where
  "reason_code Subscription_Limit_Reached = ''channel_digest.subscription_limit_reached''"
| "reason_code Command_Invalid = ''channel_digest.command_invalid''"

fun reason_message :: "rejection_reason \<Rightarrow> string" where
  "reason_message Subscription_Limit_Reached = ''At most 20 channels can be active at the same time.''"
| "reason_message Command_Invalid = ''The command was rejected because it is not valid.''"

record rejection =
  rj_message :: uuid
  rj_subject :: string
  rj_key :: string
  rj_sha256 :: string
  rj_operation :: uuid
  rj_owner :: uuid
  rj_reason :: rejection_reason

text \<open>
  The clock of the (first) transaction of a call, that of the one it may hand over to, and the
  fresh identities the call draws; of the two transactions that draw one for a report, one
  rolls back.
\<close>

record circumstances =
  at :: instant
  later :: instant
  fresh_report :: uuid
  fresh_subscription :: uuid
  fresh_channel :: uuid

section \<open>Refusing a command\<close>

definition storage :: "(db, db_error, 'a) io \<Rightarrow> (db, intake_error, 'a) io" where
  "storage = map_err (\<lambda>_. Intake_Storage)"

definition open_inbox :: "uuid \<Rightarrow> string \<Rightarrow> string \<Rightarrow> string \<Rightarrow> inbox_row" where
  "open_inbox message subject key hash =
     \<lparr>in_id = message, in_subject = subject, in_key = key, in_sha256 = hash,
      in_state = Inbox_Processing, in_completed = None, in_failure = None\<rparr>"

definition failed_inbox :: "instant \<Rightarrow> rejection \<Rightarrow> inbox_row" where
  "failed_inbox now r =
     \<lparr>in_id = rj_message r, in_subject = rj_subject r, in_key = rj_key r, in_sha256 = rj_sha256 r,
      in_state = Inbox_Failed, in_completed = Some now, in_failure = Some (reason_class (rj_reason r))\<rparr>"

definition command_reference :: "uuid \<Rightarrow> string" where
  "command_reference message = ''command:'' @ uuid_text message"

definition rejection_report :: "externals \<Rightarrow> rejection \<Rightarrow> report_error + report_row" where
  "rejection_report x r =
     and_then (new_report x (rj_operation r) (rj_owner r) Op_Failed ''rejected'') (\<lambda>row.
     with_error x (reason_code (rj_reason r)) (reason_message (rj_reason r)) False
       (caused_by (command_reference (rj_message r)) row))"

definition reject_body ::
  "externals \<Rightarrow> circumstances \<Rightarrow> rejection \<Rightarrow> (db, intake_error, intake_outcome tx_end) io" where
  "reject_body x c r =
     bind_io (storage (stmt (insert_inbox (failed_inbox (at c) r)))) (\<lambda>inserted.
     if \<not> inserted then ret (Rollback Replayed)
     else bind_io (map_err intake_of_report (from_result (rejection_report x r))) (\<lambda>row.
       bind_io (map_err intake_of_report (enqueue x (at c) (fresh_report c) row)) (\<lambda>_.
       ret (Commit Applied))))"

definition reject ::
  "externals \<Rightarrow> circumstances \<Rightarrow> rejection \<Rightarrow> (db, intake_error, intake_outcome) io" where
  "reject x c r = transaction Intake_Storage (reject_body x c r)"

text \<open>\<open>reject_unreadable\<close>: a payload that did not decode is refused when it is attributable.\<close>

definition reject_unreadable ::
  "externals \<Rightarrow> circumstances \<Rightarrow> uuid \<Rightarrow> command_kind \<Rightarrow> string \<Rightarrow> (string \<times> json) list
     \<Rightarrow> (db, intake_error, intake_outcome) io" where
  "reject_unreadable x c message kind tenant payload =
     bind_io (ok_or Intake_Invalid
       (Option.bind (map_of payload ''operation_id'') (value_operation x))) (\<lambda>operation.
     bind_io (ok_or Intake_Invalid
       (Option.bind (map_of payload ''owner'') (value_tenant x))) (\<lambda>owner.
     bind_io (guard Intake_Invalid (owner = tenant)) (\<lambda>_.
     reject x c
       \<lparr>rj_message = message, rj_subject = kind_subject kind,
        rj_key = ''invalid:'' @ uuid_text message,
        rj_sha256 = sha256 x (encode_object x payload), rj_operation = operation,
        rj_owner = tenant_user x owner, rj_reason = Command_Invalid\<rparr>)))"

section \<open>Subscription commands\<close>

definition subscription_rejection ::
  "externals \<Rightarrow> uuid \<Rightarrow> string \<Rightarrow> subscription_command \<Rightarrow> rejection_reason \<Rightarrow> rejection" where
  "subscription_rejection x message payload command reason =
     \<lparr>rj_message = message, rj_subject = subscription_subject, rj_key = sc_key command,
      rj_sha256 = sha256 x payload, rj_operation = sc_operation command,
      rj_owner = sc_owner command, rj_reason = reason\<rparr>"

text \<open>
  The first transaction: it settles the command (\<open>Inl\<close>), or rolls back and hands a refusal by
  the limit over (\<open>Inr\<close>).
\<close>

definition subscription_body ::
  "externals \<Rightarrow> circumstances \<Rightarrow> uuid \<Rightarrow> string \<Rightarrow> subscription_command
     \<Rightarrow> (db, intake_error, (intake_outcome + rejection) tx_end) io" where
  "subscription_body x c message payload command =
     bind_io (storage (stmt (insert_inbox
       (open_inbox message subscription_subject (sc_key command) (sha256 x payload))))) (\<lambda>inserted.
     if \<not> inserted then ret (Rollback (Inl Replayed))
     else bind_io (storage (catch_raised (stmt
         (set_subscription (fresh_subscription c) (fresh_channel c) (sc_owner command)
           (sc_username command) (sc_active command) (at c))))) (\<lambda>applied.
       case applied of
         None \<Rightarrow> ret (Rollback (Inr
             (subscription_rejection x message payload command Subscription_Limit_Reached)))
       | Some _ \<Rightarrow>
           bind_io (map_err intake_of_report (from_result
             (new_report x (sc_operation command) (sc_owner command) Op_Succeeded ''applied''))) (\<lambda>row.
           bind_io (map_err intake_of_report (enqueue x (at c) (fresh_report c)
             (caused_by (command_reference message) row))) (\<lambda>_.
           bind_io (storage (stmt (complete_inbox (at c) message))) (\<lambda>_.
           ret (Commit (Inl Applied)))))))"

definition accept_subscription ::
  "externals \<Rightarrow> circumstances \<Rightarrow> uuid \<Rightarrow> string \<Rightarrow> (db, intake_error, intake_outcome) io" where
  "accept_subscription x c message payload =
     bind_io (ok_or Intake_Invalid (decode_subscription x payload)) (\<lambda>command.
     if \<not> valid_subscription x command
     then reject x c (subscription_rejection x message payload command Command_Invalid)
     else or_else
       (transaction Intake_Storage (subscription_body x c message payload command))
       (reject x (c\<lparr>at := later c\<rparr>)))"

section \<open>Run commands\<close>

definition run_rejection :: "externals \<Rightarrow> uuid \<Rightarrow> string \<Rightarrow> run_command \<Rightarrow> rejection" where
  "run_rejection x message payload command =
     \<lparr>rj_message = message, rj_subject = run_subject, rj_key = rc_key command,
      rj_sha256 = sha256 x payload, rj_operation = rc_operation command,
      rj_owner = rc_owner command, rj_reason = Command_Invalid\<rparr>"

definition cast_window :: "externals \<Rightarrow> run_command \<Rightarrow> (instant \<times> instant) option" where
  "cast_window x command =
     (case (pg_parse x (wire_text x (rc_start command)), pg_parse x (wire_text x (rc_end command))) of
        (Some s, Some e) \<Rightarrow> Some (s, e)
      | _ \<Rightarrow> None)"

definition create_commanded_run ::
  "externals \<Rightarrow> instant \<Rightarrow> run_command \<Rightarrow> (db, uuid) statement" where
  "create_commanded_run x now command d =
     (case cast_window x command of
        None \<Rightarrow> Inl Violation
      | Some (s, e) \<Rightarrow>
          create_digest_run now (rc_run command) (rc_owner command) (rc_operation command)
            (if rc_on_demand command then On_Demand else Scheduled) (rc_key command) s e d)"

definition set_language :: "uuid \<Rightarrow> uuid \<Rightarrow> language \<Rightarrow> (db, nat) statement" where
  "set_language run owner language =
     update_runs (\<lambda>r. run_id r = run \<and> run_owner r = owner) (\<lambda>r. r\<lparr>run_language := language\<rparr>)"

definition queue_started ::
  "externals \<Rightarrow> circumstances \<Rightarrow> uuid \<Rightarrow> run_command \<Rightarrow> (db, intake_error, unit) io" where
  "queue_started x c message command =
     (if rc_on_demand command
      then bind_io (map_err intake_of_report (from_result
             (new_report x (rc_operation command) (rc_owner command) Op_Queued
               ''awaiting_acquisition''))) (\<lambda>row.
           map_err intake_of_report (enqueue x (at c) (fresh_report c)
             (caused_by (command_reference message) row)))
      else ret ())"

definition run_body ::
  "externals \<Rightarrow> circumstances \<Rightarrow> uuid \<Rightarrow> string \<Rightarrow> run_command
     \<Rightarrow> (db, intake_error, (intake_outcome + rejection) tx_end) io" where
  "run_body x c message payload command =
     bind_io (storage (stmt (insert_inbox
       (open_inbox message run_subject (rc_key command) (sha256 x payload))))) (\<lambda>inserted.
     if \<not> inserted then ret (Rollback (Inl Replayed))
     else bind_io (storage (stmt (create_commanded_run x (at c) command))) (\<lambda>selected.
       if selected \<noteq> rc_run command
       then ret (Rollback (Inr (run_rejection x message payload command)))
       else bind_io (storage (stmt
           (set_language (rc_run command) (rc_owner command) (rc_language command)))) (\<lambda>_.
         bind_io (queue_started x c message command) (\<lambda>_.
         bind_io (storage (stmt (complete_inbox (at c) message))) (\<lambda>_.
         ret (Commit (Inl Applied)))))))"

definition accept_run ::
  "externals \<Rightarrow> circumstances \<Rightarrow> uuid \<Rightarrow> string \<Rightarrow> (db, intake_error, intake_outcome) io" where
  "accept_run x c message payload =
     bind_io (ok_or Intake_Invalid (decode_run x payload)) (\<lambda>command.
     if \<not> valid_run x command
     then reject x c (run_rejection x message payload command)
     else or_else
       (transaction Intake_Storage (run_body x c message payload command))
       (reject x (c\<lparr>at := later c\<rparr>)))"

section \<open>Atomicity\<close>

lemma steady_storage [steady_intros]: "steady m \<Longrightarrow> steady (storage m)"
  by (simp add: storage_def steady_map_err)

lemma wp_storage [wp_intros]: "wp m Q d \<Longrightarrow> wp (storage m) Q d"
  by (simp add: storage_def wp_map_err)

lemma steady_reject_body: "steady (reject_body x c r)"
  unfolding reject_body_def by (intro steady_intros)

lemma steady_subscription_body: "steady (subscription_body x c message payload command)"
  unfolding subscription_body_def by (intro steady_intros)

lemma steady_queue_started [steady_intros]: "steady (queue_started x c message command)"
  unfolding queue_started_def by (intro steady_intros)

lemma steady_run_body: "steady (run_body x c message payload command)"
  unfolding run_body_def by (intro steady_intros)

lemma crash_safe_reject [crash_intros]: "crash_safe (reject x c r)"
  unfolding reject_def by (intro crash_intros steady_reject_body)

text \<open>What a body may find and leave, statement by statement.\<close>

lemma wp_set_subscription:
  assumes "\<And>v cs ss. set_subscription fs fc owner username enabled now d
        = Inr (v, with_subscriptions cs ss d) \<Longrightarrow> Q (Some v) (with_subscriptions cs ss d)"
    and "set_subscription fs fc owner username enabled now d = Inl Raised_P0001 \<Longrightarrow> Q None d"
  shows "wp (catch_raised (stmt (set_subscription fs fc owner username enabled now))) Q d"
  by (rule wp_catch_stmt) (use assms set_subscription_frame in \<open>metis\<close>, use assms in simp)

lemma wp_create_commanded_run:
  assumes "\<And>s e. cast_window x command = Some (s, e)
      \<Longrightarrow> rc_run command \<notin> run_id ` set (runs d)
      \<Longrightarrow> natural_key (new_run now (rc_run command) (rc_owner command) (rc_operation command)
            (if rc_on_demand command then On_Demand else Scheduled) (rc_key command) s e)
          \<notin> natural_key ` set (runs d) \<Longrightarrow> s < e
      \<Longrightarrow> Q (rc_run command) (d\<lparr>runs := runs d @
            [new_run now (rc_run command) (rc_owner command) (rc_operation command)
               (if rc_on_demand command then On_Demand else Scheduled) (rc_key command) s e]\<rparr>)"
    and "\<And>r. r \<in> set (runs d) \<Longrightarrow> run_owner r = rc_owner command \<Longrightarrow> run_key r = rc_key command
      \<Longrightarrow> run_trigger r = (if rc_on_demand command then On_Demand else Scheduled) \<Longrightarrow> Q (run_id r) d"
  shows "wp (stmt (create_commanded_run x now command)) Q d"
proof (rule wp_stmt)
  fix v d'
  assume run: "create_commanded_run x now command d = Inr (v, d')"
  then obtain s e where window: "cast_window x command = Some (s, e)"
    by (auto simp: create_commanded_run_def split: option.splits)
  with run have "create_digest_run now (rc_run command) (rc_owner command) (rc_operation command)
      (if rc_on_demand command then On_Demand else Scheduled) (rc_key command) s e d = Inr (v, d')"
    by (simp add: create_commanded_run_def)
  then show "Q v d'"
  proof (cases rule: create_digest_run_cases)
    case created
    with assms(1) [OF window] show ?thesis by simp
  next
    case (reused r)
    with assms(2) [of r] show ?thesis by (simp add: natural_key_def new_run_def)
  qed
qed

lemma hands_over_subscription: "hands_over_undone (subscription_body x c message payload command)"
  unfolding subscription_body_def
  by (rule hands_over_undone_settles) (intro wp_intros wp_set_subscription; simp add: wp_intros)

lemma hands_over_run: "hands_over_undone (run_body x c message payload command)"
  unfolding run_body_def queue_started_def set_language_def
  by (rule hands_over_undone_settles) (intro wp_intros wp_create_commanded_run; simp add: wp_intros)

lemma crash_safe_reject_unreadable: "crash_safe (reject_unreadable x c message kind tenant payload)"
  unfolding reject_unreadable_def by (intro crash_intros)

lemma crash_safe_accept_subscription: "crash_safe (accept_subscription x c message payload)"
  unfolding accept_subscription_def
  by (intro crash_intros steady_subscription_body hands_over_subscription)

lemma crash_safe_accept_run: "crash_safe (accept_run x c message payload)"
  unfolding accept_run_def
  by (intro crash_intros steady_run_body hands_over_run)

section \<open>Replay\<close>

text \<open>The durable evidence that a command was handled: its message, or its key, is in the inbox.\<close>

definition subscription_handled :: "externals \<Rightarrow> uuid \<Rightarrow> string \<Rightarrow> db \<Rightarrow> bool" where
  "subscription_handled x message payload d \<longleftrightarrow>
     (case decode_subscription x payload of
        None \<Rightarrow> True
      | Some command \<Rightarrow> inbox_conflict message subscription_subject (sc_key command) d)"

definition run_handled :: "externals \<Rightarrow> uuid \<Rightarrow> string \<Rightarrow> db \<Rightarrow> bool" where
  "run_handled x message payload d \<longleftrightarrow>
     (case decode_run x payload of
        None \<Rightarrow> True
      | Some command \<Rightarrow> inbox_conflict message run_subject (rc_key command) d)"

definition rejection_recorded :: "rejection \<Rightarrow> db \<Rightarrow> bool" where
  "rejection_recorded r = inbox_conflict (rj_message r) (rj_subject r) (rj_key r)"

lemma inbox_rows_simps [simp]:
  "in_id (open_inbox m s k h) = m" "in_subject (open_inbox m s k h) = s"
  "in_key (open_inbox m s k h) = k"
  "in_id (failed_inbox now r) = rj_message r" "in_subject (failed_inbox now r) = rj_subject r"
  "in_key (failed_inbox now r) = rj_key r"
  by (simp_all add: open_inbox_def failed_inbox_def)

lemma inbox_conflict_put_once [simp]: "inbox_conflict m s k (put_once r d) = inbox_conflict m s k d"
  by (rule inbox_conflict_cong) simp

lemma inbox_conflict_subscriptions [simp]:
  "inbox_conflict m s k (with_subscriptions cs ss d) = inbox_conflict m s k d"
  by (rule inbox_conflict_cong) simp

lemma inbox_conflict_runs [simp]: "inbox_conflict m s k (d\<lparr>runs := rs\<rparr>) = inbox_conflict m s k d"
  by (rule inbox_conflict_cong) simp

lemma wp_reject_body:
  "wp (reject_body x c r) (\<lambda>t d'. committed t \<longrightarrow> rejection_recorded r d') d"
  unfolding reject_body_def rejection_recorded_def
  by (intro wp_intros; simp add: rejection_report_def report_builders)

lemma wp_reject_body_again:
  "rejection_recorded r d \<Longrightarrow> wp (reject_body x c r) (\<lambda>t d'. \<not> committed t) d"
  unfolding reject_body_def rejection_recorded_def by (intro wp_intros) simp_all

lemma reject_effect: "effect_of (reject x c r) d = d \<or> rejection_recorded r (effect_of (reject x c r) d)"
  unfolding reject_def by (rule effect_of_transaction) (rule wp_reject_body)

lemma reject_again: "rejection_recorded r d \<Longrightarrow> effect_of (reject x c r) d = d"
  unfolding reject_def by (rule effect_of_uncommitted) (rule wp_reject_body_again)

interpretation rejected: replay_guarded "\<lambda>c. reject x c r" "rejection_recorded r" for x r
  by unfold_locales (use reject_effect reject_again crash_safe_reject in blast)+

lemma wp_subscription_body:
  "wp (subscription_body x c message payload command)
     (settles (inbox_conflict message subscription_subject (sc_key command))
        (\<lambda>r. r = subscription_rejection x message payload command Subscription_Limit_Reached)) d"
  unfolding subscription_body_def
  by (intro wp_intros wp_set_subscription; simp add: report_builders)

lemma wp_subscription_body_again:
  "inbox_conflict message subscription_subject (sc_key command) d
     \<Longrightarrow> wp (subscription_body x c message payload command) (settles (\<lambda>_. False) (\<lambda>_. False)) d"
  unfolding subscription_body_def by (intro wp_intros) simp_all

lemma subscription_rejection_recorded:
  "rejection_recorded (subscription_rejection x message payload command reason)
     = inbox_conflict message subscription_subject (sc_key command)"
  by (simp add: rejection_recorded_def subscription_rejection_def)

lemma run_rejection_recorded:
  "rejection_recorded (run_rejection x message payload command)
     = inbox_conflict message run_subject (rc_key command)"
  by (simp add: rejection_recorded_def run_rejection_def)

lemma accept_subscription_effect:
  "effect_of (accept_subscription x c message payload) d = d
     \<or> subscription_handled x message payload (effect_of (accept_subscription x c message payload) d)"
proof (cases "decode_subscription x payload")
  case None
  then show ?thesis by (simp add: accept_subscription_def bind_ok_or)
next
  case (Some command)
  let ?r = "subscription_rejection x message payload command"
  have handled: "subscription_handled x message payload
      = inbox_conflict message subscription_subject (sc_key command)"
    by (simp add: fun_eq_iff subscription_handled_def Some)
  show ?thesis
  proof (cases "valid_subscription x command")
    case False
    with Some reject_effect [of x c "?r Command_Invalid" d] show ?thesis
      by (simp add: accept_subscription_def bind_ok_or handled subscription_rejection_recorded)
  next
    case True
    have "effect_of (or_else
             (transaction Intake_Storage (subscription_body x c message payload command))
             (reject x (c\<lparr>at := later c\<rparr>))) d = d
        \<or> inbox_conflict message subscription_subject (sc_key command) (effect_of (or_else
             (transaction Intake_Storage (subscription_body x c message payload command))
             (reject x (c\<lparr>at := later c\<rparr>))) d)"
      using wp_subscription_body
      by (rule effect_of_or_else)
        (use reject_effect [of x "c\<lparr>at := later c\<rparr>" "?r Subscription_Limit_Reached" d]
          in \<open>auto simp: subscription_rejection_recorded intro: steady_subscription_body\<close>)
    with Some True show ?thesis by (simp add: accept_subscription_def bind_ok_or handled)
  qed
qed

lemma accept_subscription_again:
  assumes "subscription_handled x message payload d"
  shows "effect_of (accept_subscription x c message payload) d = d"
proof (cases "decode_subscription x payload")
  case None
  then show ?thesis by (simp add: accept_subscription_def bind_ok_or)
next
  case (Some command)
  with assms have conflict: "inbox_conflict message subscription_subject (sc_key command) d"
    by (simp add: subscription_handled_def)
  have "effect_of (or_else
           (transaction Intake_Storage (subscription_body x c message payload command))
           (reject x (c\<lparr>at := later c\<rparr>))) d = d"
    using effect_of_or_else [OF wp_subscription_body_again [where command = command, OF conflict]
      _ steady_subscription_body] by blast
  with Some reject_again conflict show ?thesis
    by (simp add: accept_subscription_def bind_ok_or subscription_rejection_recorded)
qed

interpretation subscription_intake:
  replay_guarded "\<lambda>c. accept_subscription x c message payload" "subscription_handled x message payload"
  for x message payload
  by unfold_locales
    (use accept_subscription_effect accept_subscription_again crash_safe_accept_subscription in blast)+

lemma wp_run_body:
  "wp (run_body x c message payload command)
     (settles (inbox_conflict message run_subject (rc_key command))
        (\<lambda>r. r = run_rejection x message payload command)) d"
  unfolding run_body_def queue_started_def set_language_def
  by (intro wp_intros wp_create_commanded_run; simp add: report_builders)

lemma wp_run_body_again:
  "inbox_conflict message run_subject (rc_key command) d
     \<Longrightarrow> wp (run_body x c message payload command) (settles (\<lambda>_. False) (\<lambda>_. False)) d"
  unfolding run_body_def by (intro wp_intros) simp_all

lemma accept_run_effect:
  "effect_of (accept_run x c message payload) d = d
     \<or> run_handled x message payload (effect_of (accept_run x c message payload) d)"
proof (cases "decode_run x payload")
  case None
  then show ?thesis by (simp add: accept_run_def bind_ok_or)
next
  case (Some command)
  let ?r = "run_rejection x message payload command"
  have handled: "run_handled x message payload = inbox_conflict message run_subject (rc_key command)"
    by (simp add: fun_eq_iff run_handled_def Some)
  show ?thesis
  proof (cases "valid_run x command")
    case False
    with Some reject_effect [of x c ?r d] show ?thesis
      by (simp add: accept_run_def bind_ok_or handled run_rejection_recorded)
  next
    case True
    have "effect_of (or_else
             (transaction Intake_Storage (run_body x c message payload command))
             (reject x (c\<lparr>at := later c\<rparr>))) d = d
        \<or> inbox_conflict message run_subject (rc_key command) (effect_of (or_else
             (transaction Intake_Storage (run_body x c message payload command))
             (reject x (c\<lparr>at := later c\<rparr>))) d)"
      using wp_run_body
      by (rule effect_of_or_else)
        (use reject_effect [of x "c\<lparr>at := later c\<rparr>" ?r d]
          in \<open>auto simp: run_rejection_recorded intro: steady_run_body\<close>)
    with Some True show ?thesis by (simp add: accept_run_def bind_ok_or handled)
  qed
qed

lemma accept_run_again:
  assumes "run_handled x message payload d"
  shows "effect_of (accept_run x c message payload) d = d"
proof (cases "decode_run x payload")
  case None
  then show ?thesis by (simp add: accept_run_def bind_ok_or)
next
  case (Some command)
  with assms have conflict: "inbox_conflict message run_subject (rc_key command) d"
    by (simp add: run_handled_def)
  have "effect_of (or_else
           (transaction Intake_Storage (run_body x c message payload command))
           (reject x (c\<lparr>at := later c\<rparr>))) d = d"
    using effect_of_or_else [OF wp_run_body_again [where command = command, OF conflict]
      _ steady_run_body] by blast
  with Some reject_again conflict show ?thesis
    by (simp add: accept_run_def bind_ok_or run_rejection_recorded)
qed

interpretation run_intake:
  replay_guarded "\<lambda>c. accept_run x c message payload" "run_handled x message payload"
  for x message payload
  by unfold_locales (use accept_run_effect accept_run_again crash_safe_accept_run in blast)+

end
