(* ===== verification/Lifecycle.thy ===== *)
theory Lifecycle
  imports Intake
begin

text \<open>
  What ties the run table to the reports: an on-demand run that has entered a state has the
  report of that state in the outbox. The lemmas here are what each transaction that moves a
  run has to show.
\<close>

section \<open>The order of the states\<close>

text \<open>A run enters, acquires, waits and ends; the three ends are not comparable.\<close>

fun run_stage :: "run_state \<Rightarrow> nat" where
  "run_stage Accepted = 0"
| "run_stage Acquiring = 1"
| "run_stage Waiting_Recap = 2"
| "run_stage _ = 3"

instantiation run_state :: order
begin

definition less_eq_run_state :: "run_state \<Rightarrow> run_state \<Rightarrow> bool" where
  "s \<le> t \<longleftrightarrow> s = t \<or> run_stage s < run_stage t"

definition less_run_state :: "run_state \<Rightarrow> run_state \<Rightarrow> bool" where
  "s < t \<longleftrightarrow> run_stage s < run_stage t"

instance
  by standard (auto simp: less_eq_run_state_def less_run_state_def)

end

lemma terminal_maximal: "terminal s \<Longrightarrow> s \<le> t \<longleftrightarrow> t = s"
  by (cases s; cases t) (auto simp: less_eq_run_state_def)

lemma not_terminal_below: "\<not> terminal s \<longleftrightarrow> s < Completed \<and> s < Partial \<and> s < Failed"
  by (cases s) (simp_all add: less_run_state_def)

section \<open>The state of a run and the status of its operation\<close>

fun state_status :: "run_state \<Rightarrow> operation_status option" where
  "state_status Accepted = Some Op_Queued"
| "state_status Acquiring = Some Op_Running"
| "state_status Waiting_Recap = None"
| "state_status Completed = Some Op_Succeeded"
| "state_status Partial = Some Op_Partially_Succeeded"
| "state_status Failed = Some Op_Failed"

definition announced :: "outbox_row list \<Rightarrow> run_row \<Rightarrow> bool" where
  "announced rows r \<longleftrightarrow>
     (run_trigger r = On_Demand \<longrightarrow>
        reported rows (run_operation r) Op_Queued
        \<and> (case state_status (run_state r) of
              None \<Rightarrow> True
            | Some status \<Rightarrow> reported rows (run_operation r) status))"

definition lifecycle_ok :: "db \<Rightarrow> bool" where
  "lifecycle_ok d \<longleftrightarrow>
     runs_ok (runs d) \<and> reports_wf (outbox d) \<and> list_all (announced (outbox d)) (runs d)"

lemma lifecycle_ok_empty: "lifecycle_ok empty_db"
  by (simp add: lifecycle_ok_def empty_db_def runs_ok_def reports_wf_def)

lemma lifecycle_ok_cong:
  "runs d = runs d' \<Longrightarrow> outbox d = outbox d' \<Longrightarrow> lifecycle_ok d = lifecycle_ok d'"
  by (simp add: lifecycle_ok_def)

lemma announced_once: "announced rows r \<Longrightarrow> announced (once q rows) r"
  by (auto simp: announced_def intro: reported_once split: option.splits)

lemma all_announced_once:
  "list_all (announced rows) rs \<Longrightarrow> list_all (announced (once q rows)) rs"
  by (auto simp: list_all_iff intro: announced_once)

text \<open>The outbox after a report of an operation.\<close>

definition queues :: "outbox_row list \<Rightarrow> outbox_row list \<Rightarrow> uuid \<Rightarrow> operation_status \<Rightarrow> bool" where
  "queues rows rows' operation status \<longleftrightarrow>
     (\<exists>row now fresh. rows' = once (queued_report now fresh row) rows \<and> rr_operation row = operation
        \<and> rep_operation (rr_report row) = operation \<and> rep_status (rr_report row) = status)"

lemma queuesI:
  "rr_operation row = operation \<Longrightarrow> rep_operation (rr_report row) = operation
     \<Longrightarrow> rep_status (rr_report row) = status
     \<Longrightarrow> queues rows (once (queued_report now fresh row) rows) operation status"
  unfolding queues_def by blast

lemma queues_keeps:
  assumes "queues rows rows' operation status" and "reports_wf rows"
  shows "reports_wf rows'" and "reported rows' operation status"
    and "announced rows r \<Longrightarrow> announced rows' r"
    and "list_all (announced rows) rs \<Longrightarrow> list_all (announced rows') rs"
proof -
  from assms(1) obtain row now fresh where rows': "rows' = once (queued_report now fresh row) rows"
    and row: "rr_operation row = operation" "rep_operation (rr_report row) = operation"
      "rep_status (rr_report row) = status"
    by (auto simp: queues_def)
  then show "reports_wf rows'" using assms(2) by (simp add: reports_wf_once queued_report_ok)
  show "reported rows' operation status"
    using reported_queued [OF assms(2), of row now fresh] rows' row by simp
  show "announced rows r \<Longrightarrow> announced rows' r" by (simp add: rows' announced_once)
  show "list_all (announced rows) rs \<Longrightarrow> list_all (announced rows') rs"
    by (simp add: rows' all_announced_once)
qed

text \<open>Queueing a report alone.\<close>

lemma lifecycle_ok_report:
  assumes "lifecycle_ok d" and "runs d' = runs d" and "queues (outbox d) (outbox d') operation status"
  shows "lifecycle_ok d'"
  using assms queues_keeps [OF assms(3)] by (simp add: lifecycle_ok_def)

text \<open>Queueing something that is not a report.\<close>

lemma lifecycle_ok_appended:
  assumes "lifecycle_ok d" and "runs d' = runs d" and "outbox d' = outbox d @ [q]"
    and "out_subject q \<noteq> report_subject"
  shows "lifecycle_ok d'"
proof -
  have "reported (outbox d') operation status" if "reported (outbox d) operation status"
    for operation status
    using that assms(3) by (simp add: reported_def)
  then have "announced (outbox d') r" if "announced (outbox d) r" for r
    using that by (auto simp: announced_def split: option.splits)
  with assms show ?thesis
    by (auto simp: lifecycle_ok_def reports_wf_def report_row_ok_def list_all_iff)
qed

section \<open>Moving one run\<close>

definition moves_to :: "run_state \<Rightarrow> (run_row \<Rightarrow> run_row) \<Rightarrow> bool" where
  "moves_to st f \<longleftrightarrow> keeps_keys f \<and> (\<forall>r. run_state (f r) = st)"

lemma keeps_keys_owner_trigger:
  "keeps_keys f \<Longrightarrow> run_owner (f r) = run_owner r \<and> run_trigger (f r) = run_trigger r
     \<and> run_id (f r) = run_id r \<and> run_operation (f r) = run_operation r"
  by (simp add: keeps_keys_def natural_key_def)

lemma announced_moved:
  assumes "announced rows r" and moves: "moves_to st f"
    and "run_trigger r = On_Demand \<Longrightarrow> (case state_status st of None \<Rightarrow> True
           | Some status \<Rightarrow> reported rows (run_operation r) status)"
  shows "announced rows (f r)"
proof -
  have "run_trigger (f r) = run_trigger r" and "run_operation (f r) = run_operation r"
    and "run_state (f r) = st"
    using moves keeps_keys_owner_trigger [of f r] by (auto simp: moves_to_def)
  with assms(1,3) show ?thesis 
    by (cases "run_trigger r") (simp_all add: announced_def cong: option.case_cong)
qed

text \<open>
  One run of the given identity and owner moves to \<open>st\<close>; then its report is queued when an
  operation owns it. The primary key makes the row that the update changed the row whose
  operation is looked up.
\<close>

lemma lifecycle_ok_moved:
  assumes ok: "lifecycle_ok d" and moves: "moves_to st f"
    and fixes_row: "\<And>r. p r \<Longrightarrow> run_id r = run \<and> run_owner r = owner"
    and runs: "runs d' = update_where p f (runs d)"
    and queued: "outbox d' = outbox d
          \<and> (state_status st = None \<or> select_one (owns_on_demand run owner) (runs d') = None)
        \<or> (\<exists>r status. select_one (owns_on_demand run owner) (runs d') = Some r
             \<and> queues (outbox d) (outbox d') (run_operation r) status \<and> state_status st = Some status)"
  shows "lifecycle_ok d'"
proof -
  from moves have keys: "keeps_keys f" by (simp add: moves_to_def)
  let ?rs = "update_where p f (runs d)"
  from ok keys have rs_ok: "runs_ok ?rs" by (simp add: lifecycle_ok_def update_runs_ok)
  have changed: "run_operation r = run_operation q \<and> q = f r"
    if "r \<in> set (runs d)" "p r" "run_trigger r = On_Demand"
      "select_one (owns_on_demand run owner) ?rs = Some q" for r q
  proof -
    from that keys fixes_row [of r] have "f r \<in> set ?rs" and "run_id (f r) = run"
      by (auto simp: set_update_where keeps_keys_def)
    moreover from that(4) have "q \<in> set ?rs" and "run_id q = run"
      by (auto dest!: select_one_Some simp: owns_on_demand_def)
    ultimately have "q = f r" using rs_ok by (metis runs_ok_def unique_byD)
    with keys show ?thesis by (simp add: keeps_keys_def)
  qed
  have unowned: "run_trigger r \<noteq> On_Demand"
    if "r \<in> set (runs d)" "p r" "select_one (owns_on_demand run owner) ?rs = None" for r
  proof
    assume "run_trigger r = On_Demand"
    with that keys fixes_row [of r] keeps_keys_owner_trigger [OF keys, of r]
    have "f r \<in> set ?rs" and "owns_on_demand run owner (f r)"
      by (auto simp: set_update_where owns_on_demand_def)
    with that(3) show False by (auto simp: select_one_None)
  qed
  have old: "announced (outbox d) r" if "r \<in> set (runs d)" for r
    using ok that by (auto simp: lifecycle_ok_def list_all_iff)
  from queued have "reports_wf (outbox d') \<and> (\<forall>r' \<in> set ?rs. announced (outbox d') r')"
  proof
    assume same: "outbox d' = outbox d
        \<and> (state_status st = None \<or> select_one (owns_on_demand run owner) (runs d') = None)"
    have "announced (outbox d) r'" if "r' \<in> set ?rs" for r'
      using that
    proof (cases rule: in_update_whereE)
      case (1 r)
      with announced_moved [OF old moves, of r] unowned [of r] same runs show ?thesis by auto
    qed (simp add: old)
    with same ok show ?thesis by (simp add: lifecycle_ok_def)
  next
    assume "\<exists>r status. select_one (owns_on_demand run owner) (runs d') = Some r
        \<and> queues (outbox d) (outbox d') (run_operation r) status \<and> state_status st = Some status"
    then obtain q status where some: "select_one (owns_on_demand run owner) ?rs = Some q"
      and q: "queues (outbox d) (outbox d') (run_operation q) status"
      and status: "state_status st = Some status"
      by (auto simp: runs)
    have "reports_wf (outbox d)" using ok by (simp add: lifecycle_ok_def)
    note keeps = queues_keeps [OF q this]
    have "announced (outbox d') r'" if "r' \<in> set ?rs" for r'
      using that
    proof (cases rule: in_update_whereE)
      case (1 r)
      have "announced (outbox d') r" using old [OF 1(1)] by (rule keeps(3))
      then have "announced (outbox d') (f r)"
        using moves
        by (rule announced_moved) (use changed [OF 1(1,2) _ some] keeps(2) status in simp)
      with 1 show ?thesis by simp
    qed (simp add: old keeps(3))
    with keeps(1) show ?thesis by blast
  qed
  with rs_ok runs show ?thesis by (simp add: lifecycle_ok_def list_all_iff)
qed

section \<open>The intake\<close>

lemma preserves_settling:
  assumes "\<And>d. I d \<Longrightarrow> wp body (settles I (\<lambda>_. True)) d"
  shows "preserves I (transaction u body)"
proof (rule preserves_transaction)
  fix d
  assume "I d"
  from assms [OF this] show "wp body (\<lambda>t d'. committed t \<longrightarrow> I d') d"
  proof (rule wp_mono)
    fix t d'
    show "settles I (\<lambda>_. True) t d' \<Longrightarrow> committed t \<longrightarrow> I d'"
      by (cases t) (simp_all split: sum.splits)
  qed
qed

lemma lifecycle_reject [preserves_intros]: "preserves lifecycle_ok (reject x c r)"
  unfolding reject_def
proof (rule preserves_transaction)
  fix d
  assume ok: "lifecycle_ok d"
  show "wp (reject_body x c r) (\<lambda>t d'. committed t \<longrightarrow> lifecycle_ok d') d"
    unfolding reject_body_def
    by (intro wp_intros; simp?)
      (rule lifecycle_ok_report [OF ok], auto simp: rejection_report_def report_builders intro!: queuesI)
qed

lemma lifecycle_subscription:
  "preserves lifecycle_ok (transaction u (subscription_body x c message payload command))"
proof (rule preserves_settling)
  fix d
  assume ok: "lifecycle_ok d"
  show "wp (subscription_body x c message payload command) (settles lifecycle_ok (\<lambda>_. True)) d"
    unfolding subscription_body_def
    by (intro wp_intros wp_set_subscription; simp?)
      (rule lifecycle_ok_report [OF ok], auto simp: report_builders intro!: queuesI)
qed

definition sets_language :: "(run_row \<Rightarrow> run_row) \<Rightarrow> bool" where
  "sets_language f \<longleftrightarrow> keeps_keys f \<and> (\<forall>r. run_state (f r) = run_state r)"

lemma announced_language: "sets_language f \<Longrightarrow> announced rows (f r) = announced rows r"
  using keeps_keys_owner_trigger [of f r] by (simp add: sets_language_def announced_def cong: option.case_cong)

lemma lifecycle_ok_relabelled:
  assumes "runs_ok rs" and "reports_wf rows" and "list_all (announced rows) rs" and "sets_language f"
    and "runs d' = update_where p f rs" and "outbox d' = rows"
  shows "lifecycle_ok d'"
  using assms update_runs_ok [of rs f p]
  by (auto simp: lifecycle_ok_def sets_language_def [of f] list_all_iff set_update_where announced_language)

text \<open>A run the intake creates, with the report that it is queued.\<close>

lemma lifecycle_ok_created:
  assumes ok: "lifecycle_ok d" and id: "run \<notin> run_id ` set (runs d)"
    and key: "natural_key (new_run now run owner operation trigger k s e) \<notin> natural_key ` set (runs d)"
    and window: "s < e" and language: "sets_language f"
    and runs: "runs d' = update_where p f (runs d @ [new_run now run owner operation trigger k s e])"
    and outbox: "if trigger = On_Demand then queues (outbox d) (outbox d') operation Op_Queued
        else outbox d' = outbox d"
  shows "lifecycle_ok d'"
proof (rule lifecycle_ok_relabelled [OF _ _ _ language runs refl])
  let ?r = "new_run now run owner operation trigger k s e"
  show "runs_ok (runs d @ [?r])"
    using ok id key window by (auto simp: lifecycle_ok_def runs_ok_def new_run_def)
  have wf: "reports_wf (outbox d)" and old: "list_all (announced (outbox d)) (runs d)"
    using ok by (simp_all add: lifecycle_ok_def)
  have "reports_wf (outbox d') \<and> list_all (announced (outbox d')) (runs d) \<and> announced (outbox d') ?r"
  proof (cases "trigger = On_Demand")
    case True
    with outbox have "queues (outbox d) (outbox d') operation Op_Queued" by simp
    from queues_keeps [OF this wf] old show ?thesis by (simp add: announced_def new_run_def)
  next
    case False
    with outbox wf old show ?thesis by (simp add: announced_def new_run_def)
  qed
  then show "reports_wf (outbox d')" and "list_all (announced (outbox d')) (runs d @ [?r])"
    by simp_all
qed

lemma lifecycle_run:
  "preserves lifecycle_ok (transaction u (run_body x c message payload command))"
proof (rule preserves_settling)
  fix d
  assume ok: "lifecycle_ok d"
  let ?f = "\<lambda>r :: run_row. r\<lparr>run_language := rc_language command\<rparr>"
  have language: "sets_language ?f"
    by (simp add: sets_language_def keeps_keys_def natural_key_def)
  have parts: "runs_ok (runs d)" "reports_wf (outbox d)" "list_all (announced (outbox d)) (runs d)"
    using ok by (simp_all add: lifecycle_ok_def)
  show "wp (run_body x c message payload command) (settles lifecycle_ok (\<lambda>_. True)) d"
    unfolding run_body_def queue_started_def set_language_def
    apply (intro wp_intros wp_create_commanded_run; simp?)
    subgoal by (rule lifecycle_ok_created [OF ok _ _ _ language]) (auto simp: report_builders intro!: queuesI)
    subgoal by (rule lifecycle_ok_created [OF ok _ _ _ language]) (auto simp: report_builders intro!: queuesI)
    subgoal
      by (rule lifecycle_ok_relabelled [OF parts(1) _ _ language])
        (auto simp: report_builders intro!: reports_wf_once queued_report_ok all_announced_once parts)
    subgoal by (rule lifecycle_ok_relabelled [OF parts language]) auto
    done
qed

end
