(* ===== verification/Manifest.thy ===== *)
theory Manifest
  imports Demo "HOL-Library.List_Lexorder" "HOL-Library.Char_ord"
begin

text \<open>
  \<open>src/manifest.rs\<close>: the canonical manifest of a run, built from the selected revisions. The
  contract artifact that the builder fills, and the parsers and limits of the contract crate,
  are the fields of \<open>manifest_codec\<close>.
\<close>

section \<open>Sources\<close>

record manifest_source =
  ms_revision :: uuid
  ms_channel :: uuid
  ms_username :: string
  ms_display_name :: "nat list option"
  ms_message :: int
  ms_sha256 :: string
  ms_published :: string
  ms_link :: string
  ms_body :: string
  ms_index :: nat

record canonical_manifest =
  cn_manifest :: uuid
  cn_owner :: uuid
  cn_run :: uuid
  cn_text :: string
  cn_sha256 :: string
  cn_sources :: nat
  cn_channels :: nat
  cn_messages :: "(uuid \<times> int) list"

datatype manifest_error = Manifest_Limit | Manifest_Invalid

record contract_entry =
  cs_revision_ref :: string
  cs_channel_ref :: string
  cs_label :: "nat list"
  cs_message :: string
  cs_published :: instant
  cs_content :: string
  cs_digest :: string
  cs_link :: "string option"
  cs_revision :: nat

record contract_manifest =
  cm_ref :: string
  cm_owner :: uuid
  cm_run :: string
  cm_window :: "instant \<times> instant"
  cm_sources :: "contract_entry list"

record manifest_codec =
  max_sources :: nat
  max_channels :: nat
  max_content_bytes :: nat
  wire_parse :: "string \<Rightarrow> instant option"
  window_ok :: "instant \<Rightarrow> instant \<Rightarrow> bool"
  digest_parses :: "string \<Rightarrow> bool"
  manifest_ref_parses :: "string \<Rightarrow> bool"
  run_ref_parses :: "string \<Rightarrow> bool"
  canonical :: "contract_manifest \<Rightarrow> string option"
  digest_of :: "string \<Rightarrow> string"

section \<open>The label of a channel\<close>

text \<open>\<open>char::is_whitespace\<close> and \<open>str::trim\<close> on code points.\<close>

definition is_whitespace :: "nat \<Rightarrow> bool" where
  "is_whitespace c \<longleftrightarrow> 9 \<le> c \<and> c \<le> 13 \<or> c = 32 \<or> c = 133 \<or> c = 160 \<or> c = 5760
     \<or> 8192 \<le> c \<and> c \<le> 8202 \<or> c = 8232 \<or> c = 8233 \<or> c = 8239 \<or> c = 8287 \<or> c = 12288"

definition trim :: "nat list \<Rightarrow> nat list" where
  "trim s = rev (dropWhile is_whitespace (rev (dropWhile is_whitespace s)))"

definition code_points :: "string \<Rightarrow> nat list" where
  "code_points s = map of_char s"

definition channel_label :: "manifest_source \<Rightarrow> nat list" where
  "channel_label s =
     take 80
       (case map_option trim (ms_display_name s) of
          None \<Rightarrow> code_points (ms_username s)
        | Some name \<Rightarrow> if name = [] then code_points (ms_username s) else name)"

section \<open>The contract form of a source\<close>

definition message_link :: "string \<Rightarrow> int \<Rightarrow> string" where
  "message_link username message = ''https://t.me/'' @ username @ ''/'' @ int_text message"

definition wire_instant :: "manifest_codec \<Rightarrow> string \<Rightarrow> manifest_error + instant" where
  "wire_instant k raw = (case wire_parse k raw of None \<Rightarrow> Inl Manifest_Invalid | Some t \<Rightarrow> Inr t)"

definition contract_source :: "manifest_codec \<Rightarrow> manifest_source \<Rightarrow> manifest_error + contract_entry" where
  "contract_source k s =
     (if length (ms_body s) > max_content_bytes k then Inl Manifest_Limit
      else let digest = digest_of k (ms_body s)
        in if ms_link s \<noteq> message_link (ms_username s) (ms_message s) \<or> ms_sha256 s \<noteq> digest
           then Inl Manifest_Invalid
           else and_then (wire_instant k (ms_published s)) (\<lambda>published.
             if \<not> digest_parses k digest then Inl Manifest_Invalid
             else Inr
               \<lparr>cs_revision_ref = ''channel-post-revision:'' @ uuid_text (ms_revision s),
                cs_channel_ref = ''telegram-public-channel:'' @ uuid_text (ms_channel s),
                cs_label = channel_label s, cs_message = int_text (ms_message s),
                cs_published = published, cs_content = ms_body s, cs_digest = digest,
                cs_link = Some (ms_link s), cs_revision = ms_index s\<rparr>))"

definition u128_max :: nat where
  "u128_max = 2 ^ 128 - 1"

definition order_key :: "contract_entry \<Rightarrow> instant \<times> string \<times> nat \<times> nat" where
  "order_key s =
     (cs_published s, cs_channel_ref s,
      (case parse_unsigned u128_max (cs_message s) of None \<Rightarrow> u128_max | Some n \<Rightarrow> n),
      cs_revision s)"

section \<open>The builder\<close>

definition source_messages :: "manifest_source list \<Rightarrow> (uuid \<times> int) list" where
  "source_messages sources = sort (remdups (map (\<lambda>s. (ms_channel s, ms_message s)) sources))"

definition source_channels :: "manifest_source list \<Rightarrow> nat" where
  "source_channels sources = length (remdups (map ms_channel sources))"

definition build_manifest ::
  "manifest_codec \<Rightarrow> uuid \<Rightarrow> uuid \<Rightarrow> uuid \<Rightarrow> string \<Rightarrow> string \<Rightarrow> manifest_source list
     \<Rightarrow> manifest_error + canonical_manifest" where
  "build_manifest k manifest owner run window_start window_end sources =
     (if length sources > max_sources k then Inl Manifest_Limit
      else if source_channels sources > max_channels k then Inl Manifest_Limit
      else and_then (wire_instant k window_start) (\<lambda>start.
        and_then (wire_instant k window_end) (\<lambda>end.
        if \<not> window_ok k start end then Inl Manifest_Invalid
        else and_then (collect_results (contract_source k) sources) (\<lambda>selected.
          let ref = ''channel-digest-manifest:'' @ uuid_text manifest
          in if \<not> manifest_ref_parses k ref \<or> \<not> run_ref_parses k (uuid_text run)
             then Inl Manifest_Invalid
             else (case canonical k
                 \<lparr>cm_ref = ref, cm_owner = owner, cm_run = uuid_text run,
                  cm_window = (start, end), cm_sources = sort_key order_key selected\<rparr> of
               None \<Rightarrow> Inl Manifest_Invalid
             | Some text \<Rightarrow> Inr
                 \<lparr>cn_manifest = manifest, cn_owner = owner, cn_run = run, cn_text = text,
                  cn_sha256 = digest_of k text, cn_sources = length selected,
                  cn_channels = source_channels sources,
                  cn_messages = source_messages sources\<rparr>)))))"

section \<open>What a built manifest says\<close>

lemma contract_source_Inr:
  "contract_source k s = Inr c \<longleftrightarrow>
     length (ms_body s) \<le> max_content_bytes k \<and> ms_link s = message_link (ms_username s) (ms_message s)
     \<and> ms_sha256 s = digest_of k (ms_body s) \<and> digest_parses k (ms_sha256 s)
     \<and> (\<exists>t. wire_parse k (ms_published s) = Some t
          \<and> c = \<lparr>cs_revision_ref = ''channel-post-revision:'' @ uuid_text (ms_revision s),
                cs_channel_ref = ''telegram-public-channel:'' @ uuid_text (ms_channel s),
                cs_label = channel_label s, cs_message = int_text (ms_message s),
                cs_published = t, cs_content = ms_body s, cs_digest = ms_sha256 s,
                cs_link = Some (ms_link s), cs_revision = ms_index s\<rparr>)"
  by (auto simp: contract_source_def Let_def wire_instant_def and_then_Inr split: option.splits)

lemma build_manifest_Inr:
  "build_manifest k manifest owner run window_start window_end sources = Inr m \<longleftrightarrow>
     length sources \<le> max_sources k \<and> source_channels sources \<le> max_channels k
     \<and> manifest_ref_parses k (''channel-digest-manifest:'' @ uuid_text manifest)
     \<and> run_ref_parses k (uuid_text run)
     \<and> (\<exists>start end selected text.
          wire_parse k window_start = Some start \<and> wire_parse k window_end = Some end
          \<and> window_ok k start end \<and> collect_results (contract_source k) sources = Inr selected
          \<and> canonical k \<lparr>cm_ref = ''channel-digest-manifest:'' @ uuid_text manifest, cm_owner = owner,
              cm_run = uuid_text run, cm_window = (start, end), cm_sources = sort_key order_key selected\<rparr>
            = Some text
          \<and> m = \<lparr>cn_manifest = manifest, cn_owner = owner, cn_run = run, cn_text = text,
                cn_sha256 = digest_of k text, cn_sources = length selected,
                cn_channels = source_channels sources, cn_messages = source_messages sources\<rparr>)"
  by (cases "wire_parse k window_start"; cases "wire_parse k window_end";
      cases "collect_results (contract_source k) sources")
    (auto simp: build_manifest_def Let_def wire_instant_def split: option.splits if_splits)

lemma source_channels_card: "source_channels sources = card (ms_channel ` set sources)"
  by (simp add: source_channels_def length_remdups_card_conv)

lemma source_messages_set:
  "source_messages sources = sorted_list_of_set ((\<lambda>s. (ms_channel s, ms_message s)) ` set sources)"
  by (simp add: source_messages_def flip: sorted_list_of_set_sort_remdups)

text \<open>The contract form of a source, when it has one.\<close>

definition contract_form :: "manifest_codec \<Rightarrow> manifest_source \<Rightarrow> contract_entry" where
  "contract_form k s = projr (contract_source k s)"

lemma collected_forms:
  "collect_results (contract_source k) sources = Inr selected \<longleftrightarrow>
     (\<forall>s \<in> set sources. contract_source k s = Inr (contract_form k s))
     \<and> selected = map (contract_form k) sources"
proof (induction sources arbitrary: selected)
  case (Cons s sources)
  have "(\<exists>c. contract_source k s = Inr c \<and> Q c)
      \<longleftrightarrow> contract_source k s = Inr (contract_form k s) \<and> Q (contract_form k s)" for Q
    by (auto simp: contract_form_def)
  then show ?case by (auto simp: and_then_Inr Cons.IH)
qed auto

text \<open>
  C40: a manifest that was built names its run, its owner and its own identity, carries the digest of
  its canonical text, stays within the limits of the contract, counts its sources and channels, lists
  each message it covers once and in order, and has only sources whose stored digest and link are
  those of their body and message.
\<close>

theorem built_manifest_sound:
  assumes "build_manifest k manifest owner run window_start window_end sources = Inr m"
  shows "cn_manifest m = manifest \<and> cn_owner m = owner \<and> cn_run m = run
     \<and> cn_sha256 m = digest_of k (cn_text m)
     \<and> cn_sources m = length sources \<and> length sources \<le> max_sources k
     \<and> cn_channels m = card (ms_channel ` set sources) \<and> cn_channels m \<le> max_channels k
     \<and> set (cn_messages m) = (\<lambda>s. (ms_channel s, ms_message s)) ` set sources
     \<and> sorted (cn_messages m) \<and> distinct (cn_messages m)
     \<and> list_all (\<lambda>s. ms_sha256 s = digest_of k (ms_body s) \<and> length (ms_body s) \<le> max_content_bytes k
          \<and> ms_link s = message_link (ms_username s) (ms_message s)) sources"
  using assms
  by (auto simp: build_manifest_Inr source_channels_card source_messages_set collected_forms
      contract_source_Inr list_all_iff)

text \<open>Two concrete sources, of two channels.\<close>

definition demo_codec :: manifest_codec where
  "demo_codec = \<lparr>max_sources = 100, max_channels = 20, max_content_bytes = 16384, wire_parse = int_parse,
     window_ok = (<), digest_parses = (\<lambda>_. True), manifest_ref_parses = (\<lambda>_. True),
     run_ref_parses = (\<lambda>_. True), canonical = (\<lambda>c. Some (concat (map cs_content (cm_sources c)))),
     digest_of = demo_sha256\<rparr>"

definition demo_source :: "uuid \<Rightarrow> int \<Rightarrow> string \<Rightarrow> string \<Rightarrow> manifest_source" where
  "demo_source channel message published body =
     \<lparr>ms_revision = channel, ms_channel = channel, ms_username = ''rustlang'', ms_display_name = None,
      ms_message = message, ms_sha256 = demo_sha256 body, ms_published = published,
      ms_link = message_link ''rustlang'' message, ms_body = body, ms_index = 1\<rparr>"

lemma demo_instants:
  "int_parse ''100'' = Some 100" "int_parse ''150'' = Some 150" "int_parse ''160'' = Some 160"
  "int_parse ''200'' = Some 200"
  by code_simp+

lemma demo_manifest:
  "build_manifest demo_codec 30 7 5 ''100'' ''200''
       [demo_source 2 9 ''160'' ''second'', demo_source 1 8 ''150'' ''first'']
     = Inr \<lparr>cn_manifest = 30, cn_owner = 7, cn_run = 5, cn_text = ''firstsecond'',
         cn_sha256 = demo_sha256 ''firstsecond'', cn_sources = 2, cn_channels = 2,
         cn_messages = [(1, 8), (2, 9)]\<rparr>"
  by (simp add: build_manifest_def demo_codec_def demo_source_def source_channels_def wire_instant_def
      contract_source_def Let_def demo_instants order_key_def source_messages_def
      del: int_parse.simps)

theorem built_manifest_sound_witness:
  "let m = \<lparr>cn_manifest = 30, cn_owner = 7, cn_run = 5, cn_text = ''firstsecond'',
         cn_sha256 = demo_sha256 ''firstsecond'', cn_sources = 2, cn_channels = 2,
         cn_messages = [(1, 8), (2, 9)]\<rparr> in cn_sha256 m = digest_of demo_codec (cn_text m)"
  using built_manifest_sound [OF demo_manifest] by (simp only: Let_def)

lemma order_key_inj:
  assumes "inj_on (\<lambda>s. (ms_channel s, ms_message s, ms_index s)) (set sources)"
    and "list_all (\<lambda>s. 0 \<le> ms_message s \<and> ms_message s < 2 ^ 63) sources"
    and "list_all (\<lambda>s. contract_source k s = Inr (contract_form k s)) sources"
  shows "inj_on order_key (set (map (contract_form k) sources))"
proof (rule inj_onI)
  fix a b
  assume a: "a \<in> set (map (contract_form k) sources)" and b: "b \<in> set (map (contract_form k) sources)"
    and eq: "order_key a = order_key b"
  then obtain s t where s: "s \<in> set sources" "a = contract_form k s"
    and t: "t \<in> set sources" "b = contract_form k t" by auto
  have small: "parse_unsigned u128_max (int_text i) = Some (nat i)" if "0 \<le> i" "i < 2 ^ 63" for i
  proof -
    from that have "nat i \<le> u128_max" by (simp add: u128_max_def)
    with that show ?thesis by (simp add: int_text_def parse_unsigned_nat_text)
  qed
  have built: "contract_source k s = Inr a" "contract_source k t = Inr b"
    using assms(3) s t by (auto simp: list_all_iff)
  have fields: "cs_channel_ref c = ''telegram-public-channel:'' @ uuid_text (ms_channel q)
      \<and> cs_message c = int_text (ms_message q) \<and> cs_revision c = ms_index q"
    if "contract_source k q = Inr c" for q c
    using that by (auto simp: contract_source_Inr)
  note fa = fields [OF built(1)] and fb = fields [OF built(2)]
  have "0 \<le> ms_message s" "ms_message s < 2 ^ 63" "0 \<le> ms_message t" "ms_message t < 2 ^ 63"
    using assms(2) s t by (auto simp: list_all_iff)
  with eq fa fb have "ms_channel s = ms_channel t" and "ms_message s = ms_message t"
    and "ms_index s = ms_index t"
    by (auto simp: order_key_def small)
  with assms(1) s t show "a = b" by (auto dest: inj_onD)
qed

text \<open>
  The manifest does not depend on the order of its sources. Rows of distinct message revisions
  in any order give the same text, digest, counts and message list.
\<close>

theorem manifest_order_free:
  assumes built: "build_manifest k manifest owner run window_start window_end sources = Inr m"
    and perm: "mset sources' = mset sources"
    and revisions: "inj_on (\<lambda>s. (ms_channel s, ms_message s, ms_index s)) (set sources)"
    and ids: "list_all (\<lambda>s. 0 \<le> ms_message s \<and> ms_message s < 2 ^ 63) sources"
  shows "build_manifest k manifest owner run window_start window_end sources' = Inr m"
proof -
  have same: "set sources' = set sources" using perm by (rule mset_eq_setD)
  have len: "length sources' = length sources" using perm by (rule mset_eq_length)
  from built have forms: "list_all (\<lambda>s. contract_source k s = Inr (contract_form k s)) sources"
    by (auto simp: build_manifest_Inr collected_forms list_all_iff)
  have sorted: "sort_key order_key (map (contract_form k) sources')
      = sort_key order_key (map (contract_form k) sources)"
  proof (rule sort_key_inj_key_eq)
    show "mset (map (contract_form k) sources') = mset (sort_key order_key (map (contract_form k) sources))"
      using perm by simp
    show "inj_on order_key (set (map (contract_form k) sources'))"
      using order_key_inj [OF revisions ids forms] same by simp
  qed simp
  from built show ?thesis
    by (auto simp: build_manifest_Inr source_channels_card source_messages_set collected_forms
        same len sorted)
qed

theorem manifest_order_free_witness:
  "build_manifest demo_codec 30 7 5 ''100'' ''200'' 
       [demo_source 1 8 ''150'' ''first'', demo_source 2 9 ''160'' ''second'']
     = Inr \<lparr>cn_manifest = 30, cn_owner = 7, cn_run = 5, cn_text = ''firstsecond'',
         cn_sha256 = demo_sha256 ''firstsecond'', cn_sources = 2, cn_channels = 2,
         cn_messages = [(1, 8), (2, 9)]\<rparr>"
  by (rule manifest_order_free [OF demo_manifest]) (simp_all add: demo_source_def)

end
