(* ===== verification/Coordinator.thy ===== *)
theory Coordinator
  imports Lifecycle Manifest
begin

text \<open>
  \<open>src/coordinator.rs\<close>: the transactions that move a run. A manifest and its recap request are
  stored together, a run ends with its report, a Knowledge fact settles a run at most once, and
  one schedule occurrence creates one run per owner.
\<close>

section \<open>Vocabulary\<close>

datatype coordinator_error = Linkage_Invalid | Coordinator_Storage

fun coordinator_of_report :: "report_error \<Rightarrow> coordinator_error" where
  "coordinator_of_report Report_Invalid = Linkage_Invalid"
| "coordinator_of_report Report_Storage = Coordinator_Storage"

datatype run_failure_reason = Run_Provider_Unavailable | Run_Manifest_Invalid

fun failure_class :: "run_failure_reason \<Rightarrow> string" where
  "failure_class Run_Provider_Unavailable = ''provider_unavailable''"
| "failure_class Run_Manifest_Invalid = ''manifest_invalid''"

fun failure_stage :: "run_failure_reason \<Rightarrow> string" where
  "failure_stage Run_Provider_Unavailable = ''acquiring''"
| "failure_stage Run_Manifest_Invalid = ''manifest''"

fun failure_code :: "run_failure_reason \<Rightarrow> string" where
  "failure_code Run_Provider_Unavailable = ''channel_digest.provider_unavailable''"
| "failure_code Run_Manifest_Invalid = ''channel_digest.manifest_invalid''"

fun failure_message :: "run_failure_reason \<Rightarrow> string" where
  "failure_message Run_Provider_Unavailable = ''The channel posts could not be read from Telegram.''"
| "failure_message Run_Manifest_Invalid = ''The selected posts cannot form a digest manifest.''"

fun failure_retryable :: "run_failure_reason \<Rightarrow> bool" where
  "failure_retryable Run_Provider_Unavailable = True"
| "failure_retryable Run_Manifest_Invalid = False"

fun classify_failure :: "recap_failure \<Rightarrow> string \<times> bool" where
  "classify_failure Manifest_Unavailable = (''manifest_unavailable'', True)"
| "classify_failure Manifest_Integrity = (''manifest_integrity'', False)"
| "classify_failure Unsupported_Language = (''unsupported_language'', False)"
| "classify_failure Context_Budget = (''context_budget'', False)"
| "classify_failure Provider_Unavailable = (''provider_unavailable'', True)"
| "classify_failure Provider_Timeout = (''provider_timeout'', True)"
| "classify_failure Invalid_Output = (''invalid_output'', False)"
| "classify_failure Cost_Budget = (''cost_budget'', False)"
| "classify_failure Cancelled = (''cancelled'', False)"

definition recap_subject :: string where
  "recap_subject = ''knowledge.channel_digest_recap.requested.v1''"

definition completed_subject :: string where
  "completed_subject = ''knowledge.channel_digest_recap.completed.v1''"

definition failed_subject :: string where
  "failed_subject = ''knowledge.channel_digest_recap.failed.v1''"

definition occurrence_subject :: string where
  "occurrence_subject = ''channel_digest.schedule.occurrence_requested.v1''"

record occurrence =
  oc_message :: uuid
  oc_payload :: string
  oc_key :: string
  oc_previous :: string
  oc_due :: string
  oc_operation :: uuid
  oc_owner :: uuid
  oc_language :: language

definition stored :: "(db, db_error, 'a) io \<Rightarrow> (db, coordinator_error, 'a) io" where
  "stored = map_err (\<lambda>_. Coordinator_Storage)"

abbreviation reporting :: "(db, report_error, 'a) io \<Rightarrow> (db, coordinator_error, 'a) io" where
  "reporting \<equiv> map_err coordinator_of_report"

section \<open>Committing a manifest\<close>

definition checked_recap_request ::
  "externals \<Rightarrow> canonical_manifest \<Rightarrow> string \<Rightarrow> coordinator_error + recap_request" where
  "checked_recap_request x m raw =
     (case decode_recap x raw of
        None \<Rightarrow> Inl Linkage_Invalid
      | Some request \<Rightarrow>
          if valid_recap x request
             \<and> rq_owner request = ''user:'' @ uuid_text (cn_owner m)
             \<and> rq_run request = uuid_text (cn_run m)
             \<and> rq_manifest_ref request = ''channel-digest-manifest:'' @ uuid_text (cn_manifest m)
             \<and> rq_manifest_sha256 request = cn_sha256 m
             \<and> rq_source_count request = cn_sources m
             \<and> rq_channel_count request = cn_channels m
          then Inr request else Inl Linkage_Invalid)"

definition i32_max :: nat where
  "i32_max = 2 ^ 31 - 1"

definition stored_manifest :: "canonical_manifest \<Rightarrow> manifest_row" where
  "stored_manifest m =
     \<lparr>man_id = cn_manifest m, man_run = cn_run m, man_owner = cn_owner m, man_sha256 = cn_sha256 m,
      man_sources = cn_sources m, man_channels = cn_channels m, man_text = Some (cn_text m),
      man_minimized = None\<rparr>"

definition queued_request ::
  "instant \<Rightarrow> uuid \<Rightarrow> canonical_manifest \<Rightarrow> recap_request \<Rightarrow> outbox_row" where
  "queued_request now fresh m request =
     \<lparr>out_id = fresh, out_subject = recap_subject, out_key = uuid_text (cn_run m),
      out_owner = cn_owner m, out_operation = Some (rq_operation request), out_causation = None,
      out_payload = Recap_Payload request, out_created = now, out_published = None,
      out_attempts = 0, out_next_attempt = now, out_failure = None\<rparr>"

text \<open>A run that can still be acquired, and the move out of it.\<close>

definition open_run :: "uuid \<Rightarrow> uuid \<Rightarrow> run_row \<Rightarrow> bool" where
  "open_run run owner r \<longleftrightarrow>
     run_id r = run \<and> run_owner r = owner \<and> run_state r \<in> {Accepted, Acquiring}"

definition waiting_run :: "uuid \<Rightarrow> uuid \<Rightarrow> run_row \<Rightarrow> bool" where
  "waiting_run run owner r \<longleftrightarrow>
     run_id r = run \<and> run_owner r = owner \<and> run_state r = Waiting_Recap"

definition enter_state :: "instant \<Rightarrow> run_state \<Rightarrow> run_row \<Rightarrow> run_row" where
  "enter_state now st r = r\<lparr>run_state := st, run_updated := now\<rparr>"

definition enter_failed :: "instant \<Rightarrow> string \<Rightarrow> run_row \<Rightarrow> run_row" where
  "enter_failed now class r = r\<lparr>run_state := Failed, run_failure := Some class, run_updated := now\<rparr>"

definition commit_manifest_body ::
  "instant \<Rightarrow> uuid \<Rightarrow> canonical_manifest \<Rightarrow> recap_request
     \<Rightarrow> (db, coordinator_error, (coordinator_error + intake_outcome) tx_end) io" where
  "commit_manifest_body now fresh m request =
     bind_io (guard Linkage_Invalid (cn_sources m \<le> i32_max \<and> cn_channels m \<le> i32_max)) (\<lambda>_.
     bind_io (stored (stmt (insert_manifest (stored_manifest m)))) (\<lambda>inserted.
     if \<not> inserted
     then bind_io (stored (stmt (query (\<lambda>d.
            map_option (\<lambda>r. (man_id r, man_owner r, man_sha256 r))
              (select_one (\<lambda>r. man_run r = cn_run m) (manifests d)))))) (\<lambda>existing.
          ret (Rollback
            (if existing = Some (cn_manifest m, cn_owner m, cn_sha256 m)
             then Inr Replayed else Inl Linkage_Invalid)))
     else bind_io (stored (stmt (insert_manifest_sources (cn_manifest m) (cn_messages m)))) (\<lambda>_.
       bind_io (stored (stmt (insert_outbox (queued_request now fresh m request)))) (\<lambda>_.
       bind_io (stored (stmt (update_runs (open_run (cn_run m) (cn_owner m))
           (enter_state now Waiting_Recap)))) (\<lambda>changed.
       bind_io (guard Linkage_Invalid (changed = 1)) (\<lambda>_.
       ret (Commit (Inr Applied))))))))"

definition commit_manifest ::
  "externals \<Rightarrow> instant \<Rightarrow> uuid \<Rightarrow> canonical_manifest \<Rightarrow> string
     \<Rightarrow> (db, coordinator_error, intake_outcome) io" where
  "commit_manifest x now fresh m raw =
     bind_io (from_result (checked_recap_request x m raw)) (\<lambda>request.
     bind_io (transaction Coordinator_Storage (commit_manifest_body now fresh m request)) (\<lambda>outcome.
     from_result outcome))"

section \<open>Ending a run without a recap\<close>

definition report_owned ::
  "externals \<Rightarrow> instant \<Rightarrow> uuid \<Rightarrow> uuid \<Rightarrow> uuid \<Rightarrow> (uuid \<Rightarrow> report_error + report_row)
     \<Rightarrow> (db, coordinator_error, unit) io" where
  "report_owned x now fresh run owner built =
     bind_io (reporting (on_demand_operation run owner)) (\<lambda>owned.
     case owned of
       None \<Rightarrow> ret ()
     | Some operation \<Rightarrow>
         bind_io (reporting (from_result (built operation))) (\<lambda>row.
         reporting (enqueue x now fresh row)))"

definition complete_empty_run ::
  "externals \<Rightarrow> instant \<Rightarrow> uuid \<Rightarrow> uuid \<Rightarrow> uuid \<Rightarrow> (db, coordinator_error, unit) io" where
  "complete_empty_run x now fresh run owner =
     transaction Coordinator_Storage
       (bind_io (stored (stmt (update_runs (open_run run owner) (enter_state now Completed)))) (\<lambda>changed.
        bind_io (guard Linkage_Invalid (changed = 1)) (\<lambda>_.
        bind_io (report_owned x now fresh run owner (\<lambda>operation.
          new_report x operation owner Op_Succeeded ''no_sources'')) (\<lambda>_.
        ret (Commit ())))))"

definition failed_run_report ::
  "externals \<Rightarrow> uuid \<Rightarrow> run_failure_reason \<Rightarrow> uuid \<Rightarrow> report_error + report_row" where
  "failed_run_report x owner failure operation =
     and_then (new_report x operation owner Op_Failed (failure_stage failure))
       (with_error x (failure_code failure) (failure_message failure) (failure_retryable failure))"

definition fail_run ::
  "externals \<Rightarrow> instant \<Rightarrow> uuid \<Rightarrow> uuid \<Rightarrow> uuid \<Rightarrow> run_failure_reason
     \<Rightarrow> (db, coordinator_error, unit) io" where
  "fail_run x now fresh run owner failure =
     transaction Coordinator_Storage
       (bind_io (stored (stmt (update_runs (open_run run owner)
           (enter_failed now (failure_class failure))))) (\<lambda>changed.
        bind_io (guard Linkage_Invalid (changed = 1)) (\<lambda>_.
        bind_io (report_owned x now fresh run owner (failed_run_report x owner failure)) (\<lambda>_.
        ret (Commit ())))))"

section \<open>Settling a Knowledge fact\<close>

definition strip_prefix :: "string \<Rightarrow> string \<Rightarrow> string option" where
  "strip_prefix p s = (if take (length p) s = p then Some (drop (length p) s) else None)"

text \<open>The stored result with its manifest; a column that is null does not decode.\<close>

record settled_result =
  sr_run :: uuid
  sr_owner :: uuid
  sr_manifest_sha256 :: string
  sr_recap :: uuid
  sr_digest :: string
  sr_outcome :: run_state
  sr_citations :: int

definition result_linkage :: "uuid \<Rightarrow> db \<Rightarrow> db_error + settled_result option" where
  "result_linkage result d =
     (case select_one (\<lambda>(r, m). res_id r = result \<and> man_id m = res_manifest r)
             (List.product (results d) (manifests d)) of
        None \<Rightarrow> Inr None
      | Some (r, m) \<Rightarrow>
          (case (res_recap r, res_digest r) of
             (Some recap, Some digest) \<Rightarrow> Inr (Some
               \<lparr>sr_run = res_run r, sr_owner = res_owner r, sr_manifest_sha256 = man_sha256 m,
                sr_recap = recap, sr_digest = digest, sr_outcome = res_outcome r,
                sr_citations = res_citations r\<rparr>)
           | _ \<Rightarrow> Inl Violation))"

definition run_with_manifest :: "uuid \<Rightarrow> uuid \<Rightarrow> db \<Rightarrow> (run_row \<times> manifest_row) option" where
  "run_with_manifest run owner d =
     select_one (\<lambda>(r, m). run_id r = run \<and> run_owner r = owner \<and> man_run m = run_id r)
       (List.product (runs d) (manifests d))"

definition owned_run_with_manifest :: "uuid \<Rightarrow> uuid \<Rightarrow> db \<Rightarrow> (run_row \<times> manifest_row) option" where
  "owned_run_with_manifest run owner d =
     select_one (\<lambda>(r, m). run_id r = run \<and> run_owner r = owner \<and> man_run m = run_id r \<and> man_owner m = owner)
       (List.product (runs d) (manifests d))"

text \<open>\<open>insert into digest_results ... select ... from digest_runs join digest_manifests\<close>\<close>

definition insert_completed_result ::
  "instant \<Rightarrow> completion_fact \<Rightarrow> uuid \<Rightarrow> run_state \<Rightarrow> (db, nat) statement" where
  "insert_completed_result now evt analysis outcome d =
     (case run_with_manifest (cf_run evt) (cf_owner evt) d of
        None \<Rightarrow> Inr (0, d)
      | Some (r, m) \<Rightarrow>
          (case insert_result
               \<lparr>res_id = cf_result evt, res_run = run_id r, res_manifest = man_id m,
                res_owner = run_owner r, res_outcome = outcome, res_recap = Some analysis,
                res_digest = Some (cf_result_sha256 evt), res_citations = int (cf_included evt),
                res_failure = None, res_created = now\<rparr> d of
             Inl e \<Rightarrow> Inl e
           | Inr (_, d') \<Rightarrow> Inr (1, d')))"

definition acquisition_flag :: "uuid \<Rightarrow> uuid \<Rightarrow> db \<Rightarrow> bool" where
  "acquisition_flag run owner d =
     (case select_one (\<lambda>r. run_id r = run \<and> run_owner r = owner) (runs d) of
        None \<Rightarrow> False | Some r \<Rightarrow> run_incomplete r)"

definition completion_outcome :: "completion_fact \<Rightarrow> bool \<Rightarrow> run_state" where
  "completion_outcome evt incomplete =
     (if cf_omitted evt = 0 \<and> \<not> incomplete then Completed else Partial)"

definition settle_completion_body ::
  "externals \<Rightarrow> instant \<Rightarrow> uuid \<Rightarrow> uuid \<Rightarrow> string \<Rightarrow> completion_fact \<Rightarrow> uuid \<Rightarrow> bool
     \<Rightarrow> (db, coordinator_error, intake_outcome tx_end) io" where
  "settle_completion_body x now fresh message payload evt analysis incomplete =
     (let outcome = completion_outcome evt incomplete in
      bind_io (stored (stmt (insert_inbox
        (open_inbox message completed_subject (uuid_text (cf_result evt)) (sha256 x payload))))) (\<lambda>inserted.
      if \<not> inserted then ret (Rollback Replayed)
      else bind_io (stored (stmt (insert_completed_result now evt analysis outcome))) (\<lambda>stored_rows.
        bind_io (guard Linkage_Invalid (stored_rows = 1)) (\<lambda>_.
        bind_io (stored (stmt (update_runs (waiting_run (cf_run evt) (cf_owner evt))
          (enter_state now outcome)))) (\<lambda>changed.
        bind_io (guard Linkage_Invalid (changed = 1)) (\<lambda>_.
        bind_io (reporting (report_completion x now fresh (cf_run evt) (cf_owner evt) message
          (cf_result_ref evt) (cf_omitted evt) incomplete)) (\<lambda>_.
        bind_io (stored (stmt (complete_inbox now message))) (\<lambda>_.
        ret (Commit Applied)))))))))"

definition settle_completion ::
  "externals \<Rightarrow> instant \<Rightarrow> uuid \<Rightarrow> uuid \<Rightarrow> string \<Rightarrow> (db, coordinator_error, intake_outcome) io" where
  "settle_completion x now fresh message payload =
     bind_io (ok_or Linkage_Invalid (decode_completion x payload)) (\<lambda>evt.
     bind_io (guard Linkage_Invalid (valid_completion x evt)) (\<lambda>_.
     bind_io (ok_or Linkage_Invalid
       (Option.bind (strip_prefix ''analysis:'' (cf_analysis_ref evt)) (parse_uuid x))) (\<lambda>analysis.
     bind_io (stored (pooled (query (acquisition_flag (cf_run evt) (cf_owner evt))))) (\<lambda>incomplete.
     bind_io (stored (pooled (reading (result_linkage (cf_result evt))))) (\<lambda>existing.
     case existing of
       Some linkage \<Rightarrow>
         if linkage = \<lparr>sr_run = cf_run evt, sr_owner = cf_owner evt,
              sr_manifest_sha256 = cf_manifest_sha256 evt, sr_recap = analysis,
              sr_digest = cf_result_sha256 evt, sr_outcome = completion_outcome evt incomplete,
              sr_citations = int (cf_included evt)\<rparr>
         then ret Replayed else raise Linkage_Invalid
     | None \<Rightarrow>
         bind_io (stored (pooled (query
           (owned_run_with_manifest (cf_run evt) (cf_owner evt))))) (\<lambda>durable.
         bind_io (ok_or Linkage_Invalid durable) (\<lambda>(r, m).
         bind_io (guard Linkage_Invalid
           (run_state r = Waiting_Recap \<and> cf_manifest_sha256 evt = man_sha256 m
            \<and> cf_selected evt = man_sources m \<and> cf_channels evt \<le> man_channels m)) (\<lambda>_.
         transaction Coordinator_Storage
           (settle_completion_body x now fresh message payload evt analysis incomplete)))))))))"

definition insert_failed_result ::
  "instant \<Rightarrow> uuid \<Rightarrow> failure_fact \<Rightarrow> uuid \<Rightarrow> string \<Rightarrow> (db, unit) statement" where
  "insert_failed_result now fresh evt manifest class =
     insert_result
       \<lparr>res_id = fresh, res_run = ff_run evt, res_manifest = manifest, res_owner = ff_owner evt,
        res_outcome = Failed, res_recap = None, res_digest = None, res_citations = 0,
        res_failure = Some class, res_created = now\<rparr>"

definition settle_failure_body ::
  "externals \<Rightarrow> instant \<Rightarrow> uuid \<Rightarrow> uuid \<Rightarrow> uuid \<Rightarrow> string \<Rightarrow> failure_fact \<Rightarrow> uuid
     \<Rightarrow> (db, coordinator_error, intake_outcome tx_end) io" where
  "settle_failure_body x now fresh_result fresh message payload evt manifest =
     (let (class, retryable) = classify_failure (ff_code evt) in
      bind_io (stored (stmt (insert_inbox
        (open_inbox message failed_subject (uuid_text (ff_run evt)) (sha256 x payload))))) (\<lambda>inserted.
      if \<not> inserted then ret (Rollback Replayed)
      else bind_io (stored (stmt (insert_failed_result now fresh_result evt manifest class))) (\<lambda>_.
        bind_io (stored (stmt (update_runs (waiting_run (ff_run evt) (ff_owner evt))
          (enter_failed now class)))) (\<lambda>changed.
        bind_io (guard Linkage_Invalid (changed = 1)) (\<lambda>_.
        bind_io (reporting (report_recap_failure x now fresh (ff_run evt) (ff_owner evt) message
          class retryable)) (\<lambda>_.
        bind_io (stored (stmt (complete_inbox now message))) (\<lambda>_.
        ret (Commit Applied))))))))"

definition settle_failure ::
  "externals \<Rightarrow> instant \<Rightarrow> uuid \<Rightarrow> uuid \<Rightarrow> uuid \<Rightarrow> string
     \<Rightarrow> (db, coordinator_error, intake_outcome) io" where
  "settle_failure x now fresh_result fresh message payload =
     bind_io (ok_or Linkage_Invalid (decode_failure x payload)) (\<lambda>evt.
     bind_io (guard Linkage_Invalid (valid_failure x evt)) (\<lambda>_.
     bind_io (stored (pooled (query (owned_run_with_manifest (ff_run evt) (ff_owner evt))))) (\<lambda>durable.
     bind_io (ok_or Linkage_Invalid durable) (\<lambda>(r, m).
     if run_state r = Failed then ret Replayed
     else bind_io (guard Linkage_Invalid
         (run_state r = Waiting_Recap \<and> ff_manifest_sha256 evt = man_sha256 m)) (\<lambda>_.
       transaction Coordinator_Storage
         (settle_failure_body x now fresh_result fresh message payload evt (man_id m)))))))"

section \<open>One schedule occurrence\<close>

definition due_subscription :: "instant \<Rightarrow> subscription_row \<Rightarrow> bool" where
  "due_subscription due s \<longleftrightarrow> sub_enabled s \<and> sub_first_activated s < due"

definition first_activation :: "instant \<Rightarrow> uuid \<Rightarrow> db \<Rightarrow> instant" where
  "first_activation due owner d =
     Min (set (map sub_first_activated
       (filter (\<lambda>s. due_subscription due s \<and> sub_owner s = owner) (subscriptions d))))"

text \<open>\<open>select owner_id, min(first_activated_at)::text ... group by owner_id order by owner_id\<close>\<close>

definition active_owners :: "externals \<Rightarrow> string \<Rightarrow> db \<Rightarrow> db_error + (uuid \<times> string) list" where
  "active_owners x due_at d =
     (case pg_parse x due_at of
        None \<Rightarrow> Inl Violation
      | Some due \<Rightarrow> Inr
          (map (\<lambda>owner. (owner, pg_text x (first_activation due owner d)))
            (sort (remdups (map sub_owner (filter (due_subscription due) (subscriptions d)))))))"

definition window_text ::
  "externals \<Rightarrow> string \<Rightarrow> string \<Rightarrow> string \<Rightarrow> db \<Rightarrow> db_error + string \<times> string" where
  "window_text x activation_at previous_due_at due_at d =
     (case (pg_parse x activation_at, pg_parse x previous_due_at, pg_parse x due_at) of
        (Some activation, Some previous, Some due) \<Rightarrow>
          (let (start, end) = normalized_window True activation (Some previous) due
           in Inr (pg_text x start, pg_text x end))
      | _ \<Rightarrow> Inl Violation)"

definition insert_scheduled_run ::
  "externals \<Rightarrow> instant \<Rightarrow> uuid \<Rightarrow> uuid \<Rightarrow> uuid \<Rightarrow> string \<Rightarrow> string \<times> string \<Rightarrow> language
     \<Rightarrow> (db, bool) statement" where
  "insert_scheduled_run x now fresh owner operation key window language d =
     (case (pg_parse x (fst window), pg_parse x (snd window)) of
        (Some start, Some end) \<Rightarrow>
          insert_run ((new_run now fresh owner operation Scheduled key start end)
            \<lparr>run_language := language\<rparr>) d
      | _ \<Rightarrow> Inl Violation)"

definition fan_out_owner ::
  "externals \<Rightarrow> instant \<Rightarrow> occurrence \<Rightarrow> uuid \<times> uuid \<times> string \<Rightarrow> (db, coordinator_error, unit) io" where
  "fan_out_owner x now oc =
     (\<lambda>(fresh, owner, activation_at).
        bind_io (stored (stmt (reading
          (window_text x activation_at (oc_previous oc) (oc_due oc))))) (\<lambda>window.
        bind_io (stored (stmt (insert_scheduled_run x now fresh owner (oc_operation oc) (oc_key oc)
          window (oc_language oc)))) (\<lambda>_. ret ())))"

text \<open>\<open>fan_out\<close>; \<open>fresh i\<close> is the identity drawn for the \<open>i\<close>-th owner.\<close>

definition fan_out ::
  "externals \<Rightarrow> instant \<Rightarrow> (nat \<Rightarrow> uuid) \<Rightarrow> occurrence \<Rightarrow> (db, coordinator_error, unit) io" where
  "fan_out x now fresh oc =
     bind_io (stored (stmt (reading (active_owners x (oc_due oc))))) (\<lambda>owners.
     for_each (fan_out_owner x now oc) (zip (map fresh [0..<length owners]) owners))"

definition accept_occurrence_body ::
  "externals \<Rightarrow> instant \<Rightarrow> uuid \<Rightarrow> (nat \<Rightarrow> uuid) \<Rightarrow> occurrence
     \<Rightarrow> (db, coordinator_error, intake_outcome tx_end) io" where
  "accept_occurrence_body x now fresh fresh_runs oc =
     bind_io (stored (stmt (insert_inbox
       (open_inbox (oc_message oc) occurrence_subject (oc_key oc) (sha256 x (oc_payload oc)))))) (\<lambda>inserted.
     if \<not> inserted then ret (Rollback Replayed)
     else bind_io (fan_out x now fresh_runs oc) (\<lambda>_.
       bind_io (reporting (from_result
         (new_report x (oc_operation oc) (oc_owner oc) Op_Succeeded ''fanned_out''))) (\<lambda>row.
       bind_io (reporting (enqueue x now fresh
         (caused_by (command_reference (oc_message oc)) row))) (\<lambda>_.
       bind_io (stored (stmt (complete_inbox now (oc_message oc)))) (\<lambda>_.
       ret (Commit Applied))))))"

definition accept_occurrence ::
  "externals \<Rightarrow> instant \<Rightarrow> uuid \<Rightarrow> (nat \<Rightarrow> uuid) \<Rightarrow> occurrence
     \<Rightarrow> (db, coordinator_error, intake_outcome) io" where
  "accept_occurrence x now fresh fresh_runs oc =
     bind_io (guard Linkage_Invalid
       (strip_prefix ''schedule-occurrence:'' (oc_key oc) \<noteq> None)) (\<lambda>_.
     transaction Coordinator_Storage (accept_occurrence_body x now fresh fresh_runs oc))"

section \<open>Atomicity\<close>

lemma steady_stored [steady_intros]: "steady m \<Longrightarrow> steady (stored m)"
  by (simp add: stored_def steady_map_err)

lemma wp_stored [wp_intros]: "wp m Q d \<Longrightarrow> wp (stored m) Q d"
  by (simp add: stored_def wp_map_err)

lemma steady_report_owned [steady_intros]: "steady (report_owned x now fresh run owner built)"
  unfolding report_owned_def by (intro steady_intros)

lemma steady_commit_manifest_body: "steady (commit_manifest_body now fresh m request)"
  unfolding commit_manifest_body_def by (intro steady_intros)

lemma steady_settle_completion_body:
  "steady (settle_completion_body x now fresh message payload evt analysis incomplete)"
  unfolding settle_completion_body_def Let_def by (intro steady_intros)

lemma steady_settle_failure_body:
  "steady (settle_failure_body x now fresh_result fresh message payload evt manifest)"
  unfolding settle_failure_body_def Let_def by (intro steady_intros)

lemma steady_fan_out [steady_intros]: "steady (fan_out x now fresh oc)"
proof -
  have "steady (fan_out_owner x now oc i)" for i
    unfolding fan_out_owner_def by (intro steady_intros)
  then show ?thesis unfolding fan_out_def by (intro steady_intros)
qed

lemma steady_accept_occurrence_body: "steady (accept_occurrence_body x now fresh fresh_runs oc)"
  unfolding accept_occurrence_body_def by (intro steady_intros)

lemma crash_safe_commit_manifest: "crash_safe (commit_manifest x now fresh m raw)"
  unfolding commit_manifest_def
  by (intro crash_intros steady_commit_manifest_body)

lemma crash_safe_complete_empty_run: "crash_safe (complete_empty_run x now fresh run owner)"
  unfolding complete_empty_run_def by (intro crash_intros steady_intros)

lemma crash_safe_fail_run: "crash_safe (fail_run x now fresh run owner failure)"
  unfolding fail_run_def by (intro crash_intros steady_intros)

lemma crash_safe_settle_completion: "crash_safe (settle_completion x now fresh message payload)"
  unfolding settle_completion_def stored_def
  by (intro crash_intros steady_settle_completion_body)

lemma crash_safe_settle_failure: "crash_safe (settle_failure x now fresh_result fresh message payload)"
  unfolding settle_failure_def stored_def
  by (intro crash_intros steady_settle_failure_body)

lemma crash_safe_accept_occurrence: "crash_safe (accept_occurrence x now fresh fresh_runs oc)"
  unfolding accept_occurrence_def by (intro crash_intros steady_accept_occurrence_body)

section \<open>Replay\<close>

lemma wp_insert_manifest [wp_intros]:
  assumes "man_run m \<notin> man_run ` set (manifests d) \<Longrightarrow> man_id m \<notin> man_id ` set (manifests d)
      \<Longrightarrow> man_run m \<in> run_id ` set (runs d) \<Longrightarrow> Q True (d\<lparr>manifests := manifests d @ [m]\<rparr>)"
    and "man_run m \<in> man_run ` set (manifests d) \<Longrightarrow> Q False d"
  shows "wp (stmt (insert_manifest m)) Q d"
  by (rule wp_stmt) (use assms in \<open>auto simp: insert_manifest_def split: if_splits\<close>)

lemma wp_insert_manifest_sources [wp_intros]:
  assumes "Q () (d\<lparr>manifest_sources := manifest_sources d @ map (Pair m) held\<rparr>)"
  shows "wp (stmt (insert_manifest_sources m held)) Q d"
  by (rule wp_stmt) (use assms in \<open>auto simp: insert_manifest_sources_def Let_def split: if_splits\<close>)

lemma wp_insert_outbox [wp_intros]:
  assumes "\<not> outbox_conflict (out_subject r) (out_key r) d \<Longrightarrow> Q () (d\<lparr>outbox := outbox d @ [r]\<rparr>)"
  shows "wp (stmt (insert_outbox r)) Q d"
  by (rule wp_stmt) (use assms in \<open>auto simp: insert_outbox_def split: if_splits\<close>)

lemma wp_insert_completed_result [wp_intros]:
  assumes "\<And>r. Q 1 (d\<lparr>results := results d @ [r]\<rparr>)" and "Q 0 d"
  shows "wp (stmt (insert_completed_result now evt analysis outcome)) Q d"
  by (rule wp_stmt)
    (use assms in \<open>auto simp: insert_completed_result_def insert_result_def
      split: option.splits if_splits\<close>)

lemma wp_insert_failed_result [wp_intros]:
  assumes "\<And>r. Q () (d\<lparr>results := results d @ [r]\<rparr>)"
  shows "wp (stmt (insert_failed_result now fresh evt manifest class)) Q d"
  by (rule wp_stmt)
    (use assms in \<open>auto simp: insert_failed_result_def insert_result_def split: if_splits\<close>)

lemma inbox_conflict_frames [simp]:
  "inbox_conflict m s k (d\<lparr>results := rs\<rparr>) = inbox_conflict m s k d"
  "inbox_conflict m s k (d\<lparr>manifests := ms\<rparr>) = inbox_conflict m s k d"
  "inbox_conflict m s k (d\<lparr>inbox := inbox d'\<rparr>) = inbox_conflict m s k d'"
  by (simp_all add: inbox_conflict_def)

text \<open>A manifest is committed at most once per run.\<close>

definition manifest_committed :: "uuid \<Rightarrow> db \<Rightarrow> bool" where
  "manifest_committed run d \<longleftrightarrow> run \<in> man_run ` set (manifests d)"

lemma wp_commit_manifest_body:
  "wp (commit_manifest_body now fresh m request)
     (\<lambda>t d'. committed t \<longrightarrow> manifest_committed (cn_run m) d') d"
  unfolding commit_manifest_body_def
  by (intro wp_intros) (simp_all add: manifest_committed_def stored_manifest_def)

lemma wp_commit_manifest_body_again:
  "manifest_committed (cn_run m) d
     \<Longrightarrow> wp (commit_manifest_body now fresh m request) (\<lambda>t d'. \<not> committed t) d"
  unfolding commit_manifest_body_def
  by (intro wp_intros) (simp_all add: manifest_committed_def stored_manifest_def)

lemma commit_manifest_effect:
  "effect_of (commit_manifest x now fresh m raw) d = d
     \<or> manifest_committed (cn_run m) (effect_of (commit_manifest x now fresh m raw) d)"
  using effect_of_transaction [OF wp_commit_manifest_body]
  by (simp add: commit_manifest_def effect_of_binds split: sum.split)

lemma commit_manifest_again:
  "manifest_committed (cn_run m) d \<Longrightarrow> effect_of (commit_manifest x now fresh m raw) d = d"
  using effect_of_uncommitted [OF wp_commit_manifest_body_again]
  by (simp add: commit_manifest_def effect_of_binds split: sum.split)

interpretation manifest_commit:
  replay_guarded "\<lambda>c. commit_manifest x (fst c) (snd c) m raw" "manifest_committed (cn_run m)"
  for x m raw
  by unfold_locales
    (use commit_manifest_effect commit_manifest_again crash_safe_commit_manifest in blast)+

text \<open>A Knowledge fact and a schedule occurrence leave their inbox row.\<close>

definition completion_handled :: "externals \<Rightarrow> uuid \<Rightarrow> string \<Rightarrow> db \<Rightarrow> bool" where
  "completion_handled x message payload d \<longleftrightarrow>
     (case decode_completion x payload of
        None \<Rightarrow> True
      | Some evt \<Rightarrow> inbox_conflict message completed_subject (uuid_text (cf_result evt)) d)"

definition failure_handled :: "externals \<Rightarrow> uuid \<Rightarrow> string \<Rightarrow> db \<Rightarrow> bool" where
  "failure_handled x message payload d \<longleftrightarrow>
     (case decode_failure x payload of
        None \<Rightarrow> True
      | Some evt \<Rightarrow> inbox_conflict message failed_subject (uuid_text (ff_run evt)) d)"

definition occurrence_handled :: "occurrence \<Rightarrow> db \<Rightarrow> bool" where
  "occurrence_handled oc = inbox_conflict (oc_message oc) occurrence_subject (oc_key oc)"

lemma wp_settle_completion_body:
  "wp (settle_completion_body x now fresh message payload evt analysis incomplete)
     (\<lambda>t d'. committed t \<longrightarrow> inbox_conflict message completed_subject (uuid_text (cf_result evt)) d') d"
  unfolding settle_completion_body_def Let_def by (intro wp_intros) simp_all

lemma wp_settle_completion_body_again:
  "inbox_conflict message completed_subject (uuid_text (cf_result evt)) d
     \<Longrightarrow> wp (settle_completion_body x now fresh message payload evt analysis incomplete)
           (\<lambda>t d'. \<not> committed t) d"
  unfolding settle_completion_body_def Let_def by (intro wp_intros) simp_all

lemma wp_settle_failure_body:
  "wp (settle_failure_body x now fresh_result fresh message payload evt manifest)
     (\<lambda>t d'. committed t \<longrightarrow> inbox_conflict message failed_subject (uuid_text (ff_run evt)) d') d"
  unfolding settle_failure_body_def Let_def by (intro wp_intros) simp_all

lemma wp_settle_failure_body_again:
  "inbox_conflict message failed_subject (uuid_text (ff_run evt)) d
     \<Longrightarrow> wp (settle_failure_body x now fresh_result fresh message payload evt manifest)
           (\<lambda>t d'. \<not> committed t) d"
  unfolding settle_failure_body_def Let_def by (intro wp_intros) simp_all

lemma settle_completion_effect:
  "effect_of (settle_completion x now fresh message payload) d = d
     \<or> completion_handled x message payload (effect_of (settle_completion x now fresh message payload) d)"
  using effect_of_transaction [OF wp_settle_completion_body]
  by (simp add: settle_completion_def completion_handled_def effect_of_binds stored_def
      split: option.split sum.split prod.split)

lemma settle_completion_again:
  "completion_handled x message payload d
     \<Longrightarrow> effect_of (settle_completion x now fresh message payload) d = d"
  using effect_of_uncommitted [OF wp_settle_completion_body_again]
  by (cases "decode_completion x payload")
    (simp_all add: settle_completion_def completion_handled_def effect_of_binds stored_def
      split: option.split sum.split prod.split)

interpretation completion_settlement:
  replay_guarded "\<lambda>c. settle_completion x (fst c) (snd c) message payload"
    "completion_handled x message payload"
  for x message payload
  by unfold_locales
    (use settle_completion_effect settle_completion_again crash_safe_settle_completion in blast)+

lemma settle_failure_effect:
  "effect_of (settle_failure x now fresh_result fresh message payload) d = d
     \<or> failure_handled x message payload
         (effect_of (settle_failure x now fresh_result fresh message payload) d)"
  using effect_of_transaction [OF wp_settle_failure_body]
  by (simp add: settle_failure_def failure_handled_def effect_of_binds stored_def
      split: option.split sum.split prod.split)

lemma settle_failure_again:
  "failure_handled x message payload d
     \<Longrightarrow> effect_of (settle_failure x now fresh_result fresh message payload) d = d"
  using effect_of_uncommitted [OF wp_settle_failure_body_again]
  by (cases "decode_failure x payload")
    (simp_all add: settle_failure_def failure_handled_def effect_of_binds stored_def
      split: option.split sum.split prod.split)

interpretation failure_settlement:
  replay_guarded "\<lambda>c. settle_failure x (fst c) (fst (snd c)) (snd (snd c)) message payload"
    "failure_handled x message payload"
  for x message payload
  by unfold_locales
    (use settle_failure_effect settle_failure_again crash_safe_settle_failure in blast)+

text \<open>Fan-out only adds scheduled runs.\<close>

lemma wp_fan_out:
  assumes I: "I d"
    and add: "\<And>d r. I d \<Longrightarrow> run_trigger r = Scheduled \<Longrightarrow> run_state r = Accepted
        \<Longrightarrow> run_id r \<notin> run_id ` set (runs d) \<Longrightarrow> natural_key r \<notin> natural_key ` set (runs d)
        \<Longrightarrow> run_start r < run_end r \<Longrightarrow> I (d\<lparr>runs := runs d @ [r]\<rparr>)"
  shows "wp (fan_out x now fresh oc) (\<lambda>_. I) d"
proof -
  have insert: "wp (stmt (insert_scheduled_run x now f owner operation key window language)) (\<lambda>_. I) d"
    if "I d" for f owner operation key window language d
  proof (rule wp_stmt)
    fix b d'
    assume "insert_scheduled_run x now f owner operation key window language d = Inr (b, d')"
    then obtain s e where "insert_run ((new_run now f owner operation Scheduled key s e)
        \<lparr>run_language := language\<rparr>) d = Inr (b, d')"
      by (auto simp: insert_scheduled_run_def split: option.splits)
    then show "I d'"
    proof (cases rule: insert_run_cases)
      case inserted
      then show ?thesis using that by (auto intro!: add simp: new_run_def)
    qed (simp add: that)
  qed
  have one: "wp (fan_out_owner x now oc i) (\<lambda>_. I) d" if "I d" for i d
    unfolding fan_out_owner_def by (intro wp_intros wp_mono [OF insert]) (simp_all add: that)
  show ?thesis
    unfolding fan_out_def by (intro wp_intros wp_for_each one) (simp_all add: I)
qed

lemma wp_fan_out_then:
  assumes "I d" and "\<And>d r. I d \<Longrightarrow> run_trigger r = Scheduled \<Longrightarrow> run_state r = Accepted
        \<Longrightarrow> run_id r \<notin> run_id ` set (runs d) \<Longrightarrow> natural_key r \<notin> natural_key ` set (runs d)
        \<Longrightarrow> run_start r < run_end r \<Longrightarrow> I (d\<lparr>runs := runs d @ [r]\<rparr>)"
    and "\<And>d'. I d' \<Longrightarrow> Q () d'"
  shows "wp (fan_out x now fresh oc) Q d"
  by (rule wp_mono, rule wp_fan_out [where I = I]) (use assms in \<open>auto simp: unit_all_eq1\<close>)

lemma wp_accept_occurrence_body:
  "wp (accept_occurrence_body x now fresh fresh_runs oc)
     (\<lambda>t d'. committed t \<longrightarrow> occurrence_handled oc d') d"
  unfolding accept_occurrence_body_def
  by (intro wp_intros wp_fan_out_then [where I = "occurrence_handled oc"])
    (simp_all add: occurrence_handled_def report_builders)

lemma wp_accept_occurrence_body_again:
  "occurrence_handled oc d
     \<Longrightarrow> wp (accept_occurrence_body x now fresh fresh_runs oc) (\<lambda>t d'. \<not> committed t) d"
  unfolding accept_occurrence_body_def by (intro wp_intros) (simp_all add: occurrence_handled_def)

lemma accept_occurrence_effect:
  "effect_of (accept_occurrence x now fresh fresh_runs oc) d = d
     \<or> occurrence_handled oc (effect_of (accept_occurrence x now fresh fresh_runs oc) d)"
  using effect_of_transaction [OF wp_accept_occurrence_body]
  by (simp add: accept_occurrence_def effect_of_binds)

lemma accept_occurrence_again:
  "occurrence_handled oc d \<Longrightarrow> effect_of (accept_occurrence x now fresh fresh_runs oc) d = d"
  using effect_of_uncommitted [OF wp_accept_occurrence_body_again]
  by (simp add: accept_occurrence_def effect_of_binds)

interpretation occurrence_intake:
  replay_guarded "\<lambda>c. accept_occurrence x (fst c) (fst (snd c)) (snd (snd c)) oc" "occurrence_handled oc"
  for x oc
  by unfold_locales
    (use accept_occurrence_effect accept_occurrence_again crash_safe_accept_occurrence in blast)+

section \<open>The life cycle of the runs\<close>

lemma enter_state_moves: "moves_to st (enter_state now st)"
  by (simp add: moves_to_def keeps_keys_def natural_key_def enter_state_def)

lemma enter_failed_moves: "moves_to Failed (enter_failed now class)"
  by (simp add: moves_to_def keeps_keys_def natural_key_def enter_failed_def)

lemma wp_report_owned [wp_intros]:
  assumes "select_one (owns_on_demand run owner) (runs d) = None \<Longrightarrow> Q () d"
    and "\<And>r row. select_one (owns_on_demand run owner) (runs d) = Some r
      \<Longrightarrow> built (run_operation r) = Inr row \<Longrightarrow> Q () (put_once (queued_report now fresh row) d)"
  shows "wp (report_owned x now fresh run owner built) Q d"
  unfolding report_owned_def by (intro wp_intros) (auto intro: assms)

lemma lifecycle_commit_manifest:
  "preserves lifecycle_ok (transaction u (commit_manifest_body now fresh m request))"
proof (rule preserves_transaction)
  fix d
  assume ok: "lifecycle_ok d"
  let ?q = "queued_request now fresh m request"
  have ok': "lifecycle_ok (d\<lparr>outbox := outbox d @ [?q]\<rparr>)"
    by (rule lifecycle_ok_appended [OF ok, where q = ?q])
      (simp_all add: queued_request_def recap_subject_def report_subject_def)
  show "wp (commit_manifest_body now fresh m request) (\<lambda>t d'. committed t \<longrightarrow> lifecycle_ok d') d"
    unfolding commit_manifest_body_def
    by (intro wp_intros; simp?)
      (rule lifecycle_ok_moved [OF ok' enter_state_moves [of Waiting_Recap now], where
          p = "open_run (cn_run m) (cn_owner m)"], auto simp: open_run_def)
qed

lemma lifecycle_complete_empty_run: "preserves lifecycle_ok (complete_empty_run x now fresh run owner)"
  unfolding complete_empty_run_def
proof (rule preserves_transaction)
  fix d
  assume ok: "lifecycle_ok d"
  note moved = lifecycle_ok_moved [OF ok enter_state_moves [of Completed now],
      where p = "open_run run owner" and run = run and owner = owner]
  show "wp (bind_io (stored (stmt (update_runs (open_run run owner) (enter_state now Completed)))) (\<lambda>changed.
        bind_io (guard Linkage_Invalid (changed = 1)) (\<lambda>_.
        bind_io (report_owned x now fresh run owner (\<lambda>operation.
          new_report x operation owner Op_Succeeded ''no_sources'')) (\<lambda>_.
        ret (Commit ()))))) (\<lambda>t d'. committed t \<longrightarrow> lifecycle_ok d') d"
    by (intro wp_intros; simp?)
      (rule moved; auto simp: open_run_def report_builders intro!: queuesI)+
qed

lemma lifecycle_fail_run: "preserves lifecycle_ok (fail_run x now fresh run owner failure)"
  unfolding fail_run_def
proof (rule preserves_transaction)
  fix d
  assume ok: "lifecycle_ok d"
  note moved = lifecycle_ok_moved [OF ok enter_failed_moves [of now "failure_class failure"],
      where p = "open_run run owner" and run = run and owner = owner]
  show "wp (bind_io (stored (stmt (update_runs (open_run run owner)
           (enter_failed now (failure_class failure))))) (\<lambda>changed.
        bind_io (guard Linkage_Invalid (changed = 1)) (\<lambda>_.
        bind_io (report_owned x now fresh run owner (failed_run_report x owner failure)) (\<lambda>_.
        ret (Commit ()))))) (\<lambda>t d'. committed t \<longrightarrow> lifecycle_ok d') d"
    by (intro wp_intros; simp?)
      (rule moved; auto simp: open_run_def failed_run_report_def report_builders intro!: queuesI)+
qed

lemma completion_status:
  "state_status (completion_outcome evt incomplete)
     = Some (if cf_omitted evt = 0 \<and> \<not> incomplete then Op_Succeeded else Op_Partially_Succeeded)"
  by (simp add: completion_outcome_def)

lemma lifecycle_settle_completion:
  "preserves lifecycle_ok (transaction u
     (settle_completion_body x now fresh message payload evt analysis incomplete))"
proof (rule preserves_transaction)
  fix d
  assume ok: "lifecycle_ok d"
  note moved = lifecycle_ok_moved [OF ok enter_state_moves [of "completion_outcome evt incomplete" now],
      where p = "waiting_run (cf_run evt) (cf_owner evt)" and run = "cf_run evt" and owner = "cf_owner evt"]
  show "wp (settle_completion_body x now fresh message payload evt analysis incomplete)
          (\<lambda>t d'. committed t \<longrightarrow> lifecycle_ok d') d"
    unfolding settle_completion_body_def Let_def
    by (intro wp_intros; simp?)
      (rule moved; auto simp: waiting_run_def completion_status completion_report_Inr intro!: queuesI)+
qed

lemma lifecycle_settle_failure:
  "preserves lifecycle_ok (transaction u
     (settle_failure_body x now fresh_result fresh message payload evt manifest))"
proof (rule preserves_transaction)
  fix d
  assume ok: "lifecycle_ok d"
  obtain cls retryable where cls: "classify_failure (ff_code evt) = (cls, retryable)" by force
  note moved = lifecycle_ok_moved [OF ok enter_failed_moves [of now cls],
      where p = "waiting_run (ff_run evt) (ff_owner evt)" and run = "ff_run evt" and owner = "ff_owner evt"]
  show "wp (settle_failure_body x now fresh_result fresh message payload evt manifest)
          (\<lambda>t d'. committed t \<longrightarrow> lifecycle_ok d') d"
    unfolding settle_failure_body_def cls Let_def prod.case
    by (intro wp_intros; simp?)
      (rule moved; auto simp: waiting_run_def recap_failure_report_Inr intro!: queuesI)+
qed

lemma lifecycle_ok_scheduled:
  assumes ok: "lifecycle_ok d" and r: "run_trigger r = Scheduled"
    and "run_id r \<notin> run_id ` set (runs d)" "natural_key r \<notin> natural_key ` set (runs d)"
    and "run_start r < run_end r"
  shows "lifecycle_ok (d\<lparr>runs := runs d @ [r]\<rparr>)"
  using assms by (auto simp: lifecycle_ok_def runs_ok_def announced_def)

lemma lifecycle_accept_occurrence:
  "preserves lifecycle_ok (transaction u (accept_occurrence_body x now fresh fresh_runs oc))"
proof (rule preserves_transaction)
  fix d
  assume ok: "lifecycle_ok d"
  show "wp (accept_occurrence_body x now fresh fresh_runs oc)
          (\<lambda>t d'. committed t \<longrightarrow> lifecycle_ok d') d"
    unfolding accept_occurrence_body_def
    apply (intro wp_intros wp_fan_out_then [where I = lifecycle_ok]; simp?)
      apply (rule iffD2 [OF lifecycle_ok_cong ok]; simp)
     apply (rule lifecycle_ok_scheduled; simp)
    by (rule lifecycle_ok_report, assumption) (auto simp: report_builders intro!: queuesI)
qed

end
