(* ===== verification/Revisions.thy ===== *)
theory Revisions
  imports Schema
begin

text \<open>
  \<open>src/revisions.rs\<close> with the function \<open>append_revision\<close> of \<open>src/schema.sql\<close>: the observed bodies
  of a message, kept once per content, and the withdrawal of the messages that a provider page
  proves are gone.
\<close>

section \<open>Observations\<close>

record observed_revision =
  ob_channel :: uuid
  ob_message :: int
  ob_body :: string
  ob_link :: string
  ob_published :: string
  ob_observed :: string

definition revision_key :: "revision \<Rightarrow> uuid \<times> int \<times> string" where
  "revision_key r = (rev_channel r, rev_message r, rev_sha256 r)"

definition append_revision ::
  "uuid \<Rightarrow> uuid \<Rightarrow> int \<Rightarrow> string \<Rightarrow> string \<Rightarrow> string \<Rightarrow> instant \<Rightarrow> instant \<Rightarrow> (db, uuid) statement" where
  "append_revision fresh channel message digest body link published observed d =
     (case select_one (\<lambda>r. revision_key r = (channel, message, digest)) (revisions d) of
        Some r \<Rightarrow> if length digest = 64 then Inr (rev_id r, d) else Inl Violation
      | None \<Rightarrow>
          if length digest \<noteq> 64 \<or> fresh \<in> rev_id ` set (revisions d)
             \<or> channel \<notin> ch_id ` set (channels d)
          then Inl Violation
          else Inr (fresh, d\<lparr>revisions := revisions d @
                 [\<lparr>rev_id = fresh, rev_channel = channel, rev_message = message,
                   rev_sha256 = digest, rev_body = Some body, rev_published = published,
                   rev_observed = observed, rev_link = link, rev_deleted = None,
                   rev_minimized = None\<rparr>]\<rparr>))"

definition append ::
  "externals \<Rightarrow> uuid \<Rightarrow> observed_revision \<Rightarrow> (db, unit, uuid) io" where
  "append x fresh ob =
     map_err (\<lambda>_. ()) (pooled (\<lambda>d.
       case (pg_parse x (ob_published ob), pg_parse x (ob_observed ob)) of
         (Some published, Some observed) \<Rightarrow>
           append_revision fresh (ob_channel ob) (ob_message ob) (sha256 x (ob_body ob))
             (ob_body ob) (ob_link ob) published observed d
       | _ \<Rightarrow> Inl Violation))"

section \<open>Withdrawal\<close>

record proved_range =
  pr_lowest :: int
  pr_below :: "int option"

record withdrawn =
  wd_revisions :: nat
  wd_manifests :: nat

text \<open>The messages a page withdraws: inside the proved range and not present, or marked deleted.\<close>

definition withdraws :: "proved_range \<Rightarrow> int list \<Rightarrow> int list \<Rightarrow> int \<Rightarrow> bool" where
  "withdraws proved present deleted m \<longleftrightarrow>
     (pr_lowest proved \<le> m \<and> (case pr_below proved of None \<Rightarrow> True | Some b \<Rightarrow> m < b)
        \<and> m \<notin> set present)
     \<or> m \<in> set deleted"

definition withdrawn_revision :: "instant \<Rightarrow> revision \<Rightarrow> revision" where
  "withdrawn_revision now r =
     r\<lparr>rev_deleted := Some now, rev_body := None,
       rev_minimized := (case rev_minimized r of None \<Rightarrow> Some now | Some t \<Rightarrow> Some t)\<rparr>"

definition minimized_manifest :: "instant \<Rightarrow> manifest_row \<Rightarrow> manifest_row" where
  "minimized_manifest now m = m\<lparr>man_text := None, man_minimized := Some now\<rparr>"

definition withdrawn_row :: "uuid \<Rightarrow> (int \<Rightarrow> bool) \<Rightarrow> revision \<Rightarrow> bool" where
  "withdrawn_row channel gone r \<longleftrightarrow> rev_channel r = channel \<and> rev_deleted r = None \<and> gone (rev_message r)"

definition holds_withdrawn :: "uuid \<Rightarrow> (int \<Rightarrow> bool) \<Rightarrow> db \<Rightarrow> manifest_row \<Rightarrow> bool" where
  "holds_withdrawn channel gone d m \<longleftrightarrow>
     man_text m \<noteq> None
     \<and> list_ex (\<lambda>(manifest, c, message). manifest = man_id m \<and> c = channel \<and> gone message)
         (manifest_sources d)"

text \<open>Both updates of the statement read the tables as they were before it.\<close>

definition withdraw ::
  "instant \<Rightarrow> uuid \<Rightarrow> proved_range \<Rightarrow> int list \<Rightarrow> int list \<Rightarrow> (db, withdrawn) statement" where
  "withdraw now channel proved present deleted d =
     (let gone = withdraws proved present deleted;
          p = withdrawn_row channel gone; q = holds_withdrawn channel gone d
      in Inr (\<lparr>wd_revisions = count_where p (revisions d), wd_manifests = count_where q (manifests d)\<rparr>,
           d\<lparr>revisions := update_where p (withdrawn_revision now) (revisions d),
             manifests := update_where q (minimized_manifest now) (manifests d)\<rparr>))"

definition withdraw_missing ::
  "instant \<Rightarrow> uuid \<Rightarrow> proved_range \<Rightarrow> int list \<Rightarrow> int list \<Rightarrow> (db, unit, withdrawn) io" where
  "withdraw_missing now channel proved present deleted =
     map_err (\<lambda>_. ()) (pooled (withdraw now channel proved present deleted))"

section \<open>What is kept\<close>

text \<open>
  The identity, digest, times and link of a revision never change; its body may be lost once.
\<close>

definition provenance :: "revision \<Rightarrow> uuid \<times> uuid \<times> int \<times> string \<times> instant \<times> instant \<times> string" where
  "provenance r = (rev_id r, rev_channel r, rev_message r, rev_sha256 r, rev_published r,
     rev_observed r, rev_link r)"

definition manifest_evidence :: "manifest_row \<Rightarrow> uuid \<times> uuid \<times> uuid \<times> string \<times> nat \<times> nat" where
  "manifest_evidence m = (man_id m, man_run m, man_owner m, man_sha256 m, man_sources m, man_channels m)"

text \<open>The keys and checks of the revision table; a stored body is the one its digest names.\<close>

definition revision_checks :: "externals \<Rightarrow> revision \<Rightarrow> bool" where
  "revision_checks x r \<longleftrightarrow>
     (case rev_body r of None \<Rightarrow> True | Some b \<Rightarrow> rev_sha256 r = sha256 x b \<and> rev_deleted r = None)"

definition revisions_ok :: "externals \<Rightarrow> revision list \<Rightarrow> bool" where
  "revisions_ok x rows \<longleftrightarrow>
     unique_by rev_id rows \<and> unique_by revision_key rows \<and> list_all (revision_checks x) rows"

lemma append_revision_cases:
  assumes "append_revision fresh channel message digest body link published observed d = Inr (i, d')"
  obtains (known) r where "r \<in> set (revisions d)" and "revision_key r = (channel, message, digest)"
      and "i = rev_id r" and "d' = d"
    | (appended) "i = fresh" and "fresh \<notin> rev_id ` set (revisions d)"
      and "\<forall>r \<in> set (revisions d). revision_key r \<noteq> (channel, message, digest)"
      and "d' = d\<lparr>revisions := revisions d @
             [\<lparr>rev_id = fresh, rev_channel = channel, rev_message = message,
               rev_sha256 = digest, rev_body = Some body, rev_published = published,
               rev_observed = observed, rev_link = link, rev_deleted = None,
               rev_minimized = None\<rparr>]\<rparr>"
proof (cases "select_one (\<lambda>r. revision_key r = (channel, message, digest)) (revisions d)")
  case None
  then have "\<forall>r \<in> set (revisions d). revision_key r \<noteq> (channel, message, digest)"
    by (simp add: select_one_None)
  with None assms show thesis
    by (intro appended) (auto simp: append_revision_def split: if_splits)
next
  case (Some r)
  from select_one_Some [OF this] Some assms show thesis
    by (intro known [of r]) (auto simp: append_revision_def split: if_splits)
qed

lemma append_revision_ok:
  assumes "revisions_ok x (revisions d)"
    and "append_revision fresh channel message (sha256 x body) body link published observed d = Inr (i, d')"
  shows "revisions_ok x (revisions d')"
  using assms(2,1)
  by (cases rule: append_revision_cases)
    (auto simp: revisions_ok_def revision_key_def revision_checks_def)

lemma withdrawn_provenance [simp]:
  "provenance (withdrawn_revision now r) = provenance r"
  "manifest_evidence (minimized_manifest now m) = manifest_evidence m"
  by (simp_all add: withdrawn_revision_def minimized_manifest_def provenance_def manifest_evidence_def)

lemma map_withdraw_provenance:
  "map provenance (update_where p (withdrawn_revision now) rows) = map provenance rows"
  "map manifest_evidence (update_where q (minimized_manifest now) ms) = map manifest_evidence ms"
  by (simp_all add: map_update_where)

lemma revisions_ok_update:
  assumes ok: "revisions_ok x rows"
    and prov: "\<And>r. provenance (f r) = provenance r" and checks: "\<And>r. revision_checks x r \<Longrightarrow> revision_checks x (f r)"
  shows "revisions_ok x (update_where p f rows)"
proof -
  have "rev_id (f r) = rev_id r" and "revision_key (f r) = revision_key r" for r
    using prov [of r] by (simp_all add: provenance_def revision_key_def)
  then have "map rev_id (update_where p f rows) = map rev_id rows"
    and "map revision_key (update_where p f rows) = map revision_key rows"
    by (simp_all add: map_update_where)
  with ok checks show ?thesis by (auto simp: revisions_ok_def list_all_iff set_update_where)
qed

lemma withdraw_ok:
  assumes "revisions_ok x (revisions d)" and "withdraw now channel proved present deleted d = Inr (v, d')"
  shows "revisions_ok x (revisions d')"
  using assms
  by (auto simp: withdraw_def Let_def revision_checks_def withdrawn_revision_def provenance_def
      intro!: revisions_ok_update)

end
