(* ===== verification/Retention.thy ===== *)
theory Retention
  imports Revisions
begin

text \<open>
  \<open>src/maintenance.rs\<close> and \<open>src/retention.rs\<close>: the batches that drop the text of old posts and of
  the manifests of settled runs, the sweep over both, and its counters.
\<close>

section \<open>Batches\<close>

definition expired_body :: "instant \<Rightarrow> revision \<Rightarrow> bool" where
  "expired_body before r \<longleftrightarrow> rev_published r < before \<and> rev_body r \<noteq> None"

text \<open>\<open>locked\<close>: the rows that \<open>for update skip locked\<close> passes over.\<close>

definition body_batch :: "instant \<Rightarrow> nat \<Rightarrow> uuid set \<Rightarrow> db \<Rightarrow> revision list" where
  "body_batch before limit locked d =
     oldest (\<lambda>r. (rev_published r, rev_id r)) limit
       (\<lambda>r. expired_body before r \<and> rev_id r \<notin> locked) (revisions d)"

definition minimized_revision :: "instant \<Rightarrow> revision \<Rightarrow> revision" where
  "minimized_revision now r = r\<lparr>rev_body := None, rev_minimized := Some now\<rparr>"

definition minimize_bodies :: "instant \<Rightarrow> instant \<Rightarrow> nat \<Rightarrow> uuid set \<Rightarrow> (db, nat) statement" where
  "minimize_bodies now before limit locked d =
     (let p = named rev_id (body_batch before limit locked d)
      in Inr (count_where p (revisions d),
           d\<lparr>revisions := update_where p (minimized_revision now) (revisions d)\<rparr>))"

definition minimize_before ::
  "externals \<Rightarrow> instant \<Rightarrow> uuid set \<Rightarrow> string \<Rightarrow> nat \<Rightarrow> (db, unit, nat) io" where
  "minimize_before x now locked before limit =
     map_err (\<lambda>_. ()) (pooled (\<lambda>d.
       case pg_parse x before of
         None \<Rightarrow> Inl Violation
       | Some t \<Rightarrow> minimize_bodies now t limit locked d))"

text \<open>The manifests of settled runs with their run, in the order the batch takes them.\<close>

definition expired_manifest :: "instant \<Rightarrow> run_row \<times> manifest_row \<Rightarrow> bool" where
  "expired_manifest before = (\<lambda>(r, m).
     run_id r = man_run m \<and> man_text m \<noteq> None \<and> terminal (run_state r) \<and> run_start r < before)"

definition manifest_batch :: "instant \<Rightarrow> nat \<Rightarrow> uuid set \<Rightarrow> db \<Rightarrow> (run_row \<times> manifest_row) list" where
  "manifest_batch before limit locked d =
     oldest (\<lambda>(r, m). (run_start r, man_id m)) limit
       (\<lambda>rm. expired_manifest before rm \<and> man_id (snd rm) \<notin> locked)
       (List.product (runs d) (manifests d))"

definition minimize_manifests :: "instant \<Rightarrow> instant \<Rightarrow> nat \<Rightarrow> uuid set \<Rightarrow> (db, nat) statement" where
  "minimize_manifests now before limit locked d =
     (let p = named man_id (map snd (manifest_batch before limit locked d))
      in Inr (count_where p (manifests d),
           d\<lparr>manifests := update_where p (minimized_manifest now) (manifests d)\<rparr>))"

definition minimize_manifests_before ::
  "externals \<Rightarrow> instant \<Rightarrow> uuid set \<Rightarrow> string \<Rightarrow> nat \<Rightarrow> (db, unit, nat) io" where
  "minimize_manifests_before x now locked before limit =
     map_err (\<lambda>_. ()) (pooled (\<lambda>d.
       case pg_parse x before of
         None \<Rightarrow> Inl Violation
       | Some t \<Rightarrow> minimize_manifests now t limit locked d))"

section \<open>Counters\<close>

text \<open>Two \<open>AtomicU64\<close>; \<open>fetch_add\<close> wraps.\<close>

record counter =
  ct_bodies :: "64 word"
  ct_manifests :: "64 word"

definition new_counter :: counter where
  "new_counter = \<lparr>ct_bodies = 0, ct_manifests = 0\<rparr>"

definition add_bodies :: "nat \<Rightarrow> counter \<Rightarrow> counter" where
  "add_bodies n c = c\<lparr>ct_bodies := ct_bodies c + of_nat n\<rparr>"

definition add_manifests :: "nat \<Rightarrow> counter \<Rightarrow> counter" where
  "add_manifests n c = c\<lparr>ct_manifests := ct_manifests c + of_nat n\<rparr>"

definition bodies_metric :: string where
  "bodies_metric = ''channel_digests_bodies_minimized_total''"

definition manifests_metric :: string where
  "manifests_metric = ''channel_digests_manifests_minimized_total''"

definition newline :: string where
  "newline = [CHR 0x0A]"

definition metric_lines :: "string \<Rightarrow> string \<Rightarrow> 64 word \<Rightarrow> string" where
  "metric_lines metric help v =
     ''# HELP '' @ metric @ '' '' @ help @ newline @ ''# TYPE '' @ metric @ '' counter'' @ newline
       @ metric @ '' '' @ nat_text (unat v) @ newline"

definition render :: "counter \<Rightarrow> string" where
  "render c =
     metric_lines bodies_metric ''Stored post bodies minimized by the retention sweep.'' (ct_bodies c)
     @ metric_lines manifests_metric
         ''Manifest texts minimized by the retention sweep or a withdrawal.'' (ct_manifests c)"

section \<open>The sweep\<close>

definition sweep_batch :: nat where
  "sweep_batch = 5000"

definition sweep_cutoff :: "externals \<Rightarrow> nat \<Rightarrow> instant \<Rightarrow> instant option" where
  "sweep_cutoff x body_days tick = jiff_sub x tick (seconds (3600 * (24 * int body_days)))"

text \<open>
  \<open>sweep_once\<close>: two transactions, each with its clock and its locked rows. The counter of the
  first stays when the second fails.
\<close>

record sweep_moment =
  sm_bodies_at :: instant
  sm_bodies_locked :: "uuid set"
  sm_manifests_at :: instant
  sm_manifests_locked :: "uuid set"

definition sweep_once ::
  "externals \<Rightarrow> sweep_moment \<Rightarrow> nat \<Rightarrow> instant \<Rightarrow> counter \<Rightarrow> db world
     \<Rightarrow> ((unit + nat \<times> nat) \<times> counter) \<times> db world" where
  "sweep_once x sm body_days tick ct w =
     (case sweep_cutoff x body_days tick of
        None \<Rightarrow> ((Inl (), ct), w)
      | Some cutoff \<Rightarrow>
          (case minimize_before x (sm_bodies_at sm) (sm_bodies_locked sm) (jiff_text x cutoff) sweep_batch w of
             (Inl e, w1) \<Rightarrow> ((Inl e, ct), w1)
           | (Inr bodies, w1) \<Rightarrow>
               (let ct1 = add_bodies bodies ct in
                case minimize_manifests_before x (sm_manifests_at sm) (sm_manifests_locked sm)
                       (jiff_text x cutoff) sweep_batch w1 of
                  (Inl e, w2) \<Rightarrow> ((Inl e, ct1), w2)
                | (Inr texts, w2) \<Rightarrow> ((Inr (bodies, texts), add_manifests texts ct1), w2))))"

end
