(* ===== verification/Provider.thy ===== *)
theory Provider
  imports Txn "HOL-Library.AList"
begin

text \<open>
  \<open>src/provider.rs\<close>: the usernames the service admits, the pages it reads, and how the Telegram
  client's answers become them. The client is a parameter: \<open>message_stream\<close> is what its iterator
  yields for an offset and a limit.
\<close>

section \<open>Usernames\<close>

definition ascii_alphabetic :: "char \<Rightarrow> bool" where
  "ascii_alphabetic c \<longleftrightarrow>
     (let n = of_char c :: nat in 65 \<le> n \<and> n \<le> 90 \<or> 97 \<le> n \<and> n \<le> 122)"

definition ascii_lowercase :: "char \<Rightarrow> bool" where
  "ascii_lowercase c \<longleftrightarrow> (let n = of_char c :: nat in 97 \<le> n \<and> n \<le> 122)"

definition ascii_digit :: "char \<Rightarrow> bool" where
  "ascii_digit c \<longleftrightarrow> (let n = of_char c :: nat in 48 \<le> n \<and> n \<le> 57)"

datatype provider_error =
    Invalid_Channel
  | Reauthorization_Required
  | Provider_Temporarily_Unavailable
  | Flood_Wait nat

definition parse_username :: "string \<Rightarrow> provider_error + string" where
  "parse_username candidate =
     (if \<not> (5 \<le> length candidate \<and> length candidate \<le> 32)
         \<or> \<not> (case candidate of [] \<Rightarrow> False | c # _ \<Rightarrow> ascii_alphabetic c)
         \<or> list_ex (\<lambda>c. \<not> (ascii_lowercase c \<or> ascii_digit c \<or> c = CHR ''_'')) candidate
      then Inl Invalid_Channel
      else Inr candidate)"

section \<open>Pages\<close>

record provider_post =
  post_id :: int
  post_body :: string
  post_published :: string
  post_deleted :: bool

record provider_page =
  page_posts :: "provider_post list"
  page_next :: "int option"

text \<open>What the client yields for one message, and the failures its calls report.\<close>

record client_message =
  cl_id :: "32 word"
  cl_text :: string
  cl_date :: string

datatype invocation_error =
    Rpc "32 word" "32 word option"
  | Transport

definition classify_invocation_error :: "invocation_error \<Rightarrow> provider_error" where
  "classify_invocation_error e =
     (case e of
        Rpc code v \<Rightarrow>
          if code = 420
          then (case v of None \<Rightarrow> Provider_Temporarily_Unavailable | Some s \<Rightarrow> Flood_Wait (unat s))
          else if code = 401 then Reauthorization_Required
          else Provider_Temporarily_Unavailable
      | Transport \<Rightarrow> Provider_Temporarily_Unavailable)"

text \<open>\<open>i32::try_from(value).ok().unwrap_or(0)\<close> of an \<open>i64\<close> cursor.\<close>

definition page_offset :: "int option \<Rightarrow> 32 word" where
  "page_offset before =
     (case before of
        None \<Rightarrow> 0
      | Some v \<Rightarrow> if - (2 ^ 31) \<le> v \<and> v < 2 ^ 31 then word_of_int v else 0)"

definition post_of_message :: "client_message \<Rightarrow> provider_post" where
  "post_of_message m =
     \<lparr>post_id = sint (cl_id m), post_body = cl_text m, post_published = cl_date m,
      post_deleted = False\<rparr>"

text \<open>
  \<open>fetch_public_posts\<close>: the iterator yields messages until it ends or fails; a page as long as
  the limit has a cursor.
\<close>

definition fetch_public_posts ::
  "('c \<Rightarrow> 32 word \<Rightarrow> nat \<Rightarrow> invocation_error + client_message list)
     \<Rightarrow> 'c \<Rightarrow> int option \<Rightarrow> nat \<Rightarrow> provider_error + provider_page" where
  "fetch_public_posts message_stream channel before limit =
     (case message_stream channel (page_offset before) (min limit 100) of
        Inl e \<Rightarrow> Inl (classify_invocation_error e)
      | Inr messages \<Rightarrow>
          (let posts = map post_of_message messages
           in Inr \<lparr>page_posts = posts,
                page_next = (if length posts = limit
                             then (if posts = [] then None else Some (post_id (last posts)))
                             else None)\<rparr>))"

datatype peer = Channel_Peer "int option" "nat list" "invocation_error + string option" | Other_Peer

record resolved_channel =
  rs_channel :: int
  rs_username :: string
  rs_display_name :: "nat list"
  rs_peer :: string

text \<open>\<open>resolve_public_channel\<close>; the client answers a name with a peer, if any.\<close>

definition resolve_public_channel ::
  "(string \<Rightarrow> invocation_error + peer option) \<Rightarrow> string \<Rightarrow> provider_error + resolved_channel" where
  "resolve_public_channel resolve_username username =
     (case resolve_username username of
        Inl e \<Rightarrow> Inl (classify_invocation_error e)
      | Inr None \<Rightarrow> Inl Invalid_Channel
      | Inr (Some Other_Peer) \<Rightarrow> Inl Invalid_Channel
      | Inr (Some (Channel_Peer bare title ref)) \<Rightarrow>
          (case bare of
             None \<Rightarrow> Inl Invalid_Channel
           | Some channel \<Rightarrow>
               (case ref of
                  Inl e \<Rightarrow> Inl Provider_Temporarily_Unavailable
                | Inr None \<Rightarrow> Inl Invalid_Channel
                | Inr (Some r) \<Rightarrow> Inr
                    \<lparr>rs_channel = channel, rs_username = username, rs_display_name = title,
                     rs_peer = r\<rparr>)))"

section \<open>Connecting\<close>

text \<open>
  The decrypted session, as it is serialized, and the one the client is given: data centres and peers by
  their identities, a later one replacing an earlier.
\<close>

record ('d, 'p, 'u) persisted_session =
  ss_home :: int
  ss_dcs :: "'d list"
  ss_peers :: "'p list"
  ss_updates :: 'u

record ('d, 'p, 'u) session_data =
  sd_home :: int
  sd_dcs :: "(int \<times> 'd) list"
  sd_peers :: "(int \<times> 'p) list"
  sd_updates :: 'u

definition collected :: "('a \<Rightarrow> int) \<Rightarrow> 'a list \<Rightarrow> (int \<times> 'a) list" where
  "collected key rows = fold (\<lambda>a m. AList.update (key a) a m) rows []"

definition session_of ::
  "('d \<Rightarrow> int) \<Rightarrow> ('p \<Rightarrow> int) \<Rightarrow> ('d, 'p, 'u) persisted_session \<Rightarrow> ('d, 'p, 'u) session_data" where
  "session_of dc_id peer_id p =
     \<lparr>sd_home = ss_home p, sd_dcs = collected dc_id (ss_dcs p), sd_peers = collected peer_id (ss_peers p),
      sd_updates = ss_updates p\<rparr>"

text \<open>
  \<open>MtProtoPublicChannelProvider::connect\<close>: \<open>authorized\<close> is what the client answers within the timeout, \<open>None\<close>
  when it does not.
\<close>

definition connect_provider ::
  "(string \<Rightarrow> ('d, 'p, 'u) persisted_session option) \<Rightarrow> ('d \<Rightarrow> int) \<Rightarrow> ('p \<Rightarrow> int)
     \<Rightarrow> (('d, 'p, 'u) session_data \<Rightarrow> int \<Rightarrow> (invocation_error + bool) option)
     \<Rightarrow> int \<Rightarrow> string \<Rightarrow> provider_error + ('d, 'p, 'u) session_data" where
  "connect_provider decode dc_id peer_id authorized api_id material =
     (case decode material of
        None \<Rightarrow> Inl Reauthorization_Required
      | Some p \<Rightarrow>
          if \<not> (1 \<le> ss_home p \<and> ss_home p \<le> 5) then Inl Reauthorization_Required
          else
            (let data = session_of dc_id peer_id p in
             case authorized data api_id of
               None \<Rightarrow> Inl Provider_Temporarily_Unavailable
             | Some (Inl _) \<Rightarrow> Inl Provider_Temporarily_Unavailable
             | Some (Inr ok) \<Rightarrow> if ok then Inr data else Inl Reauthorization_Required))"

lemma map_of_collected: "map_of (collected key rows) k = map_of (map (\<lambda>a. (key a, a)) (rev rows)) k"
proof -
  have "map_of (fold (\<lambda>a m. AList.update (key a) a m) rows m) k
      = (map_of m ++ map_of (map (\<lambda>a. (key a, a)) (rev rows))) k" for m
    by (induction rows arbitrary: m) (simp_all add: update_conv' map_add_def split: option.split)
  then show ?thesis by (simp add: collected_def)
qed

text \<open>A connection is made exactly with an authorized session of one of the five data centres.\<close>

lemma connect_provider_exact:
  "connect_provider decode dc_id peer_id authorized api_id material = Inr data \<longleftrightarrow>
     (\<exists>p. decode material = Some p \<and> ss_home p \<in> {1..5} \<and> data = session_of dc_id peer_id p
        \<and> authorized data api_id = Some (Inr True))"
  by (auto simp: connect_provider_def Let_def split: option.splits sum.splits if_splits)

end
