(* ===== verification/Acquisition.thy ===== *)
theory Acquisition
  imports Retention Provider
begin

text \<open>
  \<open>src/acquisition.rs\<close>: the bounded, resumable walk over one channel, newest page first. Each page
  is stored and checkpointed before the next is asked for; a page also withdraws the stored
  messages that it proves are gone. The provider and the clock are parameters, so that every
  answer, a timeout included, is covered.
\<close>

section \<open>Requests and answers\<close>

record acquisition_request =
  aq_run :: uuid
  aq_channel :: uuid
  aq_username :: string
  aq_start :: string
  aq_end :: string
  aq_max_pages :: nat
  aq_page_size :: nat

record acquisition_report =
  ar_pages :: nat
  ar_revisions :: nat
  ar_partial :: bool

datatype acquisition_error = Acquisition_Unavailable | Acquisition_Deferred

text \<open>\<open>tokio::time::timeout\<close> around a provider call.\<close>

datatype 'a answer = Timed_Out | Answered "provider_error + 'a"

record 'c provider =
  pv_resolve :: "string \<Rightarrow> 'c answer"
  pv_fetch :: "nat \<Rightarrow> 'c \<Rightarrow> int option \<Rightarrow> nat \<Rightarrow> provider_page answer"

text \<open>The clocks and the identities that one walk draws, by page and by post of the page.\<close>

record walk_env =
  we_resume_at :: instant
  we_append :: "nat \<Rightarrow> nat \<Rightarrow> uuid"
  we_withdraw_at :: "nat \<Rightarrow> instant"
  we_page_at :: "nat \<Rightarrow> instant"
  we_page_holder :: "nat \<Rightarrow> uuid"
  we_last_at :: instant
  we_last_holder :: uuid

type_synonym 'a acquiring = "(db \<times> counter, acquisition_error, 'a) io"

definition unavailable :: "(db, unit, 'a) io \<Rightarrow> 'a acquiring" where
  "unavailable m = on_tables (map_err (\<lambda>_. Acquisition_Unavailable) m)"

section \<open>The checkpoint\<close>

definition acquisition_kind :: "uuid \<Rightarrow> string" where
  "acquisition_kind channel = ''acquisition:'' @ uuid_text channel"

definition lease_of :: "acquisition_request \<Rightarrow> lease \<Rightarrow> bool" where
  "lease_of rq l \<longleftrightarrow> lease_kind l = acquisition_kind (aq_channel rq) \<and> lease_resource l = aq_run rq"

text \<open>\<open>wait.as_secs().clamp(1, 3_600)\<close>\<close>

definition retry_seconds :: "nat option \<Rightarrow> int option" where
  "retry_seconds retry_after = map_option (\<lambda>s. int (max 1 (min s 3600))) retry_after"

definition checkpoint_lease ::
  "instant \<Rightarrow> uuid \<Rightarrow> acquisition_request \<Rightarrow> int option \<Rightarrow> nat \<Rightarrow> nat \<Rightarrow> string \<Rightarrow> nat option \<Rightarrow> lease" where
  "checkpoint_lease now holder rq before pages stored_revisions st retry_after =
     \<lparr>lease_kind = acquisition_kind (aq_channel rq), lease_resource = aq_run rq,
      lease_holder = holder, lease_acquired = now,
      lease_expires = (case retry_seconds retry_after of
          None \<Rightarrow> now + seconds 300 | Some s \<Rightarrow> now + seconds s),
      lease_before = before, lease_pages = pages, lease_revisions = stored_revisions,
      lease_state = Some st\<rparr>"

definition upsert_lease :: "lease \<Rightarrow> (db, unit) statement" where
  "upsert_lease l d =
     (let same = (\<lambda>q. lease_kind q = lease_kind l \<and> lease_resource q = lease_resource l)
      in Inr ((),
           d\<lparr>leases := (if list_ex same (leases d) then update_where same (\<lambda>_. l) (leases d)
                         else leases d @ [l])\<rparr>))"

definition checkpoint ::
  "instant \<Rightarrow> uuid \<Rightarrow> acquisition_request \<Rightarrow> int option \<Rightarrow> nat \<Rightarrow> nat \<Rightarrow> string \<Rightarrow> nat option
     \<Rightarrow> unit acquiring" where
  "checkpoint now holder rq before pages stored_revisions st retry_after =
     unavailable (map_err (\<lambda>_. ()) (pooled (upsert_lease
       (checkpoint_lease now holder rq before pages stored_revisions st retry_after))))"

definition resume :: "instant \<Rightarrow> acquisition_request \<Rightarrow> (int option \<times> nat \<times> nat) acquiring" where
  "resume now rq =
     bind_io (unavailable (map_err (\<lambda>_. ()) (pooled (query (\<lambda>d.
       select_one (lease_of rq) (leases d)))))) (\<lambda>found.
     case found of
       None \<Rightarrow> ret (None, 0, 0)
     | Some l \<Rightarrow>
         if lease_state l = Some ''flood_wait'' \<and> lease_expires l > now
         then raise Acquisition_Deferred
         else if lease_state l = Some ''completed''
         then ret (None, aq_max_pages rq, lease_revisions l)
         else ret (lease_before l, lease_pages l, lease_revisions l))"

section \<open>One page\<close>

definition max_body :: nat where
  "max_body = 16384"

text \<open>The fold over the posts of a page: how many were stored, whether one lies before the window.\<close>

record page_progress =
  pp_stored :: nat
  pp_reached :: bool
  pp_seen :: "(int \<times> string) list"

definition observed_post ::
  "acquisition_request \<Rightarrow> string \<Rightarrow> provider_post \<Rightarrow> observed_revision" where
  "observed_post rq username post =
     \<lparr>ob_channel = aq_channel rq, ob_message = post_id post, ob_body = post_body post,
      ob_link = ''https://t.me/'' @ username @ ''/'' @ int_text (post_id post),
      ob_published = post_published post, ob_observed = aq_end rq\<rparr>"

definition store_post ::
  "externals \<Rightarrow> uuid \<Rightarrow> acquisition_request \<Rightarrow> string \<Rightarrow> instant \<times> instant \<Rightarrow> provider_post
     \<Rightarrow> page_progress \<Rightarrow> page_progress acquiring" where
  "store_post x fresh rq username window post pp =
     (if post_deleted post \<or> post_body post = [] \<or> length (post_body post) > max_body then ret pp
      else bind_io (ok_or Acquisition_Unavailable (jiff_parse x (post_published post))) (\<lambda>published.
        if published < fst window then ret (pp\<lparr>pp_reached := True\<rparr>)
        else if published \<ge> snd window then ret pp
        else let key = (post_id post, sha256 x (post_body post)) in
          if key \<in> set (pp_seen pp) then ret pp
          else bind_io (unavailable (append x fresh (observed_post rq username post))) (\<lambda>_.
            ret (pp\<lparr>pp_stored := pp_stored pp + 1, pp_seen := key # pp_seen pp\<rparr>))))"

fun store_posts ::
  "externals \<Rightarrow> (nat \<Rightarrow> uuid) \<Rightarrow> acquisition_request \<Rightarrow> string \<Rightarrow> instant \<times> instant \<Rightarrow> nat
     \<Rightarrow> provider_post list \<Rightarrow> page_progress \<Rightarrow> page_progress acquiring" where
  "store_posts x fresh rq username window i [] pp = ret pp"
| "store_posts x fresh rq username window i (post # posts) pp =
     bind_io (store_post x (fresh i) rq username window post pp)
       (store_posts x fresh rq username window (Suc i) posts)"

definition i64_min :: int where
  "i64_min = - (2 ^ 63)"

text \<open>\<open>proved_range\<close>: from the lowest id of the page, or from the channel start for a last page.\<close>

definition page_proves :: "provider_page \<Rightarrow> int option \<Rightarrow> proved_range option" where
  "page_proves page requested_before =
     (if page_next page = None then Some \<lparr>pr_lowest = i64_min, pr_below = requested_before\<rparr>
      else if page_posts page = [] then None
      else Some \<lparr>pr_lowest = Min (set (map post_id (page_posts page))), pr_below = requested_before\<rparr>)"

definition withdraw_absent ::
  "instant \<Rightarrow> uuid \<Rightarrow> int option \<Rightarrow> provider_page \<Rightarrow> unit acquiring" where
  "withdraw_absent now channel requested_before page =
     (case page_proves page requested_before of
        None \<Rightarrow> ret ()
      | Some proved \<Rightarrow>
          let gone = map post_id (filter post_deleted (page_posts page));
              live = map post_id (filter (\<lambda>p. \<not> post_deleted p) (page_posts page))
          in bind_io (unavailable (withdraw_missing now channel proved live gone)) (\<lambda>withdrawn.
             if wd_manifests withdrawn > 0
             then on_process (add_manifests (wd_manifests withdrawn)) else ret ()))"

section \<open>The walk\<close>

definition resolve ::
  "'c provider \<Rightarrow> walk_env \<Rightarrow> acquisition_request \<Rightarrow> string \<Rightarrow> int option \<Rightarrow> nat \<Rightarrow> nat
     \<Rightarrow> 'c acquiring" where
  "resolve pv env rq username before pages stored_revisions =
     (case pv_resolve pv username of
        Answered (Inr channel) \<Rightarrow> ret channel
      | Answered (Inl (Flood_Wait wait)) \<Rightarrow>
          bind_io (checkpoint (we_last_at env) (we_last_holder env) rq before pages stored_revisions
            ''flood_wait'' (Some wait)) (\<lambda>_. raise Acquisition_Deferred)
      | _ \<Rightarrow> raise Acquisition_Unavailable)"

definition finish ::
  "walk_env \<Rightarrow> acquisition_request \<Rightarrow> int option \<Rightarrow> nat \<Rightarrow> nat \<Rightarrow> acquisition_report acquiring" where
  "finish env rq before pages stored_revisions =
     (let partial = (before \<noteq> None) in
      bind_io (checkpoint (we_last_at env) (we_last_holder env) rq before pages stored_revisions
        (if partial then ''page_limit'' else ''completed'') None) (\<lambda>_.
      ret \<lparr>ar_pages = pages, ar_revisions = stored_revisions, ar_partial = partial\<rparr>))"

text \<open>
  The loop \<open>while pages < request.max_pages\<close>; the first argument is how many more pages the bound
  allows, so the recursion is structural.
\<close>

fun walk ::
  "externals \<Rightarrow> 'c provider \<Rightarrow> walk_env \<Rightarrow> acquisition_request \<Rightarrow> string \<Rightarrow> 'c
     \<Rightarrow> instant \<times> instant \<Rightarrow> nat \<Rightarrow> int option \<Rightarrow> nat \<Rightarrow> nat \<Rightarrow> (int \<times> string) list
     \<Rightarrow> acquisition_report acquiring" where
  "walk x pv env rq username channel window 0 before pages stored_revisions seen =
     finish env rq before pages stored_revisions"
| "walk x pv env rq username channel window (Suc left) before pages stored_revisions seen =
     (case pv_fetch pv pages channel before (min (aq_page_size rq) 100) of
        Answered (Inr page) \<Rightarrow>
          bind_io (store_posts x (we_append env pages) rq username window 0 (page_posts page)
            \<lparr>pp_stored = 0, pp_reached = False, pp_seen = seen\<rparr>) (\<lambda>pp.
          bind_io (withdraw_absent (we_withdraw_at env pages) (aq_channel rq) before page) (\<lambda>_.
          let next = (if pp_reached pp then None else page_next page);
              total = stored_revisions + pp_stored pp
          in bind_io (checkpoint (we_page_at env pages) (we_page_holder env pages) rq next
               (Suc pages) total ''page_committed'' None) (\<lambda>_.
             if next = None then finish env rq next (Suc pages) total
             else walk x pv env rq username channel window left next (Suc pages) total (pp_seen pp))))
      | Answered (Inl (Flood_Wait wait)) \<Rightarrow>
          bind_io (checkpoint (we_last_at env) (we_last_holder env) rq before pages stored_revisions
            ''flood_wait'' (Some wait)) (\<lambda>_. raise Acquisition_Deferred)
      | _ \<Rightarrow>
          if pages > 0
          then bind_io (checkpoint (we_last_at env) (we_last_holder env) rq before pages
              stored_revisions ''provider_unavailable'' None) (\<lambda>_.
            ret \<lparr>ar_pages = pages, ar_revisions = stored_revisions, ar_partial = True\<rparr>)
          else raise Acquisition_Unavailable)"

definition parse_window :: "externals \<Rightarrow> acquisition_request \<Rightarrow> (instant \<times> instant) acquiring" where
  "parse_window x rq =
     bind_io (ok_or Acquisition_Unavailable (jiff_parse x (aq_start rq))) (\<lambda>start.
     bind_io (ok_or Acquisition_Unavailable (jiff_parse x (aq_end rq))) (\<lambda>end.
     ret (start, end)))"

definition execute ::
  "externals \<Rightarrow> 'c provider \<Rightarrow> walk_env \<Rightarrow> acquisition_request \<Rightarrow> acquisition_report acquiring" where
  "execute x pv env rq =
     bind_io (resume (we_resume_at env) rq) (\<lambda>(before, pages, stored_revisions).
     case parse_username (aq_username rq) of
       Inl e \<Rightarrow> raise Acquisition_Unavailable
     | Inr username \<Rightarrow>
         bind_io (resolve pv env rq username before pages stored_revisions) (\<lambda>channel.
         bind_io (parse_window x rq) (\<lambda>window.
         walk x pv env rq username channel window (aq_max_pages rq - pages) before pages
           stored_revisions [])))"

end
