(* ===== verification/Executor.thy ===== *)
theory Executor
  imports Coordinator Acquisition
begin

text \<open>
  \<open>src/executor.rs\<close>: one tick takes the oldest pending run, acquires the channels of its owner,
  selects the newest posts of the window and hands the manifest over, or ends the run.
\<close>

section \<open>The pending run\<close>

datatype execution_error = Execution_Unavailable

type_synonym 'a executing = "(db \<times> counter, execution_error, 'a) io"

record pending_run =
  pn_run :: uuid
  pn_owner :: uuid
  pn_start :: string
  pn_end :: string
  pn_language :: language
  pn_state :: run_state
  pn_operation :: uuid

definition flood_waiting :: "instant \<Rightarrow> uuid \<Rightarrow> lease \<Rightarrow> bool" where
  "flood_waiting now run l \<longleftrightarrow>
     lease_resource l = run \<and> take 12 (lease_kind l) = ''acquisition:''
     \<and> lease_state l = Some ''flood_wait'' \<and> lease_expires l > now"

definition pending :: "instant \<Rightarrow> db \<Rightarrow> run_row \<Rightarrow> bool" where
  "pending now d r \<longleftrightarrow> run_state r \<in> {Accepted, Acquiring}
     \<and> \<not> list_ex (flood_waiting now (run_id r)) (leases d)"

definition next_pending :: "instant \<Rightarrow> db \<Rightarrow> run_row option" where
  "next_pending now d =
     (case oldest (\<lambda>r. (run_created r, run_id r)) 1 (pending now d) (runs d) of
        [] \<Rightarrow> None | r # _ \<Rightarrow> Some r)"

definition pending_of :: "externals \<Rightarrow> run_row \<Rightarrow> pending_run" where
  "pending_of x r =
     \<lparr>pn_run = run_id r, pn_owner = run_owner r, pn_start = pg_char x (run_start r),
      pn_end = pg_char x (run_end r), pn_language = run_language r, pn_state = run_state r,
      pn_operation = run_operation r\<rparr>"

definition executing :: "(db, 'e, 'a) io \<Rightarrow> 'a executing" where
  "executing m = on_tables (map_err (\<lambda>_. Execution_Unavailable) m)"

definition select_pending :: "externals \<Rightarrow> instant \<Rightarrow> pending_run option executing" where
  "select_pending x now =
     executing (pooled (query (\<lambda>d. map_option (pending_of x) (next_pending now d))))"

section \<open>The move to acquiring\<close>

definition begin_body ::
  "externals \<Rightarrow> instant \<Rightarrow> uuid \<Rightarrow> pending_run \<Rightarrow> (db, execution_error, bool tx_end) io" where
  "begin_body x now fresh run =
     bind_io (map_err (\<lambda>_. Execution_Unavailable) (stmt (update_runs
       (\<lambda>r. run_id r = pn_run run \<and> run_state r = Accepted) (enter_state now Acquiring)))) (\<lambda>changed.
     if changed \<noteq> 1 then ret (Dropped False)
     else bind_io (map_err (\<lambda>_. Execution_Unavailable)
         (on_demand_operation (pn_run run) (pn_owner run))) (\<lambda>owned.
       case owned of
         None \<Rightarrow> ret (Commit True)
       | Some operation \<Rightarrow>
           bind_io (map_err (\<lambda>_. Execution_Unavailable) (from_result
             (new_report x operation (pn_owner run) Op_Running ''acquiring''))) (\<lambda>row.
           bind_io (map_err (\<lambda>_. Execution_Unavailable) (enqueue x now fresh row)) (\<lambda>_.
           ret (Commit True)))))"

definition begin_acquisition ::
  "externals \<Rightarrow> instant \<Rightarrow> uuid \<Rightarrow> pending_run \<Rightarrow> (db, execution_error, bool) io" where
  "begin_acquisition x now fresh run =
     transaction Execution_Unavailable (begin_body x now fresh run)"

section \<open>Acquiring the channels\<close>

text \<open>
  \<open>order by c.username limit 20\<close>; the usernames are ASCII, ordered by their bytes.
\<close>

definition channels_of :: "uuid \<Rightarrow> db \<Rightarrow> (uuid \<times> string) list" where
  "channels_of owner d =
     map (\<lambda>(s, c). (ch_id c, ch_username c))
       (oldest (\<lambda>(s, c). ch_username c) 20
         (\<lambda>(s, c). sub_channel s = ch_id c \<and> sub_owner s = owner \<and> sub_enabled s)
         (List.product (subscriptions d) (channels d)))"

definition subscribed_channels :: "uuid \<Rightarrow> (uuid \<times> string) list executing" where
  "subscribed_channels owner = executing (pooled (query (channels_of owner)))"

datatype acquired = Acquired_Complete | Acquired_Incomplete | Acquired_Deferred | Acquired_Unavailable

definition run_request :: "pending_run \<Rightarrow> uuid \<times> string \<Rightarrow> acquisition_request" where
  "run_request run c =
     \<lparr>aq_run = pn_run run, aq_channel = fst c, aq_username = snd c, aq_start = pn_start run,
      aq_end = pn_end run, aq_max_pages = 20, aq_page_size = 100\<rparr>"

record tally =
  ty_successful :: nat
  ty_deferred :: nat
  ty_incomplete :: bool

fun tally_outcome :: "acquisition_error + acquisition_report \<Rightarrow> tally \<Rightarrow> tally" where
  "tally_outcome (Inr report) t =
     t\<lparr>ty_successful := ty_successful t + 1, ty_incomplete := ty_incomplete t \<or> ar_partial report\<rparr>"
| "tally_outcome (Inl Acquisition_Deferred) t = t\<lparr>ty_deferred := ty_deferred t + 1\<rparr>"
| "tally_outcome (Inl Acquisition_Unavailable) t = t\<lparr>ty_incomplete := True\<rparr>"

text \<open>\<open>env i\<close> is what the walk over the \<open>i\<close>-th channel draws.\<close>

fun acquire_channels ::
  "externals \<Rightarrow> 'c provider \<Rightarrow> (nat \<Rightarrow> walk_env) \<Rightarrow> pending_run \<Rightarrow> nat \<Rightarrow> (uuid \<times> string) list \<Rightarrow> tally
     \<Rightarrow> tally executing" where
  "acquire_channels x pv env run i [] t = ret t"
| "acquire_channels x pv env run i (c # cs) t =
     bind_io (attempt (execute x pv (env i) (run_request run c))) (\<lambda>outcome.
     acquire_channels x pv env run (Suc i) cs (tally_outcome outcome t))"

definition judge :: "nat \<Rightarrow> tally \<Rightarrow> acquired" where
  "judge n t =
     (if ty_deferred t > 0 then Acquired_Deferred
      else if n \<noteq> 0 \<and> ty_successful t = 0 then Acquired_Unavailable
      else if ty_incomplete t then Acquired_Incomplete
      else Acquired_Complete)"

definition acquire ::
  "externals \<Rightarrow> 'c provider \<Rightarrow> (nat \<Rightarrow> walk_env) \<Rightarrow> pending_run \<Rightarrow> (uuid \<times> string) list
     \<Rightarrow> acquired executing" where
  "acquire x pv env run subscribed =
     bind_io (acquire_channels x pv env run 0 subscribed
       \<lparr>ty_successful = 0, ty_deferred = 0, ty_incomplete = False\<rparr>) (\<lambda>t.
     ret (judge (length subscribed) t))"

definition record_acquisition :: "uuid \<Rightarrow> bool \<Rightarrow> (db, db_error, nat) io" where
  "record_acquisition run incomplete =
     pooled (update_runs (\<lambda>r. run_id r = run) (\<lambda>r. r\<lparr>run_incomplete := incomplete\<rparr>))"

section \<open>Selecting the sources\<close>

record selection =
  sl_sources :: "manifest_source list"
  sl_eligible :: nat

definition message_of :: "revision \<Rightarrow> uuid \<times> int" where
  "message_of r = (rev_channel r, rev_message r)"

text \<open>The revisions of the window in the channels that the owner has enabled.\<close>

definition window_revisions :: "uuid \<Rightarrow> instant \<Rightarrow> instant \<Rightarrow> db \<Rightarrow> revision list" where
  "window_revisions owner start end d =
     filter (\<lambda>r. rev_channel r \<in> sub_channel ` set (filter (active_of owner) (subscriptions d))
       \<and> start \<le> rev_published r \<and> rev_published r < end) (revisions d)"

text \<open>\<open>row_number() over (partition by channel, message order by observed_at, revision_id)\<close>\<close>

definition revision_index :: "revision list \<Rightarrow> revision \<Rightarrow> nat" where
  "revision_index rows r =
     Suc (count_where (\<lambda>s. message_of s = message_of r
       \<and> (rev_observed s, rev_id s) < (rev_observed r, rev_id r)) rows)"

definition live :: "revision \<Rightarrow> bool" where
  "live r \<longleftrightarrow> rev_body r \<noteq> None \<and> rev_deleted r = None"

text \<open>
  \<open>distinct on (channel, message) ... order by observed_at desc, revision_id desc\<close>: a live revision
  with no later live one of the same message.
\<close>

definition latest_live :: "revision list \<Rightarrow> revision list" where
  "latest_live rows =
     filter (\<lambda>r. live r \<and> \<not> list_ex (\<lambda>s. live s \<and> message_of s = message_of r
       \<and> (rev_observed r, rev_id r) < (rev_observed s, rev_id s)) rows) rows"

text \<open>\<open>order by published_at desc, channel_id, provider_message_id desc, revision_id desc\<close>\<close>

definition newest_first :: "revision \<Rightarrow> int \<times> uuid \<times> int \<times> int" where
  "newest_first r = (- rev_published r, rev_channel r, - rev_message r, - uint (rev_id r))"

definition source_of :: "externals \<Rightarrow> revision list \<Rightarrow> revision \<times> channel \<Rightarrow> manifest_source" where
  "source_of x rows = (\<lambda>(r, c).
     \<lparr>ms_revision = rev_id r, ms_channel = rev_channel r, ms_username = ch_username c,
      ms_display_name = ch_display_name c, ms_message = rev_message r, ms_sha256 = rev_sha256 r,
      ms_published = pg_char x (rev_published r), ms_link = rev_link r,
      ms_body = the (rev_body r), ms_index = revision_index rows r\<rparr>)"

definition with_channel :: "db \<Rightarrow> revision list \<Rightarrow> (revision \<times> channel) list" where
  "with_channel d rows =
     filter (\<lambda>(r, c). ch_id c = rev_channel r) (List.product rows (channels d))"

text \<open>
  The rows of the statement: newest first, at most \<open>source_count\<close>; \<open>count(*) over ()\<close> counts the
  rows before the limit.
\<close>

definition select_rows ::
  "nat \<Rightarrow> uuid \<Rightarrow> instant \<Rightarrow> instant \<Rightarrow> db \<Rightarrow> (revision \<times> channel) list \<times> nat" where
  "select_rows source_count owner start end d =
     (let found = with_channel d (latest_live (window_revisions owner start end d))
      in (take source_count (sort_key (\<lambda>(r, c). newest_first r) found), length found))"

definition selected_sources ::
  "externals \<Rightarrow> nat \<Rightarrow> pending_run \<Rightarrow> db \<Rightarrow> db_error + selection" where
  "selected_sources x source_count run d =
     (case (pg_parse x (pn_start run), pg_parse x (pn_end run)) of
        (Some start, Some end) \<Rightarrow>
          (let window = window_revisions (pn_owner run) start end d;
               (rows, eligible) = select_rows source_count (pn_owner run) start end d
           in Inr \<lparr>sl_sources = map (source_of x window) (rev rows),
                sl_eligible = (if rows = [] then 0 else eligible)\<rparr>)
      | _ \<Rightarrow> Inl Violation)"

definition select_sources :: "externals \<Rightarrow> nat \<Rightarrow> pending_run \<Rightarrow> selection executing" where
  "select_sources x source_count run =
     executing (pooled (reading (selected_sources x source_count run)))"

definition clamp_source_count :: "nat \<Rightarrow> nat" where
  "clamp_source_count n = max 1 (min n 100)"

section \<open>Handing over\<close>

definition recap_request :: "pending_run \<Rightarrow> canonical_manifest \<Rightarrow> recap_request" where
  "recap_request run m =
     \<lparr>rq_operation = pn_operation run, rq_owner = ''user:'' @ uuid_text (pn_owner run),
      rq_run = uuid_text (pn_run run), rq_window = (pn_start run, pn_end run),
      rq_language = pn_language run, rq_source_count = cn_sources m,
      rq_channel_count = cn_channels m,
      rq_manifest_ref = ''channel-digest-manifest:'' @ uuid_text (cn_manifest m),
      rq_manifest_sha256 = cn_sha256 m, rq_family = ''channel_digest_recap'',
      rq_contract = ''channel_digest_recap.v1''\<rparr>"

text \<open>The clocks and identities of the last transaction of a tick.\<close>

definition commit ::
  "externals \<Rightarrow> manifest_codec \<Rightarrow> instant \<Rightarrow> uuid \<Rightarrow> uuid \<Rightarrow> pending_run \<Rightarrow> manifest_source list \<Rightarrow> bool
     \<Rightarrow> (db, coordinator_error, unit) io" where
  "commit x k now fresh manifest run sources incomplete =
     (if sources = []
      then if incomplete
           then fail_run x now fresh (pn_run run) (pn_owner run) Run_Provider_Unavailable
           else complete_empty_run x now fresh (pn_run run) (pn_owner run)
      else (case build_manifest k manifest (pn_owner run) (pn_run run) (pn_start run) (pn_end run) sources of
              Inl e \<Rightarrow> fail_run x now fresh (pn_run run) (pn_owner run) Run_Manifest_Invalid
            | Inr m \<Rightarrow>
                bind_io (commit_manifest x now fresh m (encode_recap x (recap_request run m))) (\<lambda>_.
                ret ())))"

record tick_env =
  te_select_at :: instant
  te_begin_at :: instant
  te_begin_report :: uuid
  te_walks :: "nat \<Rightarrow> walk_env"
  te_manifest :: uuid
  te_settle_at :: instant
  te_settle_fresh :: uuid

definition proceed ::
  "externals \<Rightarrow> manifest_codec \<Rightarrow> tick_env \<Rightarrow> nat \<Rightarrow> pending_run \<Rightarrow> bool \<Rightarrow> bool executing" where
  "proceed x k te source_count run incomplete =
     bind_io (select_sources x source_count run) (\<lambda>selection.
     let short = incomplete \<or> sl_eligible selection > length (sl_sources selection) in
     bind_io (executing (record_acquisition (pn_run run) short)) (\<lambda>_.
     bind_io (executing (commit x k (te_settle_at te) (te_settle_fresh te) (te_manifest te) run
       (sl_sources selection) short)) (\<lambda>_.
     ret True)))"

text \<open>\<open>execute_one\<close>: whether a run was taken up.\<close>

definition execute_one ::
  "externals \<Rightarrow> manifest_codec \<Rightarrow> 'c provider \<Rightarrow> tick_env \<Rightarrow> nat \<Rightarrow> bool executing" where
  "execute_one x k pv te source_count =
     bind_io (select_pending x (te_select_at te)) (\<lambda>found.
     case found of
       None \<Rightarrow> ret False
     | Some run \<Rightarrow>
         bind_io
           (if pn_state run = Accepted
            then on_tables (begin_acquisition x (te_begin_at te) (te_begin_report te) run)
            else ret True) (\<lambda>begun.
         if \<not> begun then ret True
         else bind_io (subscribed_channels (pn_owner run)) (\<lambda>subscribed.
           bind_io (acquire x pv (te_walks te) run subscribed) (\<lambda>outcome.
           case outcome of
             Acquired_Deferred \<Rightarrow> ret True
           | Acquired_Unavailable \<Rightarrow>
               bind_io (executing (fail_run x (te_settle_at te) (te_settle_fresh te) (pn_run run)
                 (pn_owner run) Run_Provider_Unavailable)) (\<lambda>_. ret True)
           | Acquired_Complete \<Rightarrow> proceed x k te source_count run False
           | Acquired_Incomplete \<Rightarrow> proceed x k te source_count run True))))"

end
