(* ===== verification/Reaper.thy ===== *)
theory Reaper
  imports Lifecycle
begin

text \<open>
  \<open>src/reaper.rs\<close>: the deadline after which a run that nothing moved is failed, with the report
  of its operation, at most a hundred runs in one transaction.
\<close>

section \<open>One tick\<close>

datatype reaper_error = Reaper_Storage

definition deadline_class :: string where
  "deadline_class = ''deadline_exceeded''"

definition reap_limit :: nat where
  "reap_limit = 100"

definition overdue :: "instant \<Rightarrow> run_row \<Rightarrow> bool" where
  "overdue cutoff r \<longleftrightarrow> run_state r \<in> {Accepted, Acquiring, Waiting_Recap} \<and> run_updated r < cutoff"

text \<open>
  The rows the subquery selects: \<open>locked\<close> holds the runs that another transaction has locked,
  which \<open>for update skip locked\<close> passes over.
\<close>

definition reap_batch :: "instant \<Rightarrow> uuid set \<Rightarrow> db \<Rightarrow> run_row list" where
  "reap_batch cutoff locked d =
     oldest (\<lambda>r. (run_updated r, run_id r)) reap_limit
       (\<lambda>r. overdue cutoff r \<and> run_id r \<notin> locked) (runs d)"

definition deadline_failed :: "instant \<Rightarrow> run_row \<Rightarrow> run_row" where
  "deadline_failed now r =
     r\<lparr>run_state := Failed, run_failure := Some deadline_class, run_updated := now\<rparr>"

definition reap ::
  "instant \<Rightarrow> instant \<Rightarrow> uuid set \<Rightarrow> (db, (uuid \<times> uuid \<times> run_trigger) list) statement" where
  "reap now cutoff locked d =
     (let taken = named run_id (reap_batch cutoff locked d)
      in Inr (map (\<lambda>r. (run_owner r, run_operation r, run_trigger r)) (filter taken (runs d)),
           d\<lparr>runs := update_where taken (deadline_failed now) (runs d)\<rparr>))"

definition deadline_report :: "externals \<Rightarrow> uuid \<Rightarrow> uuid \<Rightarrow> report_error + report_row" where
  "deadline_report x owner operation =
     and_then (new_report x operation owner Op_Failed ''deadline'')
       (with_error x ''channel_digest.run_deadline_exceeded''
         ''The digest did not finish before its deadline.'' True)"

definition report_reaped ::
  "externals \<Rightarrow> instant \<Rightarrow> uuid \<times> uuid \<times> uuid \<times> run_trigger \<Rightarrow> (db, reaper_error, unit) io" where
  "report_reaped x now = (\<lambda>(fresh, owner, operation, trigger).
     if trigger = On_Demand
     then bind_io (map_err (\<lambda>_. Reaper_Storage) (from_result (deadline_report x owner operation))) (\<lambda>row.
       map_err (\<lambda>_. Reaper_Storage) (enqueue x now fresh row))
     else ret ())"

definition reap_body ::
  "externals \<Rightarrow> int \<Rightarrow> instant \<Rightarrow> uuid set \<Rightarrow> (nat \<Rightarrow> uuid) \<Rightarrow> instant
     \<Rightarrow> (db, reaper_error, nat tx_end) io" where
  "reap_body x deadline now locked fresh tick =
     bind_io (map_err (\<lambda>_. Reaper_Storage) (stmt (\<lambda>d.
         case pg_parse x (jiff_text x tick) of
           None \<Rightarrow> Inl Violation
         | Some t \<Rightarrow> reap now (t - deadline) locked d))) (\<lambda>reaped.
     bind_io (for_each (report_reaped x now) (zip (map fresh [0..<length reaped]) reaped)) (\<lambda>_.
     ret (Commit (length reaped))))"

text \<open>\<open>Reaper::reap_once\<close>: \<open>now\<close> is the database clock, \<open>tick\<close> the clock of the service.\<close>

definition reap_once ::
  "externals \<Rightarrow> int \<Rightarrow> instant \<Rightarrow> uuid set \<Rightarrow> (nat \<Rightarrow> uuid) \<Rightarrow> instant \<Rightarrow> (db, reaper_error, nat) io" where
  "reap_once x deadline now locked fresh tick =
     transaction Reaper_Storage (reap_body x deadline now locked fresh tick)"

section \<open>What a tick leaves\<close>

lemma steady_reap_body: "steady (reap_body x deadline now locked fresh tick)"
proof -
  have "steady (report_reaped x now i)" for i
    unfolding report_reaped_def by (intro steady_intros)
  then show ?thesis unfolding reap_body_def by (intro steady_intros)
qed

lemma crash_safe_reap_once: "crash_safe (reap_once x deadline now locked fresh tick)"
  unfolding reap_once_def by (intro crash_intros steady_reap_body)

lemma deadline_failed_moves: "moves_to Failed (deadline_failed now)"
  by (simp add: moves_to_def keeps_keys_def natural_key_def deadline_failed_def)

lemma set_reap_batch: "set (reap_batch cutoff locked d) \<subseteq> {r \<in> set (runs d). overdue cutoff r \<and> run_id r \<notin> locked}"
  by (auto simp: reap_batch_def dest: in_oldestD)

lemma wp_report_reaped:
  assumes wf: "reports_wf (outbox d)"
  shows "wp (report_reaped x now (fresh, owner, operation, trigger))
     (\<lambda>_ d'. runs d' = runs d
        \<and> (if trigger = On_Demand then queues (outbox d) (outbox d') operation Op_Failed
           else outbox d' = outbox d)) d"
  unfolding report_reaped_def
  by (simp only: prod.case) (intro wp_intros; auto simp: deadline_report_def report_builders intro!: queuesI)

definition report_done :: "uuid \<times> uuid \<times> uuid \<times> run_trigger \<Rightarrow> db \<Rightarrow> bool" where
  "report_done i d \<longleftrightarrow>
     (snd (snd (snd i)) = On_Demand \<longrightarrow> reported (outbox d) (fst (snd (snd i))) Op_Failed)"

lemma wp_reports_of_reaped:
  assumes wf: "reports_wf (outbox d)" and old: "list_all (announced (outbox d)) rs"
  shows "wp (for_each (report_reaped x now) is)
     (\<lambda>_ d'. (runs d' = runs d \<and> reports_wf (outbox d') \<and> list_all (announced (outbox d')) rs)
        \<and> (\<forall>i \<in> set is. report_done i d') \<and> (\<forall>i. report_done i d \<longrightarrow> report_done i d')) d"
proof (rule wp_for_each_done)
  fix i :: "uuid \<times> uuid \<times> uuid \<times> run_trigger" and d1 :: db
  assume J: "runs d1 = runs d \<and> reports_wf (outbox d1) \<and> list_all (announced (outbox d1)) rs"
  obtain f owner operation trigger where i: "i = (f, owner, operation, trigger)" by (cases i)
  show "wp (report_reaped x now i)
      (\<lambda>_ d'. (runs d' = runs d \<and> reports_wf (outbox d') \<and> list_all (announced (outbox d')) rs)
         \<and> report_done i d' \<and> (\<forall>y. report_done y d1 \<longrightarrow> report_done y d')) d1"
    unfolding i
  proof (rule wp_mono [OF wp_report_reaped])
    fix u and d2 :: db
    assume step: "runs d2 = runs d1 \<and> (if trigger = On_Demand
        then queues (outbox d1) (outbox d2) operation Op_Failed else outbox d2 = outbox d1)"
    show "(runs d2 = runs d \<and> reports_wf (outbox d2) \<and> list_all (announced (outbox d2)) rs)
        \<and> report_done (f, owner, operation, trigger) d2 \<and> (\<forall>y. report_done y d1 \<longrightarrow> report_done y d2)"
    proof (cases "trigger = On_Demand")
      case True
      with step have q: "queues (outbox d1) (outbox d2) operation Op_Failed" by simp
      from q have "reported (outbox d2) o' s" if "reported (outbox d1) o' s" for o' s
        using that by (auto simp: queues_def intro: reported_once)
      with queues_keeps [OF q] J step show ?thesis by (auto simp: report_done_def)
    qed (use step J in \<open>simp add: report_done_def\<close>)
  qed (use J in simp)
qed (use wf old in simp)

lemma taken_in_zip:
  assumes "v \<in> set vs"
  shows "\<exists>f. (f, v) \<in> set (zip (map fresh [0..<length vs]) vs)"
proof -
  from assms obtain k where "k < length vs" and "vs ! k = v" by (auto simp: in_set_conv_nth)
  then have "zip (map fresh [0..<length vs]) vs ! k = (fresh k, v)" by simp
  with \<open>k < length vs\<close> show ?thesis
    by (metis length_map length_upt length_zip min.idem minus_nat.diff_0 nth_mem)
qed

lemma lifecycle_ok_reaped:
  assumes ok: "lifecycle_ok d" and runs: "runs d' = update_where taken (deadline_failed now) (runs d)"
    and wf: "reports_wf (outbox d')" and old: "list_all (announced (outbox d')) (runs d)"
    and failed: "\<And>r. r \<in> set (runs d) \<Longrightarrow> taken r \<Longrightarrow> run_trigger r = On_Demand
      \<Longrightarrow> reported (outbox d') (run_operation r) Op_Failed"
  shows "lifecycle_ok d'"
proof -
  have "announced (outbox d') r'" if "r' \<in> set (runs d')" for r'
    using that unfolding runs
  proof (cases rule: in_update_whereE)
    case (1 r)
    from old 1(1) have "announced (outbox d') r" by (auto simp: list_all_iff)
    then have "announced (outbox d') (deadline_failed now r)"
      using deadline_failed_moves by (rule announced_moved) (use failed [OF 1(1,2)] in simp)
    with 1 show ?thesis by simp
  qed (use old in \<open>auto simp: list_all_iff\<close>)
  moreover have "runs_ok (runs d')"
    using ok deadline_failed_moves unfolding runs moves_to_def lifecycle_ok_def
    by (blast intro: update_runs_ok)
  ultimately show ?thesis using wf by (simp add: lifecycle_ok_def list_all_iff)
qed

lemma lifecycle_reap_once: "preserves lifecycle_ok (reap_once x deadline now locked fresh tick)"
  unfolding reap_once_def
proof (rule preserves_transaction)
  fix d
  assume ok: "lifecycle_ok d"
  then have wf: "reports_wf (outbox d)" and old: "list_all (announced (outbox d)) (runs d)"
    by (simp_all add: lifecycle_ok_def)
  have after: "wp (for_each (report_reaped x now) (zip (map fresh [0..<length reaped]) reaped))
      (\<lambda>_. lifecycle_ok) d1"
    if run: "(case pg_parse x (jiff_text x tick) of None \<Rightarrow> Inl Violation
          | Some t \<Rightarrow> reap now (t - deadline) locked d) = Inr (reaped, d1)" for reaped d1
  proof -
    from run obtain cutoff where reap: "reap now cutoff locked d = Inr (reaped, d1)"
      by (auto split: option.splits)
    define taken where "taken = named run_id (reap_batch cutoff locked d)"
    have reaped: "reaped = map (\<lambda>r. (run_owner r, run_operation r, run_trigger r)) (filter taken (runs d))"
      and d1: "d1 = d\<lparr>runs := update_where taken (deadline_failed now) (runs d)\<rparr>"
      using reap by (simp_all add: reap_def Let_def taken_def)
    let ?is = "zip (map fresh [0..<length reaped]) reaped"
    have "wp (for_each (report_reaped x now) ?is)
       (\<lambda>_ d'. (runs d' = runs d1 \<and> reports_wf (outbox d') \<and> list_all (announced (outbox d')) (runs d))
          \<and> (\<forall>i \<in> set ?is. report_done i d') \<and> (\<forall>i. report_done i d1 \<longrightarrow> report_done i d')) d1"
      by (rule wp_reports_of_reaped) (use wf old d1 in simp_all)
    then show ?thesis
    proof (rule wp_mono)
      fix u d2
      assume d2: "(runs d2 = runs d1 \<and> reports_wf (outbox d2) \<and> list_all (announced (outbox d2)) (runs d))
          \<and> (\<forall>i \<in> set ?is. report_done i d2) \<and> (\<forall>i. report_done i d1 \<longrightarrow> report_done i d2)"
      have failed: "reported (outbox d2) (run_operation r) Op_Failed"
        if r: "r \<in> set (runs d)" "taken r" "run_trigger r = On_Demand" for r
      proof -
        from r have "(run_owner r, run_operation r, run_trigger r) \<in> set reaped"
          by (auto simp: reaped)
        from taken_in_zip [OF this, of fresh] obtain f
          where "(f, run_owner r, run_operation r, run_trigger r) \<in> set ?is" by blast
        moreover from d2 have "\<forall>i \<in> set ?is. report_done i d2" by simp
        ultimately have "report_done (f, run_owner r, run_operation r, run_trigger r) d2" by (rule bspec [rotated])
        with r(3) show ?thesis by (simp add: report_done_def)
      qed
      show "lifecycle_ok d2"
        by (rule lifecycle_ok_reaped [OF ok, where taken = taken and now = now])
          (use d1 d2 failed in simp_all)
    qed
  qed
  show "wp (reap_body x deadline now locked fresh tick) (\<lambda>t d'. committed t \<longrightarrow> lifecycle_ok d') d"
    unfolding reap_body_def
    by (intro wp_intros wp_stmt wp_mono [OF after]) auto
qed

end
