(* ===== verification/Registration.thy ===== *)
theory Registration
  imports Reports
begin

text \<open>
  \<open>src/registration.rs\<close>: the schedule registration queued at the start of a worker, again only
  when the configured owner, cron expression or enablement is not the one queued last.
\<close>

section \<open>The registration command\<close>

definition registration_subject :: string where
  "registration_subject = ''platform.schedule.registration_requested.v1''"

definition service_name :: string where
  "service_name = ''ratatoskr-channel-digests''"

definition schedule_name :: string where
  "schedule_name = ''daily-digest''"

definition operation_kind :: string where
  "operation_kind = ''channel_digest.schedule.occurrence''"

datatype registration_outcome = Enqueued | Unchanged | Skipped

datatype registration_error = Registration_Unavailable

record schedule_config =
  sched_owner :: uuid
  sched_cron :: string
  sched_enabled :: bool
  sched_language :: language

definition registration :: "externals \<Rightarrow> schedule_config \<Rightarrow> registration_error + registration" where
  "registration x s =
     (if label_parses x service_name \<and> label_parses x schedule_name
         \<and> cron_parses x (sched_cron s) \<and> operation_kind_parses x operation_kind
      then Inr \<lparr>reg_service = service_name, reg_name = schedule_name, reg_owner = sched_owner s,
             reg_cron = sched_cron s, reg_operation_kind = operation_kind,
             reg_enabled = sched_enabled s\<rparr>
      else Inl Registration_Unavailable)"

definition bool_text :: "bool \<Rightarrow> string" where
  "bool_text b = (if b then ''true'' else ''false'')"

definition registration_key :: "externals \<Rightarrow> schedule_config \<Rightarrow> string" where
  "registration_key x s =
     sha256 x (uuid_text (sched_owner s) @ ''|'' @ sched_cron s @ ''|'' @ bool_text (sched_enabled s))"

section \<open>Queueing it\<close>

text \<open>\<open>order by created_at desc, outbox_id desc limit 1\<close>\<close>

fun latest_row :: "outbox_row list \<Rightarrow> outbox_row option" where
  "latest_row [] = None"
| "latest_row (r # rs) =
     (case latest_row rs of
        None \<Rightarrow> Some r
      | Some q \<Rightarrow>
          Some (if (out_created q, out_id q) < (out_created r, out_id r) then r else q))"

definition latest_registration :: "db \<Rightarrow> string option" where
  "latest_registration d =
     map_option out_key (latest_row (filter (\<lambda>r. out_subject r = registration_subject) (outbox d)))"

definition queued_registration ::
  "instant \<Rightarrow> uuid \<Rightarrow> string \<Rightarrow> uuid \<Rightarrow> registration \<Rightarrow> outbox_row" where
  "queued_registration now fresh key owner payload =
     \<lparr>out_id = fresh, out_subject = registration_subject, out_key = key, out_owner = owner,
      out_operation = None, out_causation = None, out_payload = Registration_Payload payload,
      out_created = now, out_published = None, out_attempts = 0, out_next_attempt = now,
      out_failure = None\<rparr>"

text \<open>The columns that \<open>on conflict do update\<close> overwrites; the owner stays.\<close>

definition requeue :: "outbox_row \<Rightarrow> outbox_row \<Rightarrow> outbox_row" where
  "requeue new r =
     r\<lparr>out_id := out_id new, out_created := out_created new, out_published := None,
       out_attempts := 0, out_next_attempt := out_next_attempt new, out_failure := None,
       out_payload := out_payload new\<rparr>"

definition same_key :: "outbox_row \<Rightarrow> outbox_row \<Rightarrow> bool" where
  "same_key new r \<longleftrightarrow> out_subject r = out_subject new \<and> out_key r = out_key new"

definition upsert_outbox :: "outbox_row \<Rightarrow> (db, unit) statement" where
  "upsert_outbox new d =
     (if out_id new \<in> out_id ` set (filter (\<lambda>r. \<not> same_key new r) (outbox d)) then Inl Violation
      else if list_ex (same_key new) (outbox d)
      then Inr ((), d\<lparr>outbox := update_where (same_key new) (requeue new) (outbox d)\<rparr>)
      else Inr ((), d\<lparr>outbox := outbox d @ [new]\<rparr>))"

definition registration_body ::
  "instant \<Rightarrow> uuid \<Rightarrow> string \<Rightarrow> uuid \<Rightarrow> registration
     \<Rightarrow> (db, registration_error, registration_outcome tx_end) io" where
  "registration_body now fresh key owner payload =
     bind_io (map_err (\<lambda>_. Registration_Unavailable) (stmt (query latest_registration))) (\<lambda>latest.
     if latest = Some key then ret (Dropped Unchanged)
     else bind_io (map_err (\<lambda>_. Registration_Unavailable)
         (stmt (upsert_outbox (queued_registration now fresh key owner payload)))) (\<lambda>_.
       ret (Commit Enqueued)))"

definition enqueue_schedule_registration ::
  "externals \<Rightarrow> instant \<Rightarrow> uuid \<Rightarrow> schedule_config option
     \<Rightarrow> (db, registration_error, registration_outcome) io" where
  "enqueue_schedule_registration x now fresh schedule =
     (case schedule of
        None \<Rightarrow> ret Skipped
      | Some s \<Rightarrow>
          bind_io (from_result (registration x s)) (\<lambda>payload.
          transaction Registration_Unavailable
            (registration_body now fresh (registration_key x s) (sched_owner s) payload)))"

section \<open>Atomicity\<close>

lemma steady_registration_body: "steady (registration_body now fresh key owner payload)"
  unfolding registration_body_def by (intro steady_intros)

lemma crash_safe_registration: "crash_safe (enqueue_schedule_registration x now fresh schedule)"
  unfolding enqueue_schedule_registration_def
  by (intro crash_intros steady_registration_body)

lemma latest_row_None [simp]: "latest_row rs = None \<longleftrightarrow> rs = []"
  by (cases rs) (simp_all split: option.split)

lemma latest_row_in: "latest_row rs = Some p \<Longrightarrow> p \<in> set rs"
proof (induction rs arbitrary: p)
  case (Cons q rs)
  then show ?case by (cases "latest_row rs") (auto split: if_splits)
qed simp

text \<open>The latest row is the greatest by creation and identity.\<close>

lemma latest_row_greatest:
  assumes "r \<in> set rs" and "\<And>q. q \<in> set rs \<Longrightarrow> q \<noteq> r \<Longrightarrow> (out_created q, out_id q) < (out_created r, out_id r)"
  shows "latest_row rs = Some r"
  using assms
proof (induction rs)
  case (Cons q rs)
  show ?case
  proof (cases "r \<in> set rs")
    case True
    with Cons have latest: "latest_row rs = Some r" by simp
    show ?thesis
    proof (cases "q = r")
      case True
      with latest show ?thesis by simp
    next
      case False
      with Cons.prems(2) [of q] have "(out_created q, out_id q) < (out_created r, out_id r)" by simp
      then have "\<not> (out_created r, out_id r) < (out_created q, out_id q)" by (rule less_not_sym)
      with latest show ?thesis by (simp only: latest_row.simps option.case if_False)
    qed
  next
    case False
    with Cons.prems(1) have q: "q = r" by simp
    show ?thesis
    proof (cases "latest_row rs")
      case None
      then show ?thesis by (simp add: q)
    next
      case (Some p)
      then have "p \<in> set rs" by (rule latest_row_in)
      with Cons.prems(2) [of p] False have "(out_created p, out_id p) < (out_created r, out_id r)" by auto
      with Some show ?thesis by (simp only: q latest_row.simps option.case if_True)
    qed
  qed
qed simp

lemma wp_upsert_outbox [wp_intros]:
  assumes "list_ex (same_key new) (outbox d)
      \<Longrightarrow> Q () (d\<lparr>outbox := update_where (same_key new) (requeue new) (outbox d)\<rparr>)"
    and "\<not> list_ex (same_key new) (outbox d) \<Longrightarrow> Q () (d\<lparr>outbox := outbox d @ [new]\<rparr>)"
  shows "wp (stmt (upsert_outbox new)) Q d"
  by (rule wp_stmt) (use assms in \<open>auto simp: upsert_outbox_def split: if_splits\<close>)

end
