(* ===== verification/Envelopes.thy ===== *)
theory Envelopes
  imports Coordinator Registration
begin

text \<open>
  \<open>src/envelopes.rs\<close>: the contract envelope of an outbox row, built from the row alone when it is
  published. Serialized envelopes are opaque: their type is the parameter \<open>'b\<close>, and the envelope
  and JSON crates are the fields of \<open>codec\<close>.
\<close>

section \<open>Envelopes\<close>

datatype bus_error = Bus_Unavailable | Bus_Unacknowledged | Bus_Unwrappable

text \<open>The schema version is always the current one and the extensions are always empty.\<close>

record command_envelope =
  ce_id :: uuid
  ce_type :: string
  ce_issued :: instant
  ce_producer :: string
  ce_aggregate :: string
  ce_correlation :: string
  ce_causation :: "string option"
  ce_tenant :: "string option"
  ce_payload :: "(string \<times> json) list"

record event_envelope =
  ee_id :: uuid
  ee_type :: string
  ee_occurred :: instant
  ee_producer :: string
  ee_aggregate :: string
  ee_correlation :: string
  ee_causation :: "string option"
  ee_tenant :: "string option"
  ee_payload :: "(string \<times> json) list"

text \<open>
  A schedule occurrence as its payload decodes, with the answer of \<open>validate_for_publish\<close> and its
  serialization; of the other inbound payloads the service reads the owner before it serializes them.
\<close>

record occurrence_payload =
  op_valid :: bool
  op_ref :: string
  op_previous :: string
  op_due :: string
  op_bytes :: "string option"

type_synonym owned_payload = "string \<times> string option"

text \<open>
  \<open>as_report\<close>, \<open>as_recap\<close> and \<open>as_registration\<close> decode a stored JSON value as that contract,
  \<open>payload_entries\<close> is what \<open>set_payload\<close> puts into an envelope, the next four are the codec of whole
  envelopes, and \<open>micros_text\<close> is the \<open>to_char\<close> form with microseconds. The rest decodes what
  the bus delivers: the payload contracts and the parts of an entity reference.
\<close>

record 'b codec =
  as_report :: "payload \<Rightarrow> report option"
  as_recap :: "payload \<Rightarrow> recap_request option"
  as_registration :: "payload \<Rightarrow> registration option"
  payload_entries :: "payload \<Rightarrow> (string \<times> json) list option"
  producer_parses :: "string \<Rightarrow> bool"
  encode_command :: "command_envelope \<Rightarrow> 'b option"
  encode_event :: "event_envelope \<Rightarrow> 'b option"
  decode_command :: "'b \<Rightarrow> command_envelope option"
  decode_event :: "'b \<Rightarrow> event_envelope option"
  micros_text :: "instant \<Rightarrow> string"
  as_subscription :: "(string \<times> json) list \<Rightarrow> owned_payload option"
  as_run :: "(string \<times> json) list \<Rightarrow> owned_payload option"
  as_occurrence :: "(string \<times> json) list \<Rightarrow> occurrence_payload option"
  as_completed :: "(string \<times> json) list \<Rightarrow> owned_payload option"
  as_failed :: "(string \<times> json) list \<Rightarrow> owned_payload option"
  entity_kind :: "string \<Rightarrow> string"
  entity_uuid :: "string \<Rightarrow> uuid option"

section \<open>Wrapping a row\<close>

definition producer_name :: string where
  "producer_name = ''ratatoskr-channel-digests''"

definition command_subjects :: "string list" where
  "command_subjects = [recap_subject, registration_subject]"

text \<open>\<open>OutboxRow\<close>: one unpublished row as it is read back.\<close>

record unpublished =
  up_id :: uuid
  up_subject :: string
  up_owner :: uuid
  up_operation :: "uuid option"
  up_causation :: "string option"
  up_created :: instant
  up_payload :: payload

record 'b outbound =
  om_subject :: string
  om_id :: uuid
  om_bytes :: 'b

definition tenant_of_user :: "uuid \<Rightarrow> string" where
  "tenant_of_user u = ''user:'' @ uuid_text u"

definition wrappable :: "'a option \<Rightarrow> bus_error + 'a" where
  "wrappable v = (case v of None \<Rightarrow> Inl Bus_Unwrappable | Some r \<Rightarrow> Inr r)"

definition entity :: "externals \<Rightarrow> string \<Rightarrow> bus_error + string" where
  "entity x raw = (if entity_parses x raw then Inr raw else Inl Bus_Unwrappable)"

definition causation :: "externals \<Rightarrow> unpublished \<Rightarrow> bus_error + string option" where
  "causation x row =
     (case up_causation row of
        None \<Rightarrow> Inr None
      | Some raw \<Rightarrow> and_then (entity x raw) (\<lambda>e. Inr (Some e)))"

definition producer :: "'b codec \<Rightarrow> bus_error + string" where
  "producer cd = (if producer_parses cd producer_name then Inr producer_name else Inl Bus_Unwrappable)"

definition make_command ::
  "externals \<Rightarrow> 'b codec \<Rightarrow> unpublished \<Rightarrow> string \<Rightarrow> payload \<Rightarrow> string \<Rightarrow> string \<Rightarrow> bus_error + 'b" where
  "make_command x cd row type payload aggregate correlation =
     and_then (producer cd) (\<lambda>p.
     and_then (entity x aggregate) (\<lambda>a.
     and_then (entity x correlation) (\<lambda>c.
     and_then (causation x row) (\<lambda>k.
     and_then (wrappable (payload_entries cd payload)) (\<lambda>es.
     wrappable (encode_command cd
       \<lparr>ce_id = up_id row, ce_type = type, ce_issued = up_created row, ce_producer = p,
        ce_aggregate = a, ce_correlation = c, ce_causation = k,
        ce_tenant = Some (tenant_of_user (up_owner row)), ce_payload = es\<rparr>))))))"

definition recap_request_envelope ::
  "externals \<Rightarrow> 'b codec \<Rightarrow> unpublished \<Rightarrow> bus_error + 'b" where
  "recap_request_envelope x cd row =
     and_then (wrappable (as_recap cd (up_payload row))) (\<lambda>request.
     if \<not> valid_recap x request then Inl Bus_Unwrappable
     else make_command x cd row recap_subject (Recap_Payload request)
       (''channel-digest-run:'' @ rq_run request)
       (''operation:'' @ uuid_text (rq_operation request)))"

definition registration_envelope ::
  "externals \<Rightarrow> 'b codec \<Rightarrow> unpublished \<Rightarrow> bus_error + 'b" where
  "registration_envelope x cd row =
     and_then (wrappable (as_registration cd (up_payload row))) (\<lambda>registration.
     if reg_service registration \<noteq> producer_name then Inl Bus_Unwrappable
     else make_command x cd row registration_subject (Registration_Payload registration)
       (''schedule-registration:'' @ reg_service registration @ ''.'' @ reg_name registration)
       (''command:'' @ uuid_text (up_id row)))"

definition report_envelope ::
  "externals \<Rightarrow> 'b codec \<Rightarrow> unpublished \<Rightarrow> bus_error + 'b" where
  "report_envelope x cd row =
     and_then (wrappable (as_report cd (up_payload row))) (\<lambda>report.
     if \<not> valid_report x report then Inl Bus_Unwrappable
     else
       (let operation = ''operation:'' @ uuid_text (rep_operation report) in
        and_then (producer cd) (\<lambda>p.
        and_then (entity x operation) (\<lambda>a.
        and_then (causation x row) (\<lambda>k.
        and_then (wrappable (payload_entries cd (Report_Payload report))) (\<lambda>es.
        wrappable (encode_event cd
          \<lparr>ee_id = up_id row, ee_type = report_subject, ee_occurred = up_created row,
           ee_producer = p, ee_aggregate = a, ee_correlation = a, ee_causation = k,
           ee_tenant = Some (tenant_of_user (up_owner row)), ee_payload = es\<rparr>)))))))"

definition wrap_outbox_row ::
  "externals \<Rightarrow> 'b codec \<Rightarrow> unpublished \<Rightarrow> bus_error + 'b outbound" where
  "wrap_outbox_row x cd row =
     (let subject = up_subject row in
      and_then
        (if subject = report_subject
         then and_then (report_envelope x cd row) (\<lambda>b. Inr (''evt'', b))
         else if subject \<in> set command_subjects
         then and_then
           (if subject = recap_subject then recap_request_envelope x cd row
            else registration_envelope x cd row) (\<lambda>b. Inr (''cmd'', b))
         else Inl Bus_Unwrappable) (\<lambda>(class, b).
      Inr \<lparr>om_subject = class @ ''.'' @ subject, om_id = up_id row, om_bytes = b\<rparr>))"

section \<open>Rows that wrap\<close>

text \<open>What the wrapping of a row rests on; the subject classes are disjoint.\<close>

lemma subjects_distinct [key_simps, simp]:
  "report_subject \<noteq> recap_subject" "report_subject \<noteq> registration_subject"
  "recap_subject \<noteq> registration_subject" "recap_subject \<noteq> report_subject"
  "registration_subject \<noteq> report_subject" "registration_subject \<noteq> recap_subject"
  by (simp_all add: report_subject_def recap_subject_def registration_subject_def)

definition good_payload :: "externals \<Rightarrow> string \<Rightarrow> payload \<Rightarrow> bool" where
  "good_payload x subject p \<longleftrightarrow>
     (case p of
        Report_Payload r \<Rightarrow> subject = report_subject \<and> valid_report x r
      | Recap_Payload r \<Rightarrow> subject = recap_subject \<and> valid_recap x r \<and> (\<exists>u. rq_run r = uuid_text u)
      | Registration_Payload r \<Rightarrow>
          subject = registration_subject \<and> reg_service r = service_name \<and> reg_name r = schedule_name)"

definition good_causation :: "string option \<Rightarrow> bool" where
  "good_causation c \<longleftrightarrow>
     (case c of None \<Rightarrow> True
      | Some raw \<Rightarrow> \<exists>u. raw = command_reference u \<or> raw = ''event:'' @ uuid_text u)"

text \<open>
  The documented behaviour of the contract crates: a value reads back as it was written, entity
  references of a kind and an identity parse, and serializing an envelope does not fail and is
  undone by parsing.
\<close>

definition codec_ok :: "externals \<Rightarrow> 'b codec \<Rightarrow> bool" where
  "codec_ok x cd \<longleftrightarrow>
     (\<forall>r. as_report cd (Report_Payload r) = Some r) \<and> (\<forall>r. as_recap cd (Recap_Payload r) = Some r)
     \<and> (\<forall>r. as_registration cd (Registration_Payload r) = Some r)
     \<and> (\<forall>p. payload_entries cd p \<noteq> None) \<and> producer_parses cd producer_name
     \<and> (\<forall>k \<in> {''operation'', ''command'', ''event'', ''channel-digest-run''}. \<forall>u.
          entity_parses x (k @ '':'' @ uuid_text u))
     \<and> entity_parses x (''schedule-registration:'' @ service_name @ ''.'' @ schedule_name)
     \<and> (\<forall>e. \<exists>b. encode_command cd e = Some b \<and> decode_command cd b = Some e)
     \<and> (\<forall>e. \<exists>b. encode_event cd e = Some b \<and> decode_event cd b = Some e)
     \<and> (\<forall>t. jiff_parse x (micros_text cd t) = Some t)"

lemma codec_okD:
  assumes "codec_ok x cd"
  shows "as_report cd (Report_Payload r) = Some r" and "as_recap cd (Recap_Payload q) = Some q"
    and "as_registration cd (Registration_Payload g) = Some g" and "producer_parses cd producer_name"
    and "entity_parses x (''operation:'' @ uuid_text u)" and "entity_parses x (''command:'' @ uuid_text u)"
    and "entity_parses x (''event:'' @ uuid_text u)"
    and "entity_parses x (''channel-digest-run:'' @ uuid_text u)"
    and "entity_parses x (''schedule-registration:'' @ service_name @ ''.'' @ schedule_name)"
    and "jiff_parse x (micros_text cd t) = Some t"
  using assms by (simp_all add: codec_ok_def)

lemma codec_ok_entries: "codec_ok x cd \<Longrightarrow> \<exists>es. payload_entries cd p = Some es"
  by (simp add: codec_ok_def)

lemma codec_ok_command: "codec_ok x cd \<Longrightarrow> \<exists>b. encode_command cd e = Some b \<and> decode_command cd b = Some e"
  by (simp add: codec_ok_def)

lemma codec_ok_event: "codec_ok x cd \<Longrightarrow> \<exists>b. encode_event cd e = Some b \<and> decode_event cd b = Some e"
  by (simp add: codec_ok_def)

lemma good_causation_wraps:
  "codec_ok x cd \<Longrightarrow> good_causation (up_causation row) \<Longrightarrow> causation x row = Inr (up_causation row)"
  using codec_okD(6,7) [of x cd]
  by (auto simp: good_causation_def causation_def entity_def command_reference_def split: option.splits)

text \<open>A wrapped row, read back by its consumer.\<close>

definition carries_command :: "'b codec \<Rightarrow> unpublished \<Rightarrow> 'b outbound \<Rightarrow> bool" where
  "carries_command cd row m \<longleftrightarrow>
     (case decode_command cd (om_bytes m) of
        None \<Rightarrow> False
      | Some e \<Rightarrow> ce_id e = up_id row \<and> ce_type e = up_subject row \<and> ce_issued e = up_created row
          \<and> ce_producer e = producer_name \<and> ce_causation e = up_causation row
          \<and> ce_tenant e = Some (tenant_of_user (up_owner row))
          \<and> payload_entries cd (up_payload row) = Some (ce_payload e))"

definition carries_event :: "'b codec \<Rightarrow> unpublished \<Rightarrow> 'b outbound \<Rightarrow> bool" where
  "carries_event cd row m \<longleftrightarrow>
     (case decode_event cd (om_bytes m) of
        None \<Rightarrow> False
      | Some e \<Rightarrow> ee_id e = up_id row \<and> ee_type e = up_subject row \<and> ee_occurred e = up_created row
          \<and> ee_producer e = producer_name \<and> ee_causation e = up_causation row
          \<and> ee_tenant e = Some (tenant_of_user (up_owner row))
          \<and> payload_entries cd (up_payload row) = Some (ee_payload e))"

definition carries :: "'b codec \<Rightarrow> unpublished \<Rightarrow> 'b outbound \<Rightarrow> bool" where
  "carries cd row m \<longleftrightarrow> om_id m = up_id row
     \<and> (if up_subject row = report_subject
        then om_subject m = ''evt.'' @ up_subject row \<and> carries_event cd row m
        else om_subject m = ''cmd.'' @ up_subject row \<and> carries_command cd row m)"

lemma make_command_wraps:
  assumes ok: "codec_ok x cd" and "good_causation (up_causation row)"
    and "entity_parses x aggregate" and "entity_parses x correlation"
  obtains b where "make_command x cd row type payload aggregate correlation = Inr b"
    and "\<And>s. type = up_subject row \<Longrightarrow> payload = up_payload row
        \<Longrightarrow> carries_command cd row \<lparr>om_subject = s, om_id = up_id row, om_bytes = b\<rparr>"
proof -
  obtain es where es: "payload_entries cd payload = Some es" using codec_ok_entries [OF ok] by blast
  let ?e = "\<lparr>ce_id = up_id row, ce_type = type, ce_issued = up_created row, ce_producer = producer_name,
      ce_aggregate = aggregate, ce_correlation = correlation, ce_causation = up_causation row,
      ce_tenant = Some (tenant_of_user (up_owner row)), ce_payload = es\<rparr>"
  obtain b where "encode_command cd ?e = Some b" and "decode_command cd b = Some ?e"
    using codec_ok_command [OF ok] by blast
  with assms es good_causation_wraps [OF ok] codec_okD(4) [OF ok] show thesis
    by (intro that [of b])
      (simp_all add: make_command_def producer_def entity_def wrappable_def carries_command_def)
qed

lemma report_envelope_wraps:
  assumes ok: "codec_ok x cd" and "good_causation (up_causation row)"
    and payload: "up_payload row = Report_Payload r" and "valid_report x r"
  obtains b where "report_envelope x cd row = Inr b"
    and "\<And>s. up_subject row = report_subject
        \<Longrightarrow> carries_event cd row \<lparr>om_subject = s, om_id = up_id row, om_bytes = b\<rparr>"
proof -
  let ?o = "''operation:'' @ uuid_text (rep_operation r)"
  obtain es where es: "payload_entries cd (Report_Payload r) = Some es" using codec_ok_entries [OF ok] by blast
  let ?e = "\<lparr>ee_id = up_id row, ee_type = report_subject, ee_occurred = up_created row,
      ee_producer = producer_name, ee_aggregate = ?o, ee_correlation = ?o,
      ee_causation = up_causation row, ee_tenant = Some (tenant_of_user (up_owner row)), ee_payload = es\<rparr>"
  obtain b where "encode_event cd ?e = Some b" and "decode_event cd b = Some ?e"
    using codec_ok_event [OF ok] by blast
  with assms es good_causation_wraps [OF ok] codec_okD(1,4,5) [OF ok] show thesis
    by (intro that [of b])
      (simp_all add: report_envelope_def producer_def entity_def wrappable_def carries_event_def Let_def)
qed

text \<open>A row with a valid payload of its subject wraps, and its message carries the row.\<close>

lemma good_row_wraps:
  assumes ok: "codec_ok x cd" and payload: "good_payload x (up_subject row) (up_payload row)"
    and caused: "good_causation (up_causation row)"
  obtains m where "wrap_outbox_row x cd row = Inr m" and "carries cd row m"
proof (cases "up_payload row")
  case (Report_Payload r)
  with payload have subject: "up_subject row = report_subject" and valid: "valid_report x r"
    by (simp_all add: good_payload_def)
  obtain b where b: "report_envelope x cd row = Inr b"
    and carried: "\<And>s. up_subject row = report_subject
        \<Longrightarrow> carries_event cd row \<lparr>om_subject = s, om_id = up_id row, om_bytes = b\<rparr>"
    using report_envelope_wraps [OF ok caused Report_Payload valid] by blast
  show thesis
    by (rule that [of "\<lparr>om_subject = ''evt.'' @ up_subject row, om_id = up_id row, om_bytes = b\<rparr>"])
      (simp_all add: wrap_outbox_row_def subject b carries_def carried)
next
  case (Recap_Payload r)
  with payload obtain u where subject: "up_subject row = recap_subject" and valid: "valid_recap x r"
    and run: "rq_run r = uuid_text u"
    by (auto simp: good_payload_def)
  obtain b where b: "make_command x cd row recap_subject (Recap_Payload r)
        (''channel-digest-run:'' @ rq_run r) (''operation:'' @ uuid_text (rq_operation r)) = Inr b"
    and carried: "\<And>s. recap_subject = up_subject row \<Longrightarrow> Recap_Payload r = up_payload row
        \<Longrightarrow> carries_command cd row \<lparr>om_subject = s, om_id = up_id row, om_bytes = b\<rparr>"
    using make_command_wraps [OF ok caused] codec_okD(5,8) [OF ok] run by metis
  from b have wrapped: "recap_request_envelope x cd row = Inr b"
    by (simp add: recap_request_envelope_def wrappable_def codec_okD(2) [OF ok] valid Recap_Payload)
  show thesis
    by (rule that [of "\<lparr>om_subject = ''cmd.'' @ up_subject row, om_id = up_id row, om_bytes = b\<rparr>"])
      (simp_all add: wrap_outbox_row_def command_subjects_def wrapped subject carries_def carried
        Recap_Payload)
next
  case (Registration_Payload r)
  with payload have subject: "up_subject row = registration_subject"
    and service: "reg_service r = service_name" and name: "reg_name r = schedule_name"
    by (simp_all add: good_payload_def)
  obtain b where b: "make_command x cd row registration_subject (Registration_Payload r)
        (''schedule-registration:'' @ reg_service r @ ''.'' @ reg_name r)
        (''command:'' @ uuid_text (up_id row)) = Inr b"
    and carried: "\<And>s. registration_subject = up_subject row \<Longrightarrow> Registration_Payload r = up_payload row
        \<Longrightarrow> carries_command cd row \<lparr>om_subject = s, om_id = up_id row, om_bytes = b\<rparr>"
    using make_command_wraps [OF ok caused] codec_okD(6,9) [OF ok] service name by metis
  have "reg_service r = producer_name" by (simp add: service service_name_def producer_name_def)
  with b have wrapped: "registration_envelope x cd row = Inr b"
    by (simp add: registration_envelope_def wrappable_def codec_okD(3) [OF ok] Registration_Payload)
  show thesis
    by (intro that [of "\<lparr>om_subject = ''cmd.'' @ up_subject row, om_id = up_id row, om_bytes = b\<rparr>"])
      (simp_all add: wrap_outbox_row_def command_subjects_def wrapped subject carries_def carried
        Registration_Payload)
qed

end
