(* ===== verification/Publishing.thy ===== *)
theory Publishing
  imports Envelopes
begin

text \<open>
  The publishing half of \<open>src/bus.rs\<close>: the due rows of the outbox go to the broker one by one, each
  is marked when the broker acknowledged it and is backed off when it did not. What the broker
  answers is the environment's choice, a list of replies that an exhausted list answers with an
  acknowledgement.
\<close>

section \<open>The broker\<close>

text \<open>
  A publish is acknowledged; or stored, with its acknowledgement lost; or denied, which looks the
  same to the client; or it cannot be sent at all.
\<close>

datatype publish_reply = Acknowledged | Ack_Lost | Denied | Unsent

record 'b broker =
  broker_log :: "'b outbound list"
  broker_replies :: "publish_reply list"

type_synonym ('b, 'a) bus = "(db \<times> 'b broker, bus_error, 'a) io"

fun next_publish :: "publish_reply list \<Rightarrow> publish_reply \<times> publish_reply list" where
  "next_publish [] = (Acknowledged, [])"
| "next_publish (r # rs) = (r, rs)"

definition stores :: "publish_reply \<Rightarrow> bool" where
  "stores r \<longleftrightarrow> r = Acknowledged \<or> r = Ack_Lost"

definition deliver :: "'b outbound \<Rightarrow> 'b broker \<Rightarrow> 'b broker" where
  "deliver m b =
     (let (r, rs) = next_publish (broker_replies b)
      in b\<lparr>broker_log := broker_log b @ (if stores r then [m] else []), broker_replies := rs\<rparr>)"

definition publish_message :: "'b outbound \<Rightarrow> ('b, unit) bus" where
  "publish_message m w =
     (let b = snd (tables w)
      in (case fst (next_publish (broker_replies b)) of
            Acknowledged \<Rightarrow> Inr ()
          | Ack_Lost \<Rightarrow> Inl Bus_Unacknowledged
          | Denied \<Rightarrow> Inl Bus_Unacknowledged
          | Unsent \<Rightarrow> Inl Bus_Unavailable,
          w\<lparr>tables := (fst (tables w), deliver m b)\<rparr>))"

section \<open>The rows of the outbox\<close>

definition due_row :: "instant \<Rightarrow> outbox_row \<Rightarrow> bool" where
  "due_row now r \<longleftrightarrow> out_published r = None \<and> out_next_attempt r \<le> now"

definition due_rows :: "instant \<Rightarrow> db \<Rightarrow> outbox_row list" where
  "due_rows now d = oldest (\<lambda>r. (out_created r, out_id r)) 32 (due_row now) (outbox d)"

definition awaiting_publish :: "uuid \<Rightarrow> outbox_row \<Rightarrow> bool" where
  "awaiting_publish i r \<longleftrightarrow> out_id r = i \<and> out_published r = None"

definition published_row :: "instant \<Rightarrow> outbox_row \<Rightarrow> outbox_row" where
  "published_row now r = r\<lparr>out_published := Some now, out_attempts := out_attempts r + 1\<rparr>"

definition mark_published :: "uuid \<Rightarrow> instant \<Rightarrow> (db, unit) statement" where
  "mark_published i now d =
     Inr ((), d\<lparr>outbox := update_where (awaiting_publish i) (published_row now) (outbox d)\<rparr>)"

text \<open>\<open>least(300, power(2, least(attempts, 8))) * interval '1 second'\<close>\<close>

definition back_off_delay :: "nat \<Rightarrow> int" where
  "back_off_delay attempts = seconds (min 300 (2 ^ min attempts 8))"

definition backed_off_row :: "instant \<Rightarrow> outbox_row \<Rightarrow> outbox_row" where
  "backed_off_row now r =
     r\<lparr>out_attempts := out_attempts r + 1, out_failure := Some ''publish_unacknowledged'',
       out_next_attempt := now + back_off_delay (out_attempts r)\<rparr>"

definition back_off :: "uuid \<Rightarrow> instant \<Rightarrow> (db, unit) statement" where
  "back_off i now d =
     Inr ((), d\<lparr>outbox := update_where (awaiting_publish i) (backed_off_row now) (outbox d)\<rparr>)"

section \<open>One pass\<close>

definition on_pool :: "(db, 'a) statement \<Rightarrow> ('b, 'a) bus" where
  "on_pool q = on_tables (map_err (\<lambda>_. Bus_Unavailable) (pooled q))"

definition unpublished_of :: "instant \<Rightarrow> outbox_row \<Rightarrow> unpublished" where
  "unpublished_of created r =
     \<lparr>up_id = out_id r, up_subject = out_subject r, up_owner = out_owner r,
      up_operation = out_operation r, up_causation = out_causation r, up_created = created,
      up_payload = out_payload r\<rparr>"

text \<open>The loop of \<open>publish_outbox\<close>; \<open>clock i\<close> is \<open>now()\<close> of the update of the row \<open>i\<close>.\<close>

fun publish_rows ::
  "externals \<Rightarrow> 'b codec \<Rightarrow> (uuid \<Rightarrow> instant) \<Rightarrow> outbox_row list \<Rightarrow> bool \<Rightarrow> ('b, bool) bus" where
  "publish_rows x cd clock [] refused = ret refused"
| "publish_rows x cd clock (r # rs) refused =
     bind_io (ok_or Bus_Unwrappable (jiff_parse x (micros_text cd (out_created r)))) (\<lambda>created.
     bind_io (from_result (wrap_outbox_row x cd (unpublished_of created r))) (\<lambda>m.
     bind_io (attempt (publish_message m)) (\<lambda>outcome.
     case outcome of
       Inr _ \<Rightarrow>
         bind_io (on_pool (mark_published (out_id r) (clock (out_id r)))) (\<lambda>_.
         publish_rows x cd clock rs refused)
     | Inl _ \<Rightarrow>
         bind_io (on_pool (back_off (out_id r) (clock (out_id r)))) (\<lambda>_.
         publish_rows x cd clock rs True))))"

definition publish_outbox ::
  "externals \<Rightarrow> 'b codec \<Rightarrow> instant \<Rightarrow> (uuid \<Rightarrow> instant) \<Rightarrow> ('b, unit) bus" where
  "publish_outbox x cd now clock =
     bind_io (on_pool (query (due_rows now))) (\<lambda>rows.
     bind_io (publish_rows x cd clock rows False) (\<lambda>refused.
     guard Bus_Unacknowledged (\<not> refused)))"

section \<open>Bounds\<close>

text \<open>
  The delay doubles from one second and stops at 256: the exponent is cut at eight before the bound
  of five minutes can apply.
\<close>

lemma back_off_delay_bounds: "seconds 1 \<le> back_off_delay n" "back_off_delay n \<le> seconds 256"
proof -
  have "(2 :: int) ^ min n 8 \<le> 2 ^ 8" by (rule power_increasing) simp_all
  then show "back_off_delay n \<le> seconds 256" by (simp add: back_off_delay_def)
  have "(1 :: int) \<le> 2 ^ min n 8" by simp
  then show "seconds 1 \<le> back_off_delay n" by (simp add: back_off_delay_def)
qed

lemma length_due_rows: "length (due_rows now d) \<le> 32"
  by (simp add: due_rows_def)

end
