(* ===== verification/System.thy ===== *)
theory System
  imports Executor Reaper Publishing
begin

text \<open>
  The service as a whole: every transaction that any of its parts runs, with whatever arguments,
  clock, identities and connection faults, interleaved in any order; a run is begun with the
  identity and the owner of a stored row, a recap request is queued that was checked against its
  manifest, and a registration that was built from a configured schedule. Each handler is a sequence
  of these steps, so what every step keeps, the service keeps.
\<close>

section \<open>Steps\<close>

definition after :: "(db, 'e, 'a) io \<Rightarrow> db \<Rightarrow> reply list \<Rightarrow> db" where
  "after m d ns = tables (snd (m \<lparr>tables = d, wire = ns\<rparr>))"

inductive work :: "externals \<Rightarrow> db \<Rightarrow> db \<Rightarrow> bool" for x :: externals where
  refuse: "work x d (after (reject x c r) d ns)"
| subscribe: "work x d (after (transaction Intake_Storage
      (subscription_body x c message payload command)) d ns)"
| request_run: "work x d (after (transaction Intake_Storage
      (run_body x c message payload command)) d ns)"
| commit_recap: "checked_recap_request x m raw = Inr request
      \<Longrightarrow> work x d (after (transaction Coordinator_Storage
      (commit_manifest_body now fresh m request)) d ns)"
| complete_empty: "work x d (after (complete_empty_run x now fresh run owner) d ns)"
| fail: "work x d (after (fail_run x now fresh run owner failure) d ns)"
| complete: "work x d (after (transaction Coordinator_Storage
      (settle_completion_body x now fresh message payload evt analysis incomplete)) d ns)"
| recap_failed: "work x d (after (transaction Coordinator_Storage
      (settle_failure_body x now fresh_result fresh message payload flt manifest)) d ns)"
| occur: "work x d (after (transaction Coordinator_Storage
      (accept_occurrence_body x now fresh fresh_runs oc)) d ns)"
| begin_run: "list_ex (\<lambda>r. run_id r = pn_run pn \<and> run_owner r = pn_owner pn) (runs d)
      \<Longrightarrow> work x d (after (begin_acquisition x now fresh pn) d ns)"
| record_flag: "work x d (after (record_acquisition run incomplete) d ns)"
| observe: "work x d (after (append x fresh ob) d ns)"
| withdraw_page: "work x d (after (withdraw_missing now channel proved present deleted) d ns)"
| store_checkpoint: "work x d (after (pooled (upsert_lease l)) d ns)"
| sweep_bodies: "work x d (after (minimize_before x now locked before limit) d ns)"
| sweep_manifests: "work x d (after (minimize_manifests_before x now locked before limit) d ns)"
| reap_runs: "work x d (after (reap_once x deadline now locked fresh_reports tick) d ns)"
| register: "registration x schedule = Inr payload
      \<Longrightarrow> work x d (after (transaction Registration_Unavailable
      (registration_body now fresh key owner payload)) d ns)"

text \<open>
  Beside its work the service publishes the outbox: it marks a row that the broker has acknowledged,
  and backs one off that it has not.
\<close>

inductive step :: "externals \<Rightarrow> db \<Rightarrow> db \<Rightarrow> bool" for x :: externals where
  working: "work x a b \<Longrightarrow> step x a b"
| publish_row: "step x d (after (pooled (mark_published i now)) d ns)"
| retry_row: "step x d (after (pooled (back_off i now)) d ns)"

abbreviation steps :: "externals \<Rightarrow> db \<Rightarrow> db \<Rightarrow> bool" where
  "steps x \<equiv> (step x)\<^sup>*\<^sup>*"

definition reachable :: "externals \<Rightarrow> db \<Rightarrow> bool" where
  "reachable x d \<longleftrightarrow> steps x empty_db d"

lemma preserves_step:
  assumes "preserves I m" and "I d"
  shows "I (after m d ns)"
  using assms by (simp add: preserves_def after_def)

text \<open>An invariant of every transaction is an invariant of the service.\<close>

lemma reachable_invariant:
  assumes "reachable x d" and "I empty_db" and "\<And>a b. step x a b \<Longrightarrow> I a \<Longrightarrow> I b"
  shows "I d"
  using assms(1) unfolding reachable_def
  by (induction rule: rtranclp_induct) (use assms(2,3) in blast)+

section \<open>What every transaction keeps, the handlers keep\<close>

text \<open>
  The handlers, the walks and the ticks of the executor rest on one promise: that a property of the tables
  survives the transactions of the service.
\<close>

lemma bind_from:
  fixes m :: "('s, 'e, 'a) io"
  assumes "I (tables (snd (m w)))" and "\<And>v. preserves I (k v)"
  shows "I (tables (snd (bind_io m k w)))"
proof -
  obtain r w1 where m: "m w = (r, w1)" by force
  with assms show ?thesis by (cases r) (auto simp: bind_io_def preserves_def)
qed

lemma preserves_bind_query:
  assumes "\<And>w. I (tables w) \<Longrightarrow> I (tables (snd (k (f (fst (tables w))) w)))"
  shows "preserves I (bind_io (on_tables (map_err g (pooled (query f)))) k)"
  unfolding preserves_def
proof (intro allI impI)
  fix w :: "_ world"
  assume I: "I (tables w)"
  obtain c rs where reply: "next_reply (wire w) = (c, rs)" by force
  show "I (tables (snd (bind_io (on_tables (map_err g (pooled (query f)))) k w)))"
    using I assms [of "w\<lparr>wire := rs\<rparr>"] reply
    by (cases c; cases w) (auto simp: bind_io_def on_tables_def map_err_def pooled_def)
qed

lemma next_pending_row:
  assumes "next_pending now d = Some r"
  shows "r \<in> set (runs d) \<and> pending now d r"
proof -
  from assms have "r \<in> set (oldest (\<lambda>r. (run_created r, run_id r)) 1 (pending now d) (runs d))"
    by (auto simp: next_pending_def split: list.splits)
  then show ?thesis by (rule in_oldestD)
qed

lemmas trail_intros = preserves_bind preserves_ret preserves_raise preserves_ok_or preserves_if
  preserves_case_option preserves_case_prod preserves_on_tables preserves_on_process
  preserves_attempt preserves_map_err preserves_read preserves_reading

locale work_closed =
  fixes x :: externals and I :: "db \<Rightarrow> bool"
  assumes work_closed: "work x a b \<Longrightarrow> I a \<Longrightarrow> I b"
begin

lemma follows_work:
  assumes "\<And>d ns. work x d (after m d ns)"
  shows "preserves I m"
  unfolding preserves_def
proof (intro allI impI)
  fix w :: "db world"
  assume "I (tables w)"
  with assms [of "tables w" "wire w"] work_closed show "I (tables (snd (m w)))"
    by (cases w) (auto simp: after_def)
qed

lemmas follows = work.intros(1-3,5-9,11-17) [THEN follows_work]

lemma follows_accept_subscription: "preserves I (accept_subscription x c message payload)"
  unfolding accept_subscription_def by (intro preserves_intros preserves_or_else follows)

lemma follows_accept_run: "preserves I (accept_run x c message payload)"
  unfolding accept_run_def by (intro preserves_intros preserves_or_else follows)

lemma follows_reject_unreadable: "preserves I (reject_unreadable x c message kind tenant payload)"
  unfolding reject_unreadable_def by (intro preserves_intros follows)

lemma follows_commit_manifest: "preserves I (commit_manifest x now fresh m raw)"
  unfolding commit_manifest_def
  by (intro preserves_bind_from_result preserves_bind preserves_from_result follows_work)
    (rule work.commit_recap)

lemma follows_settle_completion: "preserves I (settle_completion x now fresh message payload)"
  unfolding settle_completion_def stored_def
  by (intro preserves_bind preserves_ok_or preserves_guard preserves_map_err preserves_read
      preserves_reading preserves_case_option preserves_case_prod preserves_if preserves_ret
      preserves_raise follows)

lemma follows_settle_failure:
  "preserves I (settle_failure x now fresh_result fresh message payload)"
  unfolding settle_failure_def stored_def
  by (intro preserves_bind preserves_ok_or preserves_guard preserves_map_err preserves_read
      preserves_case_prod preserves_if preserves_ret follows)

lemma follows_accept_occurrence: "preserves I (accept_occurrence x now fresh fresh_runs oc)"
  unfolding accept_occurrence_def by (intro preserves_bind preserves_guard follows)

lemma follows_registration: "preserves I (enqueue_schedule_registration x now fresh schedule)"
  unfolding enqueue_schedule_registration_def
  by (intro preserves_case_option preserves_ret preserves_bind_from_result follows_work)
    (rule work.register)

lemma follows_commit: "preserves I (commit x k now fresh manifest run sources incomplete)"
proof -
  have "preserves I (case built of
      Inl e \<Rightarrow> fail_run x now fresh (pn_run run) (pn_owner run) Run_Manifest_Invalid
    | Inr m \<Rightarrow> bind_io (commit_manifest x now fresh m (encode_recap x (recap_request run m))) (\<lambda>_. ret ()))"
    for built :: "manifest_error + canonical_manifest"
    by (cases built)
      (auto intro: preserves_bind preserves_ret follows_commit_manifest follows)
  then show ?thesis
    unfolding commit_def by (intro preserves_if follows)
qed

text \<open>The walk over one channel: appended revisions, withdrawals and checkpoints.\<close>

lemma trail_checkpoint [preserves_intros]:
  "preserves (tables_inv I) (checkpoint now holder rq before pages stored_revisions st retry_after)"
  unfolding checkpoint_def unavailable_def by (intro trail_intros follows)

lemma trail_store_post: "preserves (tables_inv I) (store_post x fresh rq username window post pp)"
  unfolding store_post_def unavailable_def Let_def by (intro trail_intros follows)

lemma trail_store_posts: "preserves (tables_inv I) (store_posts x fresh rq username window i posts pp)"
proof (induction posts arbitrary: i pp)
  case (Cons post posts)
  then show ?case
    unfolding store_posts.simps by (intro preserves_bind trail_store_post)
qed (simp add: preserves_ret)

lemma trail_withdraw_absent: "preserves (tables_inv I) (withdraw_absent now channel before page)"
  unfolding withdraw_absent_def unavailable_def Let_def by (intro trail_intros follows)

lemma trail_resume: "preserves (tables_inv I) (resume now rq)"
  unfolding resume_def unavailable_def by (intro trail_intros)

lemma trail_finish: "preserves (tables_inv I) (finish env rq before pages stored_revisions)"
  unfolding finish_def Let_def by (intro preserves_bind trail_checkpoint preserves_ret)

lemma trail_resolve: "preserves (tables_inv I) (resolve pv env rq username before pages stored_revisions)"
  unfolding resolve_def
  by (auto intro: preserves_bind trail_checkpoint preserves_ret preserves_raise
      split: answer.split sum.split provider_error.split)

lemma trail_walk:
  "preserves (tables_inv I)
     (walk x pv env rq username channel window left before pages stored_revisions seen)"
proof (induction left arbitrary: before pages stored_revisions seen)
  case 0
  show ?case unfolding walk.simps by (rule trail_finish)
next
  case (Suc left)
  show ?case
    unfolding walk.simps Let_def
    by (auto intro!: preserves_bind trail_checkpoint trail_store_posts trail_withdraw_absent
        trail_finish preserves_ret preserves_raise Suc
        split: answer.split sum.split provider_error.split)
qed

lemma trail_execute: "preserves (tables_inv I) (execute x pv env rq)"
  unfolding execute_def parse_window_def
  by (auto intro!: preserves_bind trail_resume trail_resolve trail_walk preserves_ret preserves_raise
      preserves_ok_or split: sum.split)

text \<open>A tick of the executor.\<close>

lemma trail_acquire_channels: "preserves (tables_inv I) (acquire_channels x pv env run i cs t)"
proof (induction cs arbitrary: i t)
  case (Cons c cs)
  then show ?case
    unfolding acquire_channels.simps
    by (intro preserves_bind preserves_attempt trail_execute)
qed (simp add: preserves_ret)

lemma trail_proceed: "preserves (tables_inv I) (proceed x k te source_count run incomplete)"
  unfolding proceed_def select_sources_def executing_def Let_def
  by (intro trail_intros follows_commit follows)

lemma trail_begin:
  assumes "tables_inv I (tables w)"
    and "list_ex (\<lambda>r. run_id r = pn_run pn \<and> run_owner r = pn_owner pn) (runs (fst (tables w)))"
  shows "tables_inv I (tables (snd (on_tables (begin_acquisition x now fresh pn) w)))"
proof -
  have "work x (fst (tables w)) (after (begin_acquisition x now fresh pn) (fst (tables w)) (wire w))"
    by (rule work.begin_run [OF assms(2)])
  from work_closed [OF this] assms(1) show ?thesis
    by (auto simp: after_def on_tables_def split: prod.split)
qed

lemma trail_execute_one: "preserves (tables_inv I) (execute_one x k pv te source_count)"
  unfolding execute_one_def select_pending_def executing_def
proof (rule preserves_bind_query)
  fix w :: "(db \<times> counter) world"
  assume trail: "tables_inv I (tables w)"
  let ?rest = "\<lambda>run begun. if \<not> begun then ret True
       else bind_io (subscribed_channels (pn_owner run)) (\<lambda>subscribed.
         bind_io (acquire x pv (te_walks te) run subscribed) (\<lambda>outcome.
         case outcome of
           Acquired_Deferred \<Rightarrow> ret True
         | Acquired_Unavailable \<Rightarrow>
             bind_io (on_tables (map_err (\<lambda>_. Execution_Unavailable)
               (fail_run x (te_settle_at te) (te_settle_fresh te) (pn_run run)
               (pn_owner run) Run_Provider_Unavailable))) (\<lambda>_. ret True)
         | Acquired_Complete \<Rightarrow> proceed x k te source_count run False
         | Acquired_Incomplete \<Rightarrow> proceed x k te source_count run True))"
  have rest: "preserves (tables_inv I) (?rest run begun)" for run begun
    unfolding subscribed_channels_def acquire_def executing_def
    by (auto intro!: trail_intros trail_acquire_channels trail_proceed follows split: acquired.split)
  show "tables_inv I (tables (snd ((case map_option (pending_of x) (next_pending (te_select_at te) (fst (tables w))) of
      None \<Rightarrow> ret False
    | Some run \<Rightarrow> bind_io
        (if pn_state run = Accepted
         then on_tables (begin_acquisition x (te_begin_at te) (te_begin_report te) run)
         else ret True) (?rest run)) w)))"
  proof (cases "next_pending (te_select_at te) (fst (tables w))")
    case None
    with trail show ?thesis by (simp add: ret_def)
  next
    case (Some r)
    then have "r \<in> set (runs (fst (tables w)))" by (auto dest: next_pending_row)
    then have "list_ex (\<lambda>q. run_id q = pn_run (pending_of x r) \<and> run_owner q = pn_owner (pending_of x r))
        (runs (fst (tables w)))"
      by (auto simp: list_ex_iff pending_of_def)
    note row = this
    let ?m = "if pn_state (pending_of x r) = Accepted
         then on_tables (begin_acquisition x (te_begin_at te) (te_begin_report te) (pending_of x r))
         else ret True"
    have "tables_inv I (tables (snd (bind_io ?m (?rest (pending_of x r)) w)))"
    proof (rule bind_from [where I = "tables_inv I"])
      show "tables_inv I (tables (snd (?m w)))"
        using trail trail_begin [OF trail row] by (simp add: ret_def)
    qed (rule rest)
    with Some show ?thesis by simp
  qed
qed

end

text \<open>In particular each of them is a sequence of steps.\<close>

interpretation stepwise: work_closed x "steps x a" for x a
  by unfold_locales (blast intro: rtranclp.rtrancl_into_rtrancl step.working)

section \<open>The life cycle holds at every reachable state\<close>

lemma lifecycle_begin_acquisition:
  assumes row: "list_ex (\<lambda>r. run_id r = pn_run pn \<and> run_owner r = pn_owner pn) (runs d)"
    and ok: "lifecycle_ok d"
  shows "wp (begin_body x now fresh pn) (\<lambda>t d'. committed t \<longrightarrow> lifecycle_ok d') d"
proof -
  let ?p = "\<lambda>r. run_id r = pn_run pn \<and> run_state r = Accepted"
  let ?q = "\<lambda>r. ?p r \<and> run_owner r = pn_owner pn"
  from row obtain r0 where r0: "r0 \<in> set (runs d)" "run_id r0 = pn_run pn" "run_owner r0 = pn_owner pn"
    by (auto simp: list_ex_iff)
  have "run_owner r = pn_owner pn" if "r \<in> set (runs d)" "run_id r = pn_run pn" for r
    using ok r0 that by (metis lifecycle_ok_def runs_ok_def unique_byD)
  then have same: "update_where ?p f (runs d) = update_where ?q f (runs d)" for f :: "run_row \<Rightarrow> run_row"
    by (auto simp: update_where_def)
  note moved = lifecycle_ok_moved [OF ok enter_state_moves [of Acquiring now], where p = ?q
      and run = "pn_run pn" and owner = "pn_owner pn"]
  show ?thesis
    unfolding begin_body_def
    by (intro wp_intros; simp add: same)
      (rule moved; auto simp: report_builders intro!: queuesI)+
qed

lemma lifecycle_frame:
  assumes "\<And>d v d'. q d = Inr (v, d') \<Longrightarrow> runs d' = runs d \<and> outbox d' = outbox d"
  shows "preserves lifecycle_ok (pooled q)"
  by (rule preserves_pooled) (use assms lifecycle_ok_cong in metis)

lemma requeue_reports:
  assumes "\<And>r. p r \<Longrightarrow> out_subject r \<noteq> report_subject"
    and "\<And>r. out_subject (f r) = out_subject r"
  shows "reported (update_where p f rows) operation status = reported rows operation status"
    and "reports_wf rows \<Longrightarrow> reports_wf (update_where p f rows)"
proof -
  have other: "\<not> is_report operation status r" "\<not> is_report operation status (f r)" if "p r" for r
    using assms [of r] that by (auto simp: is_report_def)
  show "reported (update_where p f rows) operation status = reported rows operation status"
    unfolding reported_def by (induction rows) (auto simp: update_where_simps other)
  show "reports_wf rows \<Longrightarrow> reports_wf (update_where p f rows)"
    using assms unfolding reports_wf_def
    by (induction rows) (auto simp: update_where_simps report_row_ok_def)
qed

lemma lifecycle_registration:
  "preserves lifecycle_ok (transaction u (registration_body now fresh key owner payload))"
proof (rule preserves_transaction)
  fix d
  assume ok: "lifecycle_ok d"
  let ?q = "queued_registration now fresh key owner payload"
  have subject: "out_subject ?q \<noteq> report_subject"
    by (simp add: queued_registration_def registration_subject_def report_subject_def)
  have other: "same_key ?q r \<Longrightarrow> out_subject r \<noteq> report_subject" for r
    using subject by (simp add: same_key_def)
  have kept: "out_subject (requeue ?q r) = out_subject r" for r by (simp add: requeue_def)
  have "lifecycle_ok (d\<lparr>outbox := update_where (same_key ?q) (requeue ?q) (outbox d)\<rparr>)"
    using ok requeue_reports(2) [where p = "same_key ?q" and f = "requeue ?q", OF other kept]
    by (simp add: lifecycle_ok_def announced_def [abs_def] cong: option.case_cong
        add: requeue_reports(1) [where p = "same_key ?q" and f = "requeue ?q", OF other kept])
  moreover have "lifecycle_ok (d\<lparr>outbox := outbox d @ [?q]\<rparr>)"
    by (rule lifecycle_ok_appended [OF ok _ _ subject]) simp_all
  ultimately show "wp (registration_body now fresh key owner payload)
      (\<lambda>t d'. committed t \<longrightarrow> lifecycle_ok d') d"
    unfolding registration_body_def by (intro wp_intros) simp_all
qed

lemma lifecycle_record_acquisition: "preserves lifecycle_ok (record_acquisition run incomplete)"
  unfolding record_acquisition_def
proof (rule preserves_pooled)
  fix d v d'
  assume ok: "lifecycle_ok d"
    and run: "update_runs (\<lambda>r. run_id r = run) (\<lambda>r. r\<lparr>run_incomplete := incomplete\<rparr>) d = Inr (v, d')"
  have "sets_language (\<lambda>r. r\<lparr>run_incomplete := incomplete\<rparr>)"
    by (simp add: sets_language_def keeps_keys_def natural_key_def)
  with ok run show "lifecycle_ok d'"
    by (intro lifecycle_ok_relabelled [of "runs d" "outbox d"])
      (auto simp: update_runs_Inr lifecycle_ok_def)
qed

lemma lifecycle_pooled:
  "preserves lifecycle_ok (append x fresh ob)"
  "preserves lifecycle_ok (withdraw_missing now channel proved present deleted)"
  "preserves lifecycle_ok (pooled (upsert_lease l))"
  "preserves lifecycle_ok (minimize_before x now locked before limit)"
  "preserves lifecycle_ok (minimize_manifests_before x now locked before limit)"
  unfolding append_def withdraw_missing_def minimize_before_def minimize_manifests_before_def
  by (intro preserves_map_err lifecycle_frame;
      auto simp: withdraw_def minimize_bodies_def minimize_manifests_def upsert_lease_def Let_def
        elim!: append_revision_cases split: option.splits)+

lemma lifecycle_outbox_moved:
  assumes "lifecycle_ok d"
    and "\<And>r. out_subject (f r) = out_subject r \<and> out_key (f r) = out_key r
        \<and> out_operation (f r) = out_operation r \<and> out_payload (f r) = out_payload r"
  shows "lifecycle_ok (d\<lparr>outbox := update_where p f (outbox d)\<rparr>)"
proof -
  have row: "report_row_ok (f r) = report_row_ok r" "is_report o' s (f r) = is_report o' s r" for r o' s
    using assms(2) [of r] by (simp_all add: report_row_ok_def is_report_def split: payload.split)
  have "reported (update_where p f rows) o' s = reported rows o' s" for rows o' s
    unfolding reported_def by (induction rows) (auto simp: update_where_simps row)
  moreover have "reports_wf (update_where p f rows) = reports_wf rows" for rows
    unfolding reports_wf_def by (induction rows) (auto simp: update_where_simps row)
  ultimately show ?thesis
    using assms(1) by (simp add: lifecycle_ok_def announced_def [abs_def] cong: option.case_cong)
qed

lemma lifecycle_publish:
  "preserves lifecycle_ok (pooled (mark_published i now))" "preserves lifecycle_ok (pooled (back_off i now))"
  by (rule preserves_pooled; auto simp: mark_published_def back_off_def published_row_def
      backed_off_row_def intro!: lifecycle_outbox_moved)+

lemma work_lifecycle: "work x a b \<Longrightarrow> lifecycle_ok a \<Longrightarrow> lifecycle_ok b"
proof (induction rule: work.induct)
  case (begin_run pn d now fresh ns)
  show ?case
    unfolding after_def begin_acquisition_def
    by (rule transaction_leaves)
      (use begin_run lifecycle_begin_acquisition [OF begin_run.hyps] in simp_all)
qed (blast intro: preserves_step lifecycle_reject lifecycle_subscription lifecycle_run
    lifecycle_commit_manifest lifecycle_complete_empty_run lifecycle_fail_run
    lifecycle_settle_completion lifecycle_settle_failure lifecycle_accept_occurrence
    lifecycle_record_acquisition lifecycle_pooled lifecycle_reap_once lifecycle_registration)+

lemma step_lifecycle: "step x a b \<Longrightarrow> lifecycle_ok a \<Longrightarrow> lifecycle_ok b"
  by (induction rule: step.induct) (blast intro: work_lifecycle preserves_step lifecycle_publish)+

end
