(* ===== verification/Invariants.thy ===== *)
theory Invariants
  imports System
begin

text \<open>
  Properties of single tables that every transaction keeps. The interface is what the statements
  do to the tables; a property that survives each of these changes survives every transaction of
  the service. It is interpreted on the progress of runs, the subscriptions, the stored revisions
  and the evidence of manifests and results.
\<close>

section \<open>The interface\<close>

text \<open>A change of runs that moves none of them back and leaves the class of an ended one.\<close>

definition advances :: "(run_row \<Rightarrow> bool) \<Rightarrow> (run_row \<Rightarrow> run_row) \<Rightarrow> bool" where
  "advances p f \<longleftrightarrow> keeps_keys f
     \<and> (\<forall>r. p r \<longrightarrow> run_state r \<le> run_state (f r)
          \<and> (terminal (run_state r) \<longrightarrow> run_failure (f r) = run_failure r))"

locale statement_invariant =
  fixes x :: externals and I :: "db \<Rightarrow> bool"
  assumes new_message: "I d \<Longrightarrow> I (d\<lparr>inbox := inbox d @ [i]\<rparr>)"
    and settled_message: "I d \<Longrightarrow> I (d\<lparr>inbox := update_where (\<lambda>r. in_id r = handled_id)
        (\<lambda>r. r\<lparr>in_state := Inbox_Completed, in_completed := Some now\<rparr>) (inbox d)\<rparr>)"
    and any_outbox: "I d \<Longrightarrow> I (d\<lparr>outbox := obx\<rparr>)"
    and any_leases: "I d \<Longrightarrow> I (d\<lparr>leases := l\<rparr>)"
    and any_sources: "I d \<Longrightarrow> I (d\<lparr>manifest_sources := h\<rparr>)"
    and new_result: "I d \<Longrightarrow> insert_result r d = Inr ((), d\<lparr>results := results d @ [r]\<rparr>)
        \<Longrightarrow> I (d\<lparr>results := results d @ [r]\<rparr>)"
    and new_manifest: "I d \<Longrightarrow> insert_manifest m d = Inr (True, d\<lparr>manifests := manifests d @ [m]\<rparr>)
        \<Longrightarrow> I (d\<lparr>manifests := manifests d @ [m]\<rparr>)"
    and fewer_texts: "I d \<Longrightarrow> I (d\<lparr>manifests := update_where p (minimized_manifest now) (manifests d)\<rparr>)"
    and new_run_row: "I d \<Longrightarrow> run_state q = Accepted \<Longrightarrow> insert_run q d = Inr (True, d\<lparr>runs := runs d @ [q]\<rparr>)
        \<Longrightarrow> I (d\<lparr>runs := runs d @ [q]\<rparr>)"
    and moved_runs: "I d \<Longrightarrow> advances rp f \<Longrightarrow> I (d\<lparr>runs := update_where rp f (runs d)\<rparr>)"
    and desired: "I d \<Longrightarrow> set_subscription fs fc owner username enabled t d = Inr (v, d') \<Longrightarrow> I d'"
    and appended: "I d \<Longrightarrow> append_revision fr channel message (sha256 x body) body link published observed d
        = Inr (j, d') \<Longrightarrow> I d'"
    and withdrawn_rows: "I d \<Longrightarrow> I (d\<lparr>revisions := update_where rv (withdrawn_revision now) (revisions d)\<rparr>)"
    and minimized_rows: "I d \<Longrightarrow> I (d\<lparr>revisions := update_where rv (minimized_revision now) (revisions d)\<rparr>)"
begin

definition stays :: "(db, 'e, 'a) io \<Rightarrow> bool" where
  "stays m \<longleftrightarrow> (\<forall>d. I d \<longrightarrow> wp m (\<lambda>_. I) d)"

lemma staysI: "(\<And>d. I d \<Longrightarrow> wp m (\<lambda>_. I) d) \<Longrightarrow> stays m"
  by (simp add: stays_def)

lemma stays_basic:
  "stays (ret v)" "stays (raise e)" "stays (guard e b)" "stays (ok_or e w)" "stays (from_result z)"
  by (auto simp: stays_def intro: wp_intros)

lemma stays_bind: "stays m \<Longrightarrow> (\<And>v. stays (k v)) \<Longrightarrow> stays (bind_io m k)"
  unfolding stays_def by (metis (no_types, lifting) wp_bind wp_mono)

lemma stays_map_err: "stays m \<Longrightarrow> stays (map_err f m)"
  by (auto simp: stays_def intro: wp_map_err)

lemma stays_storage: "stays m \<Longrightarrow> stays (storage m)" "stays m \<Longrightarrow> stays (stored m)"
  by (simp_all add: storage_def stored_def stays_map_err)

lemma stays_cases:
  "stays m \<Longrightarrow> stays n \<Longrightarrow> stays (if b then m else n)"
  "stays m \<Longrightarrow> (\<And>v. stays (k v)) \<Longrightarrow> stays (case z of None \<Rightarrow> m | Some v \<Rightarrow> k v)"
  "(\<And>v w. stays (h v w)) \<Longrightarrow> stays (case y of (v, w) \<Rightarrow> h v w)"
  by (simp_all split: option.split prod.split)

lemma stays_for_each: "(\<And>v. stays (f v)) \<Longrightarrow> stays (for_each f vs)"
  by (auto simp: stays_def intro: wp_for_each)

lemma stays_stmt: "(\<And>d v d'. I d \<Longrightarrow> q d = Inr (v, d') \<Longrightarrow> I d') \<Longrightarrow> stays (stmt q)"
  by (auto simp: stays_def intro!: wp_stmt)

lemma stays_reads: "stays (stmt (query f))" "stays (stmt (reading g))"
  by (auto simp: stays_def intro!: wp_intros)

lemma stays_inbox: "stays (stmt (insert_inbox r))" "stays (stmt (complete_inbox now message))"
  by (auto simp: stays_def new_message settled_message intro!: wp_intros)

lemma stays_outbox:
  "stays (stmt (insert_outbox_once r))" "stays (stmt (insert_outbox r))" "stays (stmt (upsert_outbox r))"
  by (auto simp: stays_def put_once_def any_outbox intro!: wp_intros)

lemma stays_enqueue: "stays (enqueue y now fresh row)"
  unfolding enqueue_def by (intro stays_bind stays_basic stays_map_err stays_outbox)

lemma stays_sources: "stays (stmt (insert_manifest_sources m held))"
  by (auto simp: stays_def any_sources intro!: wp_intros)

lemma stays_manifest: "stays (stmt (insert_manifest m))"
  by (rule stays_stmt) (auto simp: insert_manifest_def split: if_splits intro!: new_manifest)

lemma keeps_result: "I d \<Longrightarrow> insert_result r d = Inr (u, d') \<Longrightarrow> I d'"
proof -
  assume I: "I d" and run: "insert_result r d = Inr (u, d')"
  then have "d' = d\<lparr>results := results d @ [r]\<rparr>"
    by (auto simp: insert_result_def split: if_splits)
  with I run new_result [of d r] show ?thesis by simp
qed

lemma stays_results:
  "stays (stmt (insert_completed_result now evt analysis outcome))"
  "stays (stmt (insert_failed_result now fresh flt manifest cls))"
  by (rule stays_stmt; auto simp: insert_completed_result_def insert_failed_result_def
      split: option.splits sum.splits intro: keeps_result)+

lemma keeps_run: "I d \<Longrightarrow> run_state r = Accepted \<Longrightarrow> insert_run r d = Inr (b, d') \<Longrightarrow> I d'"
proof -
  assume I: "I d" and accepted: "run_state r = Accepted" and run: "insert_run r d = Inr (b, d')"
  from run show ?thesis
  proof (cases rule: insert_run_cases)
    case inserted
    with I accepted run new_run_row [of d r] show ?thesis by simp
  qed (simp add: I)
qed

lemma stays_new_runs:
  "stays (stmt (create_commanded_run y now command))"
  "stays (stmt (insert_scheduled_run y now fresh owner operation key window language))"
proof -
  have accepted: "run_state (new_run now i o' p t k st en) = Accepted"
    "run_state ((new_run now i o' p t k st en)\<lparr>run_language := lg\<rparr>) = Accepted" for i o' p t k st en lg
    by (simp_all add: new_run_def)
  show "stays (stmt (create_commanded_run y now command))"
  proof (rule stays_stmt)
    fix d v d'
    assume I: "I d" and run: "create_commanded_run y now command d = Inr (v, d')"
    then obtain st en where "create_digest_run now (rc_run command) (rc_owner command)
        (rc_operation command) (if rc_on_demand command then On_Demand else Scheduled)
        (rc_key command) st en d = Inr (v, d')"
      by (auto simp: create_commanded_run_def split: option.splits)
    then show "I d'"
      using I keeps_run [OF I accepted(1)]
      by (auto simp: create_digest_run_def Let_def split: sum.splits prod.splits bool.splits option.splits)
  qed
  show "stays (stmt (insert_scheduled_run y now fresh owner operation key window language))"
    by (rule stays_stmt)
      (auto simp: insert_scheduled_run_def split: option.splits intro: keeps_run [OF _ accepted(2)])
qed

lemma stays_update_runs: "advances p f \<Longrightarrow> stays (stmt (update_runs p f))"
  by (auto simp: stays_def moved_runs intro!: wp_intros)

lemma stays_subscription:
  "stays (catch_raised (stmt (set_subscription fs fc owner username enabled t)))"
  by (auto simp: stays_def desired intro!: wp_catch_stmt)

lemmas stays_intros = stays_basic stays_bind stays_map_err stays_storage stays_cases stays_for_each
  stays_reads stays_inbox stays_enqueue stays_outbox stays_sources stays_manifest stays_results
  stays_new_runs stays_update_runs stays_subscription

lemma transaction_keeps: "stays body \<Longrightarrow> preserves I (transaction u body)"
  by (rule preserves_transaction) (auto simp: stays_def elim: wp_mono)

text \<open>Every transaction of the service.\<close>

lemma updates_advance:
  "st \<in> {Waiting_Recap, Completed} \<Longrightarrow> advances (open_run run owner) (enter_state now st)"
  "advances (open_run run owner) (enter_failed now cls)"
  "st \<in> {Completed, Partial} \<Longrightarrow> advances (waiting_run run owner) (enter_state now st)"
  "advances (waiting_run run owner) (enter_failed now cls)"
  "advances (\<lambda>r. run_id r = run \<and> run_state r = Accepted) (enter_state now Acquiring)"
  "advances (\<lambda>r. run_id r = run) (\<lambda>r. r\<lparr>run_incomplete := incomplete\<rparr>)"
  "advances (\<lambda>r. run_id r = run \<and> run_owner r = owner) (\<lambda>r. r\<lparr>run_language := language\<rparr>)"
  by (auto simp: advances_def keeps_keys_def natural_key_def enter_state_def enter_failed_def
      open_run_def waiting_run_def less_eq_run_state_def)

lemma settled_outcomes: "completion_outcome evt incomplete \<in> {Completed, Partial}"
  by (simp add: completion_outcome_def)

lemma entered_states: "Waiting_Recap \<in> {Waiting_Recap, Completed}" "Completed \<in> {Waiting_Recap, Completed}"
  by simp_all

lemma keeps_reject: "preserves I (reject y c r)"
  unfolding reject_def reject_body_def by (intro transaction_keeps stays_intros)

lemma keeps_subscription_body: "preserves I (transaction u (subscription_body y c message payload command))"
  unfolding subscription_body_def by (intro transaction_keeps stays_intros)

lemma keeps_run_body: "preserves I (transaction u (run_body y c message payload command))"
  unfolding run_body_def queue_started_def set_language_def
  by (intro transaction_keeps stays_intros updates_advance entered_states settled_outcomes)

lemma keeps_commit_manifest: "preserves I (transaction u (commit_manifest_body now fresh m request))"
  unfolding commit_manifest_body_def
  by (intro transaction_keeps stays_intros updates_advance entered_states settled_outcomes)

lemma stays_report_owned: "stays (report_owned y now fresh run owner built)"
  unfolding report_owned_def on_demand_operation_def by (intro stays_intros)

lemma keeps_run_ends:
  "preserves I (complete_empty_run y now fresh run owner)"
  "preserves I (fail_run y now fresh run owner failure)"
  unfolding complete_empty_run_def fail_run_def
  by (intro transaction_keeps stays_intros stays_report_owned updates_advance entered_states)+

lemma keeps_settlements:
  "preserves I (transaction u (settle_completion_body y now fresh message payload evt analysis incomplete))"
  "preserves I (transaction u (settle_failure_body y now fresh_result fresh message payload flt manifest))"
  unfolding settle_completion_body_def settle_failure_body_def Let_def
    report_completion_def report_recap_failure_def on_demand_operation_def
  by (intro transaction_keeps stays_intros updates_advance entered_states settled_outcomes)+

lemma keeps_occurrence: "preserves I (transaction u (accept_occurrence_body y now fresh fresh_runs oc))"
  unfolding accept_occurrence_body_def fan_out_def fan_out_owner_def
  by (intro transaction_keeps stays_intros)

lemma keeps_begin: "preserves I (begin_acquisition y now fresh pn)"
  unfolding begin_acquisition_def begin_body_def on_demand_operation_def
  by (intro transaction_keeps stays_intros updates_advance entered_states settled_outcomes)

lemma keeps_registration: "preserves I (transaction u (registration_body now fresh key owner payload))"
  unfolding registration_body_def by (intro transaction_keeps stays_intros)

lemma reap_advances:
  assumes "unique_by run_id (runs d)"
  shows "\<exists>p. advances p (deadline_failed now)
      \<and> update_where (named run_id (reap_batch cutoff locked d)) (deadline_failed now) (runs d)
        = update_where p (deadline_failed now) (runs d)"
proof (intro exI conjI)
  let ?p = "\<lambda>r. r \<in> set (reap_batch cutoff locked d)"
  show "advances ?p (deadline_failed now)"
    using set_reap_batch [of cutoff locked d]
    by (auto simp: advances_def keeps_keys_def natural_key_def deadline_failed_def overdue_def
        less_eq_run_state_def)
  have "named run_id (reap_batch cutoff locked d) r \<longleftrightarrow> ?p r" if "r \<in> set (runs d)" for r
    by (rule named_iff [OF assms _ that]) (use set_reap_batch [of cutoff locked d] in blast)
  then show "update_where (named run_id (reap_batch cutoff locked d)) (deadline_failed now) (runs d)
      = update_where ?p (deadline_failed now) (runs d)"
    by (simp add: update_where_def)
qed

lemma keeps_reap:
  assumes "unique_by run_id (runs d)" and "I d"
  shows "I (after (reap_once y deadline now locked fresh tick) d ns)"
  unfolding after_def reap_once_def
proof (rule transaction_leaves)
  have reaped: "I d'" if run: "reap now cutoff locked d = Inr (v, d')" for cutoff v d'
  proof -
    obtain p where "advances p (deadline_failed now)"
      and "update_where (named run_id (reap_batch cutoff locked d)) (deadline_failed now) (runs d)
        = update_where p (deadline_failed now) (runs d)"
      using reap_advances [OF assms(1)] by blast
    with run assms(2) moved_runs [of d p "deadline_failed now"] show ?thesis
      by (auto simp: reap_def Let_def)
  qed
  have reports: "wp (for_each (report_reaped y now) rs) (\<lambda>_. I) d'" if "I d'" for rs d'
  proof -
    have "stays (report_reaped y now r)" for r
      unfolding report_reaped_def by (intro stays_intros)
    then have "stays (for_each (report_reaped y now) rs)" by (rule stays_for_each)
    with that show ?thesis by (simp add: stays_def)
  qed
  show "wp (reap_body y deadline now locked fresh tick) (\<lambda>t d'. committed t \<longrightarrow> I d')
      (tables \<lparr>tables = d, wire = ns\<rparr>)"
    unfolding reap_body_def
    by (intro wp_intros wp_stmt wp_mono [OF reports])
      (auto split: option.splits intro: reaped)
qed (simp add: assms(2))

lemma keeps_pooled:
  "preserves I (append x fresh ob)"
  "preserves I (withdraw_missing now channel proved present deleted)"
  "preserves I (pooled (upsert_lease l))"
  "preserves I (minimize_before y now locked before limit)"
  "preserves I (minimize_manifests_before y now locked before limit)"
  "preserves I (record_acquisition run incomplete)"
proof -
  have both: "I (d\<lparr>revisions := update_where p (withdrawn_revision now) (revisions d),
      manifests := update_where q (minimized_manifest now) (manifests d)\<rparr>)" if "I d" for d p q
    using fewer_texts [OF withdrawn_rows [OF that, of p now], of q now] by simp
  show "preserves I (append x fresh ob)"
    unfolding append_def
    by (intro preserves_map_err preserves_pooled) (auto split: option.splits intro: appended)
  show "preserves I (withdraw_missing now channel proved present deleted)"
    unfolding withdraw_missing_def
    by (intro preserves_map_err preserves_pooled) (auto simp: withdraw_def Let_def both)
  show "preserves I (pooled (upsert_lease l))"
    by (intro preserves_pooled) (auto simp: upsert_lease_def Let_def any_leases)
  show "preserves I (minimize_before y now locked before limit)"
    unfolding minimize_before_def
    by (intro preserves_map_err preserves_pooled)
      (auto simp: minimize_bodies_def Let_def minimized_rows split: option.splits)
  show "preserves I (minimize_manifests_before y now locked before limit)"
    unfolding minimize_manifests_before_def
    by (intro preserves_map_err preserves_pooled)
      (auto simp: minimize_manifests_def Let_def fewer_texts split: option.splits)
  show "preserves I (record_acquisition run incomplete)"
    unfolding record_acquisition_def
    by (intro preserves_pooled)
      (auto simp: update_runs_Inr intro: moved_runs updates_advance)
qed

lemma work_keeps: "work x a b \<Longrightarrow> lifecycle_ok a \<Longrightarrow> I a \<Longrightarrow> I b"
proof (induction rule: work.induct)
  case (reap_runs d deadline now locked fresh_reports tick ns)
  then show ?case by (intro keeps_reap) (simp_all add: lifecycle_ok_def runs_ok_def)
qed (blast intro: preserves_step keeps_reject keeps_subscription_body keeps_run_body
    keeps_commit_manifest keeps_run_ends keeps_settlements keeps_occurrence keeps_begin
    keeps_pooled keeps_registration)+

lemma keeps_publish: "preserves I (pooled (mark_published i now))" "preserves I (pooled (back_off i now))"
  by (rule preserves_pooled; auto simp: mark_published_def back_off_def any_outbox)+

lemma step_keeps: "step x a b \<Longrightarrow> lifecycle_ok a \<Longrightarrow> I a \<Longrightarrow> I b"
  by (induction rule: step.induct) (blast intro: work_keeps preserves_step keeps_publish)+

lemma steps_keep: "steps x a b \<Longrightarrow> lifecycle_ok a \<Longrightarrow> I a \<Longrightarrow> lifecycle_ok b \<and> I b"
  by (induction rule: rtranclp_induct) (blast intro: step_keeps step_lifecycle)+

end

section \<open>Runs only move forward\<close>

text \<open>A run is found again under its keys, in its state or a later one.\<close>

definition progressed :: "run_row \<Rightarrow> db \<Rightarrow> bool" where
  "progressed r d \<longleftrightarrow> (\<exists>q \<in> set (runs d). run_id q = run_id r \<and> natural_key q = natural_key r
     \<and> run_operation q = run_operation r \<and> run_state r \<le> run_state q
     \<and> (terminal (run_state r) \<longrightarrow> run_failure q = run_failure r))"

lemma progressed_moved:
  assumes "progressed r d" and "advances p f"
  shows "progressed r (d\<lparr>runs := update_where p f (runs d)\<rparr>)"
proof -
  from assms(1) obtain q where q: "q \<in> set (runs d)" "run_id q = run_id r" "natural_key q = natural_key r"
      "run_operation q = run_operation r" "run_state r \<le> run_state q"
      "terminal (run_state r) \<Longrightarrow> run_failure q = run_failure r"
    by (auto simp: progressed_def)
  let ?q = "if p q then f q else q"
  have "?q \<in> set (update_where p f (runs d))" using q(1) by (auto simp: update_where_def)
  moreover have "run_state q \<le> run_state ?q \<and> (terminal (run_state q) \<longrightarrow> run_failure ?q = run_failure q)"
      "run_id ?q = run_id q" "natural_key ?q = natural_key q" "run_operation ?q = run_operation q"
    using assms(2) by (simp_all add: advances_def keeps_keys_def)
  moreover have "terminal (run_state r) \<Longrightarrow> run_state q = run_state r" using q(5) terminal_maximal by blast
  ultimately show ?thesis
    unfolding progressed_def using q by (intro bexI [of _ ?q]) (auto intro: order_trans)
qed

interpretation progress: statement_invariant x "progressed r" for x r
proof unfold_locales
  fix d v d' fs fc owner username enabled t
  assume "progressed r d" and "set_subscription fs fc owner username enabled t d = Inr (v, d')"
  then show "progressed r d'"
    using set_subscription_frame by (metis progressed_def with_subscriptions_frame(2))
qed (auto simp: progressed_moved elim!: append_revision_cases, auto simp: progressed_def)

section \<open>Subscriptions\<close>

lemma subscriptions_ok_cong:
  "channels d = channels d' \<Longrightarrow> subscriptions d = subscriptions d' \<Longrightarrow> subscriptions_ok d = subscriptions_ok d'"
  by (simp add: subscriptions_ok_def active_count_def)

interpretation limited: statement_invariant x subscriptions_ok for x
proof unfold_locales
  fix d v d' fs fc owner username enabled t
  assume "subscriptions_ok d" and "set_subscription fs fc owner username enabled t d = Inr (v, d')"
  then show "subscriptions_ok d'" by (rule set_subscription_ok)
next
  fix d fr channel message body link published observed j d'
  assume ok: "subscriptions_ok d"
    and "append_revision fr channel message (sha256 x body) body link published observed d = Inr (j, d')"
  from this(2) have "channels d' = channels d \<and> subscriptions d' = subscriptions d"
    by (cases rule: append_revision_cases) simp_all
  with ok show "subscriptions_ok d'" using subscriptions_ok_cong by metis
qed (simp_all add: subscriptions_ok_def active_count_def)

section \<open>Stored revisions\<close>

text \<open>
  The revisions \<open>ps\<close> that were once stored, by everything but their body and their two times of
  loss.
\<close>

definition observed_as ::
  "externals \<Rightarrow> (uuid \<times> uuid \<times> int \<times> string \<times> instant \<times> instant \<times> string) set \<Rightarrow> db \<Rightarrow> bool" where
  "observed_as x ps d \<longleftrightarrow>
     revisions_ok x (revisions d) \<and> ps \<subseteq> set (map provenance (revisions d))"

lemma minimized_checks:
  "provenance (minimized_revision now r) = provenance r"
  "revision_checks x (minimized_revision now r)"
  "provenance (withdrawn_revision now r) = provenance r"
  "revision_checks x (withdrawn_revision now r)"
  by (simp_all add: minimized_revision_def withdrawn_revision_def provenance_def revision_checks_def)

lemma observed_as_update:
  assumes "observed_as x ps d" and "\<And>q. provenance (f q) = provenance q" and "\<And>q. revision_checks x (f q)"
  shows "observed_as x ps (d\<lparr>revisions := update_where p f (revisions d)\<rparr>)"
proof -
  have "map provenance (update_where p f (revisions d)) = map provenance (revisions d)"
    using assms(2) by (simp add: map_update_where)
  with assms show ?thesis
    by (simp add: observed_as_def revisions_ok_update del: set_map)
qed

interpretation observed: statement_invariant x "observed_as x ps" for x ps
proof unfold_locales
  fix d v d' fs fc owner username enabled t
  assume "observed_as x ps d" and "set_subscription fs fc owner username enabled t d = Inr (v, d')"
  then show "observed_as x ps d'"
    using set_subscription_frame by (metis observed_as_def with_subscriptions_frame(1))
next
  fix d fr channel message body link published observed j d'
  assume ok: "observed_as x ps d"
    and run: "append_revision fr channel message (sha256 x body) body link published observed d = Inr (j, d')"
  from run have "set (map provenance (revisions d)) \<subseteq> set (map provenance (revisions d'))"
    by (cases rule: append_revision_cases) auto
  moreover have "revisions_ok x (revisions d')"
    using append_revision_ok [OF _ run] ok by (simp add: observed_as_def)
  ultimately show "observed_as x ps d'" using ok by (auto simp: observed_as_def)
next
  fix d rv now
  assume "observed_as x ps d"
  then show "observed_as x ps (d\<lparr>revisions := update_where rv (withdrawn_revision now) (revisions d)\<rparr>)"
    by (rule observed_as_update) (simp_all add: minimized_checks)
next
  fix d rv now
  assume "observed_as x ps d"
  then show "observed_as x ps (d\<lparr>revisions := update_where rv (minimized_revision now) (revisions d)\<rparr>)"
    by (rule observed_as_update) (simp_all add: minimized_checks)
qed (simp_all add: observed_as_def)

section \<open>Manifests and results\<close>

text \<open>
  The keys of the two tables, and what once was stored: the evidence of a manifest, which may
  only lose its text, and a result.
\<close>

definition evidence_ok ::
  "(uuid \<times> uuid \<times> uuid \<times> string \<times> nat \<times> nat) set \<Rightarrow> result_row set \<Rightarrow> db \<Rightarrow> bool" where
  "evidence_ok ms rs d \<longleftrightarrow>
     unique_by man_run (manifests d) \<and> unique_by man_id (manifests d)
     \<and> list_all manifest_checks (manifests d)
     \<and> unique_by res_run (results d) \<and> list_all result_checks (results d)
     \<and> ms \<subseteq> set (map manifest_evidence (manifests d)) \<and> rs \<subseteq> set (results d)"

lemma evidence_ok_cong:
  "manifests d = manifests d' \<Longrightarrow> results d = results d' \<Longrightarrow> evidence_ok ms rs d = evidence_ok ms rs d'"
  by (simp add: evidence_ok_def)

lemma evidence_ok_minimized:
  assumes "evidence_ok ms rs d"
  shows "evidence_ok ms rs (d\<lparr>manifests := update_where p (minimized_manifest now) (manifests d)\<rparr>)"
proof -
  have "map man_run (update_where p (minimized_manifest now) (manifests d)) = map man_run (manifests d)"
    and "map man_id (update_where p (minimized_manifest now) (manifests d)) = map man_id (manifests d)"
    and "map manifest_evidence (update_where p (minimized_manifest now) (manifests d))
      = map manifest_evidence (manifests d)"
    by (simp_all add: map_update_where minimized_manifest_def manifest_evidence_def)
  moreover have "manifest_checks (minimized_manifest now m)" if "manifest_checks m" for m
    using that by (simp add: manifest_checks_def minimized_manifest_def)
  ultimately show ?thesis
    using assms by (auto simp: evidence_ok_def list_all_iff set_update_where simp del: set_map)
qed

interpretation evidenced: statement_invariant x "evidence_ok ms rs" for x ms rs
proof unfold_locales
  fix d v d' fs fc owner username enabled t
  assume "evidence_ok ms rs d" and "set_subscription fs fc owner username enabled t d = Inr (v, d')"
  then show "evidence_ok ms rs d'"
    using set_subscription_frame evidence_ok_cong by (metis with_subscriptions_frame(3,5))
next
  fix d fr channel message body link published observed j d'
  assume "evidence_ok ms rs d"
    and "append_revision fr channel message (sha256 x body) body link published observed d = Inr (j, d')"
  from this(2,1) show "evidence_ok ms rs d'"
    by (cases rule: append_revision_cases) (simp_all add: evidence_ok_def)
next
  fix d r
  assume "evidence_ok ms rs d" and "insert_result r d = Inr ((), d\<lparr>results := results d @ [r]\<rparr>)"
  then show "evidence_ok ms rs (d\<lparr>results := results d @ [r]\<rparr>)"
    by (auto simp: evidence_ok_def insert_result_def split: if_splits)
next
  fix d m
  assume "evidence_ok ms rs d" and "insert_manifest m d = Inr (True, d\<lparr>manifests := manifests d @ [m]\<rparr>)"
  then show "evidence_ok ms rs (d\<lparr>manifests := manifests d @ [m]\<rparr>)"
    by (auto simp: evidence_ok_def insert_manifest_def split: if_splits)
next
  fix d p now
  assume "evidence_ok ms rs d"
  then show "evidence_ok ms rs (d\<lparr>manifests := update_where p (minimized_manifest now) (manifests d)\<rparr>)"
    by (rule evidence_ok_minimized)
qed (simp_all add: evidence_ok_def)

section \<open>Handled messages\<close>

interpretation handled: statement_invariant x "inbox_conflict message subject key" for x message subject key
proof unfold_locales
  fix d v d' fs fc owner username enabled t
  assume "inbox_conflict message subject key d"
    and "set_subscription fs fc owner username enabled t d = Inr (v, d')"
  then show "inbox_conflict message subject key d'"
    using set_subscription_frame by (metis inbox_conflict_subscriptions)
next
  fix d fr channel msg body link published observed j d'
  assume "inbox_conflict message subject key d"
    and "append_revision fr channel msg (sha256 x body) body link published observed d = Inr (j, d')"
  from this(2,1) show "inbox_conflict message subject key d'"
    by (cases rule: append_revision_cases) (simp_all add: inbox_conflict_def)
next
  fix d handled_id now
  assume "inbox_conflict message subject key d"
  then show "inbox_conflict message subject key (d\<lparr>inbox := update_where (\<lambda>r. in_id r = handled_id)
      (\<lambda>r. r\<lparr>in_state := Inbox_Completed, in_completed := Some now\<rparr>) (inbox d)\<rparr>)"
    by simp
qed (auto simp: inbox_conflict_def)

text \<open>All of them at a reachable state.\<close>

lemma empty_invariants:
  "subscriptions_ok empty_db" "observed_as x {} empty_db" "evidence_ok {} {} empty_db"
  by (simp_all add: subscriptions_ok_def active_count_def count_where_def observed_as_def
      revisions_ok_def evidence_ok_def empty_db_def)

lemma reachable_ok:
  assumes "reachable x d"
  shows "lifecycle_ok d" and "subscriptions_ok d" and "observed_as x {} d" and "evidence_ok {} {} d"
proof -
  have steps: "steps x empty_db d" using assms by (simp add: reachable_def)
  show "lifecycle_ok d" and "subscriptions_ok d"
    using limited.steps_keep [OF steps lifecycle_ok_empty empty_invariants(1)] by simp_all
  show "observed_as x {} d"
    using observed.steps_keep [OF steps lifecycle_ok_empty empty_invariants(2)] by simp
  show "evidence_ok {} {} d"
    using evidenced.steps_keep [OF steps lifecycle_ok_empty empty_invariants(3)] by simp
qed

lemma handled_later:
  assumes "reachable x a" and "steps x a b" and "inbox_conflict message subject key a"
  shows "inbox_conflict message subject key b"
  using handled.steps_keep [OF assms(2) reachable_ok(1) [OF assms(1)] assms(3)] by simp

end
