(* ===== verification/Scenario.thy ===== *)
theory Scenario
  imports Invariants
begin

text \<open>
  One concrete history, on which the properties of reachable states are tried: an on-demand run is
  requested, then fails because no channel could be read.
\<close>

section \<open>A served call\<close>

lemma after_served: "after m d [] = effect_of m d"
  by (simp add: after_def effect_of_def healthy_def)

text \<open>An operation that fails without an effect when it is served fails so over any connection.\<close>

lemma fails_anyway:
  assumes safe: "crash_safe m" and failed: "m (healthy d) = (Inl e, healthy d)"
  shows "\<exists>e'. fst (m \<lparr>tables = d, wire = ns\<rparr>) = Inl e'" and "tables (snd (m \<lparr>tables = d, wire = ns\<rparr>)) = d"
proof -
  let ?w = "\<lparr>tables = d, wire = ns\<rparr>"
  show "tables (snd (m ?w)) = d"
    using crash_safe_cases [OF safe, of ?w] failed by (simp add: effect_of_def)
  show "\<exists>e'. fst (m ?w) = Inl e'"
  proof (cases "m ?w")
    case (Pair r w')
    show ?thesis
    proof (cases r)
      case (Inr a)
      with Pair crash_safe_success [OF safe, of ?w a w'] failed show ?thesis by simp
    qed (simp add: Pair)
  qed
qed

section \<open>A completed delivery\<close>

definition completed_inbox :: "instant \<Rightarrow> uuid \<Rightarrow> string \<Rightarrow> string \<Rightarrow> string \<Rightarrow> inbox_row" where
  "completed_inbox now message subject key hash =
     (open_inbox message subject key hash)\<lparr>in_state := Inbox_Completed, in_completed := Some now\<rparr>"

lemma settle_inbox:
  assumes "\<not> inbox_conflict message subject key d"
  shows "update_where (\<lambda>r. in_id r = message)
       (\<lambda>r. r\<lparr>in_state := Inbox_Completed, in_completed := Some now\<rparr>) (inbox d @ [open_inbox message subject key hash])
      = inbox d @ [completed_inbox now message subject key hash]"
proof -
  have "r \<in> set (inbox d) \<Longrightarrow> in_id r \<noteq> message" for r using assms by (auto simp: inbox_conflict_def)
  then show ?thesis by (simp add: row_simps update_where_none completed_inbox_def)
qed

section \<open>The history\<close>

definition demo_moment :: circumstances where
  "demo_moment = \<lparr>at = 300, later = 301, fresh_report = 200, fresh_subscription = 90, fresh_channel = 91\<rparr>"

definition demo_accepted :: db where
  "demo_accepted =
     after (transaction Intake_Storage (run_body demo demo_moment 1 ''digest'' demo_run)) empty_db []"

definition demo_failed :: db where
  "demo_failed = after (fail_run demo 400 201 5 7 Run_Provider_Unavailable) demo_accepted []"

definition demo_run_row :: run_row where
  "demo_run_row =
     \<lparr>run_id = 5, run_owner = 7, run_operation = 72, run_trigger = On_Demand, run_key = ''digest'',
      run_start = 100, run_end = 200, run_language = En, run_state = Accepted,
      run_failure = None, run_incomplete = False, run_created = 300, run_updated = 300\<rparr>"

definition demo_queued :: outbox_row where
  "demo_queued = queued_report 300 200
     \<lparr>rr_operation = 72, rr_owner = 7, rr_causation = Some (command_reference 1),
      rr_report = \<lparr>rep_operation = 72, rep_status = Op_Queued, rep_stage = Some ''awaiting_acquisition'',
        rep_results = [], rep_error = None, rep_warnings = []\<rparr>\<rparr>"

lemma demo_accepted_rows: "runs demo_accepted = [demo_run_row]" "outbox demo_accepted = [demo_queued]"
  and demo_accepted_inbox: "map in_id (inbox demo_accepted) = [1]"
  by (simp_all add: demo_accepted_def after_served effect_of_def run_transaction run_body_def storage_def
      insert_inbox_def open_inbox_def inbox_conflict_def create_commanded_run_def cast_window_def
      demo_run_def create_digest_run_def insert_run_def new_run_def empty_db_def natural_key_def
      set_language_def update_runs_def update_where_def queue_started_def new_report_def caused_by_def
      demo_moment_def insert_outbox_once_def outbox_conflict_def complete_inbox_def demo_run_row_def
      demo_queued_def)

definition demo_failed_row :: run_row where
  "demo_failed_row = demo_run_row\<lparr>run_state := Failed, run_failure := Some ''provider_unavailable'',
     run_updated := 400\<rparr>"

lemma demo_failed_rows: "runs demo_failed = [demo_failed_row]" "length (outbox demo_failed) = 2"
  by (simp_all add: demo_failed_def after_served effect_of_def fail_run_def run_transaction stored_def
      update_runs_def count_where_def update_where_def demo_accepted_rows demo_run_row_def open_run_def
      enter_failed_def report_owned_def owns_on_demand_def select_one_def failed_run_report_def
      new_report_def with_error_def and_then_def outbox_conflict_def demo_queued_def queued_report_def
      demo_failed_row_def report_key_inj)

lemma demo_accepted_reachable: "reachable demo demo_accepted"
  unfolding reachable_def demo_accepted_def by (rule r_into_rtranclp) (rule step.working, rule work.request_run)

lemma demo_failed_reachable: "steps demo demo_accepted demo_failed" "reachable demo demo_failed"
proof -
  show *: "steps demo demo_accepted demo_failed"
    unfolding demo_failed_def by (rule r_into_rtranclp) (rule step.working, rule work.fail)
  from demo_accepted_reachable * show "reachable demo demo_failed"
    unfolding reachable_def by (rule rtranclp_trans)
qed

end
