(* ===== verification/Commands.thy ===== *)
theory Commands
  imports Scenario
begin

text \<open>
  What the commands do over a healthy connection: the row that each leaves in the inbox, its effect
  and its report, and the commands that are refused.
\<close>

section \<open>A run command\<close>

text \<open>The rows of an accepted run command.\<close>

definition commanded_run :: "instant \<Rightarrow> run_command \<Rightarrow> run_row" where
  "commanded_run now command =
     (new_run now (rc_run command) (rc_owner command) (rc_operation command)
        (if rc_on_demand command then On_Demand else Scheduled) (rc_key command)
        (rc_start command) (rc_end command))\<lparr>run_language := rc_language command\<rparr>"

definition queued_row :: "uuid \<Rightarrow> run_command \<Rightarrow> report_row" where
  "queued_row message command =
     \<lparr>rr_operation = rc_operation command, rr_owner = rc_owner command,
      rr_causation = Some (command_reference message),
      rr_report = \<lparr>rep_operation = rc_operation command, rep_status = Op_Queued,
        rep_stage = Some ''awaiting_acquisition'', rep_results = [], rep_error = None,
        rep_warnings = []\<rparr>\<rparr>"

lemma update_new_row:
  "(\<And>r. r \<in> set rows \<Longrightarrow> \<not> p r) \<Longrightarrow> update_where p f (rows @ [q]) = rows @ [if p q then f q else q]"
  by (simp add: row_simps update_where_none)

lemma cast_window_exact: "text_forms_agree x \<Longrightarrow> cast_window x command = Some (rc_start command, rc_end command)"
  by (simp add: cast_window_def text_forms_agreeD)

text \<open>
  A valid run command whose message, key, run identity and window are new is answered as applied and
  leaves exactly three things together: the completed inbox row, the accepted run with its own identity
  and language, and, when it was asked for on demand, the queued report of its operation.
\<close>

theorem run_command_applied:
  assumes command: "decode_run x payload = Some command" "valid_run x command" "rc_start command < rc_end command"
    and hash: "length (sha256 x payload) = 64" and texts: "text_forms_agree x"
    and words: "stage_parses x ''awaiting_acquisition''" "valid_report x (rr_report (queued_row message command))"
    and new: "\<not> inbox_conflict message run_subject (rc_key command) d"
      "rc_run command \<notin> run_id ` set (runs d)"
      "natural_key (commanded_run (at c) command) \<notin> natural_key ` set (runs d)"
    and report: "rc_on_demand command \<Longrightarrow> \<not> outbox_conflict report_subject (report_key (rc_operation command) Op_Queued) d
      \<and> \<not> outbox_id_taken (fresh_report c) d"
  shows "accept_run x c message payload (healthy d) = (Inr Applied, healthy (d
     \<lparr>inbox := inbox d @ [completed_inbox (at c) message run_subject (rc_key command) (sha256 x payload)],
      runs := runs d @ [commanded_run (at c) command],
      outbox := outbox d @ (if rc_on_demand command
        then [queued_report (at c) (fresh_report c) (queued_row message command)] else [])\<rparr>))"
proof -
  let ?in = "open_inbox message run_subject (rc_key command) (sha256 x payload)"
  let ?run = "new_run (at c) (rc_run command) (rc_owner command) (rc_operation command)
        (if rc_on_demand command then On_Demand else Scheduled) (rc_key command)
        (rc_start command) (rc_end command)"
  let ?d1 = "d\<lparr>inbox := inbox d @ [?in]\<rparr>"
  have one: "insert_inbox ?in d = Inr (True, ?d1)"
    using new(1) hash by (simp add: insert_inbox_def) (simp add: open_inbox_def)
  have two: "create_commanded_run x (at c) command ?d1
      = Inr (rc_run command, ?d1\<lparr>runs := runs d @ [?run]\<rparr>)"
    using new(2,3) command(3)
    by (simp add: create_commanded_run_def cast_window_exact [OF texts] create_digest_run_def insert_run_def
        Let_def commanded_run_def new_run_def natural_key_def)
  let ?d3 = "?d1\<lparr>runs := runs d @ [commanded_run (at c) command]\<rparr>"
  have three: "\<exists>n. set_language (rc_run command) (rc_owner command) (rc_language command)
      (?d1\<lparr>runs := runs d @ [?run]\<rparr>) = Inr (n, ?d3)"
  proof -
    have "update_where (\<lambda>r. run_id r = rc_run command \<and> run_owner r = rc_owner command)
        (\<lambda>r. r\<lparr>run_language := rc_language command\<rparr>) (runs d @ [?run]) = runs d @ [commanded_run (at c) command]"
      using new(2) by (subst update_new_row) (auto simp: commanded_run_def new_run_def image_iff)
    then show ?thesis by (simp add: set_language_def update_runs_def)
  qed
  have four: "update_where (\<lambda>r. in_id r = message)
       (\<lambda>r. r\<lparr>in_state := Inbox_Completed, in_completed := Some (at c)\<rparr>) (inbox d @ [?in])
      = inbox d @ [completed_inbox (at c) message run_subject (rc_key command) (sha256 x payload)]"
    by (rule settle_inbox [OF new(1)])
  from three obtain n where "set_language (rc_run command) (rc_owner command) (rc_language command)
      (?d1\<lparr>runs := runs d @ [?run]\<rparr>) = Inr (n, ?d3)" ..
  note steps = one two this four
  show ?thesis
  proof (cases "rc_on_demand command")
    case True
    with report have "\<not> outbox_conflict report_subject (report_key (rc_operation command) Op_Queued) ?d3"
      and "\<not> outbox_id_taken (fresh_report c) ?d3"
      by (simp_all add: outbox_conflict_def)
    with True command steps words show ?thesis
      by (simp add: accept_run_def bind_ok_or or_else_def run_transaction run_body_def storage_def
          queue_started_def new_report_def caused_by_def queued_row_def complete_inbox_def ret_def)
  next
    case False
    with command steps show ?thesis
      by (simp add: accept_run_def bind_ok_or or_else_def run_transaction run_body_def storage_def
          queue_started_def complete_inbox_def ret_def)
  qed
qed

theorem run_command_applied_witness:
  "accept_run demo demo_moment 1 ''digest'' (healthy empty_db) = (Inr Applied, healthy (empty_db
     \<lparr>inbox := [completed_inbox 300 1 run_subject ''digest'' (demo_sha256 ''digest'')],
      runs := [commanded_run 300 demo_run],
      outbox := [queued_report 300 200 (queued_row 1 demo_run)]\<rparr>))"
  using run_command_applied [of demo "''digest''" demo_run 1 empty_db demo_moment] demo_text_forms
  by (simp add: demo_moment_def demo_run_def empty_db_def inbox_conflict_def outbox_conflict_def)

section \<open>Refusals\<close>

definition rejected_row :: "rejection \<Rightarrow> report_row" where
  "rejected_row r =
     \<lparr>rr_operation = rj_operation r, rr_owner = rj_owner r,
      rr_causation = Some (command_reference (rj_message r)),
      rr_report = \<lparr>rep_operation = rj_operation r, rep_status = Op_Failed, rep_stage = Some ''rejected'',
        rep_results = [], rep_error = Some (reason_code (rj_reason r), reason_message (rj_reason r), False),
        rep_warnings = []\<rparr>\<rparr>"

text \<open>What a recorded refusal adds, and what it needs: a new message and key, and a report that builds.\<close>

definition refused :: "instant \<Rightarrow> uuid \<Rightarrow> rejection \<Rightarrow> db \<Rightarrow> db" where
  "refused now fresh r d =
     d\<lparr>inbox := inbox d @ [failed_inbox now r], outbox := outbox d @ [queued_report now fresh (rejected_row r)]\<rparr>"

definition refusable :: "externals \<Rightarrow> uuid \<Rightarrow> rejection \<Rightarrow> db \<Rightarrow> bool" where
  "refusable x fresh r d \<longleftrightarrow>
     \<not> rejection_recorded r d \<and> length (rj_sha256 r) = 64
     \<and> stage_parses x ''rejected'' \<and> code_parses x (reason_code (rj_reason r))
     \<and> message_parses x (reason_message (rj_reason r)) \<and> valid_report x (rr_report (rejected_row r))
     \<and> \<not> outbox_conflict report_subject (report_key (rj_operation r) Op_Failed) d \<and> \<not> outbox_id_taken fresh d"

lemma reject_run:
  assumes "refusable x (fresh_report c) r d"
  shows "reject x c r (healthy d) = (Inr Applied, healthy (refused (at c) (fresh_report c) r d))"
proof -
  have "insert_inbox (failed_inbox (at c) r) d = Inr (True, d\<lparr>inbox := inbox d @ [failed_inbox (at c) r]\<rparr>)"
    using assms by (simp add: insert_inbox_def refusable_def rejection_recorded_def)
      (simp add: failed_inbox_def)
  moreover have "rejection_report x r = Inr (rejected_row r)"
    using assms by (simp add: rejection_report_def refusable_def new_report_def with_error_def caused_by_def
        rejected_row_def)
  ultimately show ?thesis
    using assms
    by (simp add: reject_def run_transaction reject_body_def storage_def refusable_def outbox_conflict_def
        refused_def) (auto simp: rejected_row_def)
qed

text \<open>
  A run command for a window that the owner already asked for under the same key, but with another
  run identity, is refused for good: it is acknowledged, leaves a failed inbox row and a failed report
  of its operation, and the run that holds the key stays as it was.
\<close>

theorem run_command_refused:
  assumes command: "decode_run x payload = Some command" "valid_run x command" "rc_start command < rc_end command"
    and texts: "text_forms_agree x" and ok: "runs_ok (runs d)"
    and taken: "q \<in> set (runs d)" "natural_key q = natural_key (commanded_run (at c) command)"
      "run_id q \<noteq> rc_run command"
    and recordable: "refusable x (fresh_report c) (run_rejection x message payload command) d"
  shows "accept_run x c message payload (healthy d) = (Inr Applied,
     healthy (refused (later c) (fresh_report c) (run_rejection x message payload command) d))"
proof -
  let ?in = "open_inbox message run_subject (rc_key command) (sha256 x payload)"
  let ?r = "run_rejection x message payload command"
  have inbox: "insert_inbox ?in d = Inr (True, d\<lparr>inbox := inbox d @ [?in]\<rparr>)"
    using recordable
    by (simp add: insert_inbox_def refusable_def run_rejection_recorded) (simp add: open_inbox_def run_rejection_def)
  have "create_commanded_run x (at c) command (d\<lparr>inbox := inbox d @ [?in]\<rparr>)
      = Inr (run_id q, d\<lparr>inbox := inbox d @ [?in]\<rparr>)"
  proof -
    have "create_digest_run (at c) (rc_run command) (rc_owner command) (rc_operation command)
        (if rc_on_demand command then On_Demand else Scheduled) (rc_key command) (rc_start command)
        (rc_end command) (d\<lparr>inbox := inbox d @ [?in]\<rparr>) = Inr (run_id q, d\<lparr>inbox := inbox d @ [?in]\<rparr>)"
      by (rule create_digest_run_known)
        (use ok taken command(3) in \<open>simp_all add: runs_ok_def commanded_run_def new_run_def natural_key_def\<close>)
    then show ?thesis by (simp add: create_commanded_run_def cast_window_exact [OF texts])
  qed
  moreover have "reject x (c\<lparr>at := later c\<rparr>) ?r (healthy d)
      = (Inr Applied, healthy (refused (later c) (fresh_report c) ?r d))"
    using reject_run [of x "c\<lparr>at := later c\<rparr>" ?r d] recordable by simp
  ultimately show ?thesis
    using command inbox taken(3)
    by (simp add: accept_run_def bind_ok_or run_transaction run_body_def storage_def)
qed

definition demo_taken :: db where
  "demo_taken = empty_db\<lparr>runs := [new_run 1 6 7 70 On_Demand ''digest'' 100 200]\<rparr>"

theorem run_command_refused_witness:
  "accept_run demo demo_moment 1 ''digest'' (healthy demo_taken) = (Inr Applied,
     healthy (refused 301 200 (run_rejection demo 1 ''digest'' demo_run) demo_taken))"
  using run_command_refused [of demo "''digest''" demo_run demo_taken
      "new_run 1 6 7 70 On_Demand ''digest'' 100 200" demo_moment 1] demo_text_forms
  by (simp add: demo_moment_def demo_run_def demo_taken_def empty_db_def inbox_conflict_def outbox_conflict_def
      runs_ok_def new_run_def commanded_run_def natural_key_def refusable_def run_rejection_recorded)
    (simp add: run_rejection_def)

text \<open>
  C38: a run command that reuses the identity of a run with another owner, key or window is never
  acknowledged: over any connection and at any time the answer is an error and the database stays as it
  was, so the message is delivered again and again instead of being refused for good.
\<close>

theorem run_identity_reuse_never_acknowledged:
  assumes command: "decode_run x payload = Some command" "valid_run x command" "text_forms_agree x"
    and new: "\<not> inbox_conflict message run_subject (rc_key command) d"
      "natural_key (commanded_run (at c) command) \<notin> natural_key ` set (runs d)"
    and reused: "rc_run command \<in> run_id ` set (runs d)"
  shows "(\<exists>e. fst (accept_run x c message payload \<lparr>tables = d, wire = ns\<rparr>) = Inl e)
     \<and> tables (snd (accept_run x c message payload \<lparr>tables = d, wire = ns\<rparr>)) = d"
proof -
  let ?m = "accept_run x c message payload"
  have key: "natural_key (new_run (at c) (rc_run command) (rc_owner command) (rc_operation command)
        (if rc_on_demand command then On_Demand else Scheduled) (rc_key command) (rc_start command)
        (rc_end command)) = natural_key (commanded_run (at c) command)"
    by (simp add: commanded_run_def natural_key_def new_run_def)
  have refuse: "\<exists>e. create_commanded_run x (at c) command (d\<lparr>inbox := i\<rparr>) = Inl e" for i
    using new(2) reused
    by (simp add: create_commanded_run_def cast_window_exact [OF command(3)] create_digest_run_def
        insert_run_def Let_def key) (simp add: new_run_def)
  have "\<exists>e. ?m (healthy d) = (Inl e, healthy d)"
  proof (cases "length (sha256 x payload) = 64")
    case True
    let ?in = "open_inbox message run_subject (rc_key command) (sha256 x payload)"
    have "insert_inbox ?in d = Inr (True, d\<lparr>inbox := inbox d @ [?in]\<rparr>)"
      using new(1) True by (simp add: insert_inbox_def) (simp add: open_inbox_def)
    moreover obtain e where "create_commanded_run x (at c) command (d\<lparr>inbox := inbox d @ [?in]\<rparr>) = Inl e"
      using refuse by blast
    ultimately show ?thesis
      using command by (simp add: accept_run_def bind_ok_or run_transaction run_body_def storage_def)
  next
    case False
    then have "insert_inbox (open_inbox message run_subject (rc_key command) (sha256 x payload)) d = Inl Violation"
      by (simp add: insert_inbox_def open_inbox_def)
    with command show ?thesis
      by (simp add: accept_run_def bind_ok_or run_transaction run_body_def storage_def)
  qed
  then obtain e where "?m (healthy d) = (Inl e, healthy d)" ..
  from fails_anyway [OF crash_safe_accept_run this] show ?thesis by blast
qed

theorem run_identity_reuse_never_acknowledged_witness:
  "\<exists>e. fst (accept_run demo demo_moment 1 ''digest''
     (healthy (empty_db\<lparr>runs := [new_run 1 5 8 70 On_Demand ''other'' 100 200]\<rparr>))) = Inl e"
  using run_identity_reuse_never_acknowledged [of demo "''digest''" demo_run 1
      "empty_db\<lparr>runs := [new_run 1 5 8 70 On_Demand ''other'' 100 200]\<rparr>" demo_moment "[]"] demo_text_forms
  by (simp add: demo_run_def empty_db_def inbox_conflict_def new_run_def commanded_run_def natural_key_def
      healthy_def)

text \<open>
  A command to follow a twenty-first channel is refused for good: it is acknowledged, leaves a failed
  inbox row and a failed report that names the limit, and no channel or subscription changes.
\<close>

theorem subscription_limit_refused:
  assumes command: "decode_subscription x payload = Some command" "valid_subscription x command" "sc_active command"
    and ok: "subscriptions_ok d" and full: "active_count (sc_owner command) d = 20"
    and other: "\<And>s. followed (sc_owner command) (sc_username command) d s \<Longrightarrow> \<not> sub_enabled s"
    and fresh: "fresh_subscription c \<notin> sub_id ` set (subscriptions d)" "fresh_channel c \<notin> ch_id ` set (channels d)"
    and recordable: "refusable x (fresh_report c)
      (subscription_rejection x message payload command Subscription_Limit_Reached) d"
  shows "accept_subscription x c message payload (healthy d) = (Inr Applied, healthy (refused (later c)
     (fresh_report c) (subscription_rejection x message payload command Subscription_Limit_Reached) d))"
proof -
  let ?in = "open_inbox message subscription_subject (sc_key command) (sha256 x payload)"
  let ?r = "subscription_rejection x message payload command Subscription_Limit_Reached"
  let ?d1 = "d\<lparr>inbox := inbox d @ [?in]\<rparr>"
  have inbox: "insert_inbox ?in d = Inr (True, ?d1)"
    using recordable
    by (simp add: insert_inbox_def refusable_def subscription_rejection_recorded)
      (simp add: open_inbox_def subscription_rejection_def)
  have "subscriptions_ok ?d1" and "active_count (sc_owner command) ?d1 = 20"
    and "followed (sc_owner command) (sc_username command) ?d1 s = followed (sc_owner command) (sc_username command) d s" for s
    using ok full by (simp_all add: subscriptions_ok_def active_count_def followed_def)
  then have "set_subscription (fresh_subscription c) (fresh_channel c) (sc_owner command)
      (sc_username command) True (at c) ?d1 = Inl Raised_P0001"
    using set_subscription_raised [of ?d1 "fresh_subscription c" "fresh_channel c" "sc_owner command"
        "sc_username command" True "at c"] fresh other by simp
  moreover have "reject x (c\<lparr>at := later c\<rparr>) ?r (healthy d)
      = (Inr Applied, healthy (refused (later c) (fresh_report c) ?r d))"
    using reject_run [of x "c\<lparr>at := later c\<rparr>" ?r d] recordable by simp
  ultimately show ?thesis
    using command inbox
    by (simp add: accept_subscription_def bind_ok_or run_transaction subscription_body_def storage_def)
qed

theorem subscription_limit_refused_witness:
  "accept_subscription demo (demo_moment\<lparr>fresh_subscription := 100, fresh_channel := 100\<rparr>) 2 ''follow''
     (healthy full_owner) = (Inr Applied, healthy (refused 301 200
     (subscription_rejection demo 2 ''follow'' demo_subscription Subscription_Limit_Reached) full_owner))"
proof -
  have "active_count 7 full_owner = 20" and "''rustlang'' \<notin> ch_username ` set (channels full_owner)"
    and "ascii_lower ''rustlang'' = ''rustlang''" and "(100 :: uuid) \<notin> sub_id ` set (subscriptions full_owner)"
    and "(100 :: uuid) \<notin> ch_id ` set (channels full_owner)" and "inbox full_owner = []" and "outbox full_owner = []"
    by (code_simp, code_simp, code_simp, code_simp, code_simp, simp_all add: full_owner_def empty_db_def)
  moreover from this have "followed 7 ''rustlang'' full_owner s \<Longrightarrow> \<not> sub_enabled s" for s
    by (auto simp: followed_def list_ex_iff rev_image_eqI)
  ultimately show ?thesis
    using subscription_limit_refused [of demo "''follow''" demo_subscription full_owner
        "demo_moment\<lparr>fresh_subscription := 100, fresh_channel := 100\<rparr>" 2] full_owner_ok
    by (simp add: demo_subscription_def demo_moment_def refusable_def subscription_rejection_recorded
        inbox_conflict_def outbox_conflict_def) (simp add: subscription_rejection_def)
qed

text \<open>
  A payload that does not decode is refused for good only when it names its operation and an owner
  that is the tenant the producer was authenticated for; then the refusal is recorded under the key of
  the message, for the user of that tenant. Any other unreadable payload changes nothing and is answered
  as invalid.
\<close>

theorem unreadable_commands:
  assumes attributed: "Option.bind (map_of entries ''operation_id'') (value_operation x) = Some operation"
      "Option.bind (map_of entries ''owner'') (value_tenant x) = Some tenant"
    and r: "r = \<lparr>rj_message = message, rj_subject = kind_subject kind, rj_key = ''invalid:'' @ uuid_text message,
        rj_sha256 = sha256 x (encode_object x entries), rj_operation = operation,
        rj_owner = tenant_user x tenant, rj_reason = Command_Invalid\<rparr>"
    and recordable: "refusable x (fresh_report c) r d"
    and foreign: "other \<noteq> tenant"
    and nameless: "Option.bind (map_of entries' ''operation_id'') (value_operation x) = None"
  shows "reject_unreadable x c message kind tenant entries (healthy d)
       = (Inr Applied, healthy (refused (at c) (fresh_report c) r d))
     \<and> reject_unreadable x c message kind other entries (healthy d) = (Inl Intake_Invalid, healthy d)
     \<and> reject_unreadable x c message kind tenant entries' (healthy d) = (Inl Intake_Invalid, healthy d)"
  using reject_run [of x c r d] assms
  by (simp add: reject_unreadable_def)

theorem unreadable_commands_witness:
  "reject_unreadable demo demo_moment 4 Run_Command ''user:7''
       [(''operation_id'', JString ''9''), (''owner'', JString ''user:7'')] (healthy empty_db)
     = (Inr Applied, healthy (refused 300 200
         \<lparr>rj_message = 4, rj_subject = run_subject, rj_key = ''invalid:'' @ uuid_text 4,
          rj_sha256 = demo_sha256 ''object'', rj_operation = 9, rj_owner = 7, rj_reason = Command_Invalid\<rparr> empty_db))
   \<and> reject_unreadable demo demo_moment 4 Run_Command ''user:8''
       [(''operation_id'', JString ''9''), (''owner'', JString ''user:7'')] (healthy empty_db)
     = (Inl Intake_Invalid, healthy empty_db)"
proof -
  have parse: "parse_unsigned 1000 ''9'' = Some 9" by code_simp
  show ?thesis
    using unreadable_commands [of "[(''operation_id'', JString ''9''), (''owner'', JString ''user:7'')]" demo 9
        "''user:7''" _ 4 Run_Command demo_moment empty_db "''user:8''" "[]", OF _ _ refl]
    by (simp add: demo_def demo_moment_def refusable_def rejection_recorded_def inbox_conflict_def
        outbox_conflict_def empty_db_def parse)
qed

end
