(* ===== verification/Settlements.thy ===== *)
theory Settlements
  imports Scenario
begin

text \<open>
  What a Knowledge fact does over a healthy connection: the result, the end of the run and the report
  that a completion or a failure leaves, and the facts that are refused.
\<close>

section \<open>Rows found by their keys\<close>

lemma select_one_only:
  assumes "v \<in> set rows" and "p v" and "\<And>w. w \<in> set rows \<Longrightarrow> p w \<Longrightarrow> w = v"
  shows "select_one p rows = Some v"
proof (cases "select_one p rows")
  case None
  with assms(1,2) show ?thesis by (simp add: select_one_None)
next
  case (Some w)
  with assms(3) [of w] show ?thesis by (auto dest: select_one_Some)
qed

text \<open>A waiting run with its manifest, in tables that have their keys.\<close>

definition awaiting :: "db \<Rightarrow> run_row \<Rightarrow> manifest_row \<Rightarrow> bool" where
  "awaiting d r m \<longleftrightarrow>
     unique_by run_id (runs d) \<and> unique_by man_run (manifests d) \<and> unique_by man_id (manifests d)
     \<and> r \<in> set (runs d) \<and> m \<in> set (manifests d) \<and> man_run m = run_id r \<and> man_owner m = run_owner r
     \<and> run_state r = Waiting_Recap"

lemma owner_found:
  assumes "unique_by run_id rs" and "r \<in> set rs"
  shows "select_one (owns_on_demand (run_id r) (run_owner r)) rs
    = (if run_trigger r = On_Demand then Some r else None)"
proof -
  have run: "q \<in> set rs \<Longrightarrow> run_id q = run_id r \<Longrightarrow> q = r" for q using assms by (auto dest: unique_byD)
  show ?thesis
  proof (cases "run_trigger r = On_Demand")
    case True
    then have "select_one (owns_on_demand (run_id r) (run_owner r)) rs = Some r"
      by (intro select_one_only) (use assms run in \<open>auto simp: owns_on_demand_def\<close>)
    with True show ?thesis by simp
  next
    case False
    with run have "select_one (owns_on_demand (run_id r) (run_owner r)) rs = None"
      by (auto simp: select_one_None owns_on_demand_def)
    with False show ?thesis by simp
  qed
qed

text \<open>The same row after its move, which keeps the keys of all of them.\<close>

lemma moved_owner_found:
  assumes unique: "unique_by run_id rs" and r: "r \<in> set rs" and keys: "keeps_keys f"
  shows "select_one (owns_on_demand (run_id r) (run_owner r)) (update_where (\<lambda>q. run_id q = run_id r) f rs)
    = (if run_trigger r = On_Demand then Some (f r) else None)"
proof -
  have same: "run_id (f q) = run_id q" "run_owner (f q) = run_owner q" "run_trigger (f q) = run_trigger q" for q
    using keeps_keys_owner_trigger [OF keys, of q] by simp_all
  have "unique_by run_id (update_where (\<lambda>q. run_id q = run_id r) f rs)"
    using unique by (simp add: map_update_where same)
  moreover have "f r \<in> set (update_where (\<lambda>q. run_id q = run_id r) f rs)"
    using r by (auto simp: set_update_where)
  ultimately show ?thesis using owner_found [of _ "f r"] by (simp add: same)
qed

lemma awaiting_found:
  assumes "awaiting d r m"
  shows "run_with_manifest (run_id r) (run_owner r) d = Some (r, m)"
    and "owned_run_with_manifest (run_id r) (run_owner r) d = Some (r, m)"
    and "select_one (\<lambda>q. run_id q = run_id r \<and> run_owner q = run_owner r) (runs d) = Some r"
    and "select_one (owns_on_demand (run_id r) (run_owner r)) (runs d)
      = (if run_trigger r = On_Demand then Some r else None)"
    and "count_where (waiting_run (run_id r) (run_owner r)) (runs d) = 1"
proof -
  have run: "q \<in> set (runs d) \<Longrightarrow> run_id q = run_id r \<Longrightarrow> q = r" for q
    using assms by (auto simp: awaiting_def dest: unique_byD)
  have man: "q \<in> set (manifests d) \<Longrightarrow> man_run q = run_id r \<Longrightarrow> q = m" for q
    using assms by (auto simp: awaiting_def dest: unique_byD)
  note awaiting = assms [unfolded awaiting_def]
  show "run_with_manifest (run_id r) (run_owner r) d = Some (r, m)"
    unfolding run_with_manifest_def by (rule select_one_only) (use awaiting run man in auto)
  show "owned_run_with_manifest (run_id r) (run_owner r) d = Some (r, m)"
    unfolding owned_run_with_manifest_def by (rule select_one_only) (use awaiting run man in auto)
  show "select_one (\<lambda>q. run_id q = run_id r \<and> run_owner q = run_owner r) (runs d) = Some r"
    by (rule select_one_only) (use awaiting run in auto)
  show "select_one (owns_on_demand (run_id r) (run_owner r)) (runs d)
      = (if run_trigger r = On_Demand then Some r else None)"
    using awaiting by (intro owner_found) simp_all
  have "count_where (waiting_run (run_id r) (run_owner r)) (runs d) \<le> 1"
    by (rule count_where_key_le_1 [where k = run_id and v = "run_id r"])
      (use awaiting in \<open>auto simp: waiting_run_def\<close>)
  moreover have "count_where (waiting_run (run_id r) (run_owner r)) (runs d) \<noteq> 0"
    using awaiting by (auto simp: count_where_0 waiting_run_def)
  ultimately show "count_where (waiting_run (run_id r) (run_owner r)) (runs d) = 1" by simp
qed

lemma awaiting_moved:
  assumes "awaiting d r m"
  shows "update_where (waiting_run (run_id r) (run_owner r)) f (runs d)
    = update_where (\<lambda>q. run_id q = run_id r) f (runs d)"
proof -
  have "q \<in> set (runs d) \<Longrightarrow> waiting_run (run_id r) (run_owner r) q \<longleftrightarrow> run_id q = run_id r" for q
    using assms by (auto simp: awaiting_def waiting_run_def dest: unique_byD)
  then show ?thesis by (simp add: update_where_def)
qed

lemma awaiting_inbox [simp]: "awaiting (d\<lparr>inbox := i\<rparr>) r m = awaiting d r m"
  "awaiting (d\<lparr>inbox := i, results := s\<rparr>) r m = awaiting d r m"
  by (simp_all add: awaiting_def)

section \<open>A completion\<close>

definition completed_result :: "instant \<Rightarrow> completion_fact \<Rightarrow> uuid \<Rightarrow> bool \<Rightarrow> manifest_row \<Rightarrow> result_row" where
  "completed_result now evt analysis incomplete m =
     \<lparr>res_id = cf_result evt, res_run = cf_run evt, res_manifest = man_id m, res_owner = cf_owner evt,
      res_outcome = completion_outcome evt incomplete, res_recap = Some analysis,
      res_digest = Some (cf_result_sha256 evt), res_citations = int (cf_included evt),
      res_failure = None, res_created = now\<rparr>"

text \<open>The fact speaks of the waiting run and of its manifest.\<close>

definition completes :: "completion_fact \<Rightarrow> run_row \<Rightarrow> manifest_row \<Rightarrow> bool" where
  "completes evt r m \<longleftrightarrow>
     cf_run evt = run_id r \<and> cf_owner evt = run_owner r \<and> cf_manifest_sha256 evt = man_sha256 m
     \<and> cf_selected evt = man_sources m \<and> cf_channels evt \<le> man_channels m"

lemma no_result_linkage: "result \<notin> res_id ` set (results d) \<Longrightarrow> result_linkage result d = Inr None"
proof -
  assume "result \<notin> res_id ` set (results d)"
  then have "select_one (\<lambda>(r, m). res_id r = result \<and> man_id m = res_manifest r)
      (List.product (results d) (manifests d)) = None"
    by (auto simp: select_one_None)
  then show ?thesis by (simp add: result_linkage_def)
qed

text \<open>
  C17: a completion that matches the waiting run and its manifest is applied once and whole: the inbox row
  is completed, the result is stored with the digest and the citations of the fact, the run ends as
  completed when nothing was omitted and its acquisition was complete and as partial otherwise, no other
  run changes, and an on-demand run reports that outcome.
\<close>

theorem completion_settles:
  assumes evt: "decode_completion x payload = Some evt" "valid_completion x evt"
      "Option.bind (strip_prefix ''analysis:'' (cf_analysis_ref evt)) (parse_uuid x) = Some analysis"
    and found: "awaiting d r m" "completes evt r m"
    and hash: "length (sha256 x payload) = 64" "is_sha256_hex (cf_result_sha256 evt)"
    and new: "\<not> inbox_conflict message completed_subject (uuid_text (cf_result evt)) d"
      "cf_result evt \<notin> res_id ` set (results d)" "run_id r \<notin> res_run ` set (results d)"
      "man_id m \<notin> res_manifest ` set (results d)"
    and report: "run_trigger r = On_Demand \<Longrightarrow>
      completion_report x (run_operation r) (run_owner r) message (cf_result_ref evt) (cf_omitted evt)
        (run_incomplete r) = Inr row
      \<and> valid_report x (rr_report row)
      \<and> \<not> outbox_conflict report_subject (report_key (rr_operation row) (rep_status (rr_report row))) d
      \<and> \<not> outbox_id_taken fresh d"
  shows "settle_completion x now fresh message payload (healthy d) = (Inr Applied, healthy (d
     \<lparr>inbox := inbox d @ [completed_inbox now message completed_subject (uuid_text (cf_result evt)) (sha256 x payload)],
      results := results d @ [completed_result now evt analysis (run_incomplete r) m],
      runs := update_where (\<lambda>q. run_id q = run_id r)
        (enter_state now (if cf_omitted evt = 0 \<and> \<not> run_incomplete r then Completed else Partial)) (runs d),
      outbox := outbox d @ (if run_trigger r = On_Demand then [queued_report now fresh row] else [])\<rparr>))"
proof -
  let ?in = "open_inbox message completed_subject (uuid_text (cf_result evt)) (sha256 x payload)"
  let ?d1 = "d\<lparr>inbox := inbox d @ [?in]\<rparr>"
  let ?res = "completed_result now evt analysis (run_incomplete r) m"
  define out where "out = completion_outcome evt (run_incomplete r)"
  let ?d2 = "?d1\<lparr>results := results d @ [?res]\<rparr>"
  let ?d3 = "?d2\<lparr>runs := update_where (\<lambda>q. run_id q = run_id r) (enter_state now out) (runs d)\<rparr>"
  have ids: "cf_run evt = run_id r" "cf_owner evt = run_owner r" using found(2) by (simp_all add: completes_def)
  have one: "insert_inbox ?in d = Inr (True, ?d1)"
    using new(1) hash(1) by (simp add: insert_inbox_def) (simp add: open_inbox_def)
  have "result_checks ?res"
    using hash(2) by (simp add: result_checks_def completed_result_def completion_outcome_def)
  then have "insert_result ?res ?d1 = Inr ((), ?d2)"
    using new(2-4) found(1) ids by (simp add: insert_result_def completed_result_def awaiting_def)
  then have two: "insert_completed_result now evt analysis out ?d1 = Inr (1, ?d2)"
    using awaiting_found(1) [of ?d1 r m] found(1) ids
    by (simp add: insert_completed_result_def completed_result_def out_def)
  have three: "update_runs (waiting_run (run_id r) (run_owner r)) (enter_state now out) ?d2 = Inr (1, ?d3)"
    using awaiting_found(5) [of ?d2 r m] awaiting_moved [of ?d2 r m] found(1) by (simp add: update_runs_def)
  have owner: "select_one (owns_on_demand (run_id r) (run_owner r))
      (update_where (\<lambda>q. run_id q = run_id r) (enter_state now out) (runs d))
      = (if run_trigger r = On_Demand then Some (enter_state now out r) else None)"
    using found(1) enter_state_moves [of out now]
    by (simp add: awaiting_def moves_to_def moved_owner_found)
  have four: "acquisition_flag (run_id r) (run_owner r) d = run_incomplete r"
    using awaiting_found(3) [OF found(1)] by (simp add: acquisition_flag_def)
  have five: "owned_run_with_manifest (run_id r) (run_owner r) d = Some (r, m)"
    by (rule awaiting_found(2) [OF found(1)])
  have op: "run_operation (enter_state now out r) = run_operation r" by (simp add: enter_state_def)
  have waiting: "run_state r = Waiting_Recap" using found(1) by (simp add: awaiting_def)
  note linked = found(2) [unfolded completes_def]
  note simps = settle_completion_def stored_def four five no_result_linkage [OF new(2)] run_transaction
    settle_completion_body_def Let_def one two three owner report_completion_def op complete_inbox_def
    settle_inbox [OF new(1)] waiting out_def [symmetric]
  have outcome: "(if cf_omitted evt = 0 \<and> \<not> run_incomplete r then Completed else Partial) = out"
    by (simp add: out_def completion_outcome_def)
  show ?thesis
  proof (cases "run_trigger r = On_Demand")
    case True
    from report [OF True] have row: "completion_report x (run_operation r) (run_owner r) message
        (cf_result_ref evt) (cf_omitted evt) (run_incomplete r) = Inr row"
      and good: "valid_report x (rr_report row)"
      and free: "\<not> outbox_conflict report_subject (report_key (rr_operation row) (rep_status (rr_report row))) ?d3"
        "\<not> outbox_id_taken fresh ?d3"
      by (simp_all add: outbox_conflict_def)
    with True evt linked show ?thesis unfolding outcome by (simp add: simps)
  next
    case False
    with evt linked show ?thesis unfolding outcome by (simp add: simps)
  qed
qed

text \<open>A run that waits for its recap, and its manifest.\<close>

definition demo_waiting_run :: run_row where
  "demo_waiting_run = demo_run_row\<lparr>run_state := Waiting_Recap\<rparr>"

definition demo_manifest_row :: manifest_row where
  "demo_manifest_row = \<lparr>man_id = 30, man_run = 5, man_owner = 7, man_sha256 = demo_sha256 ''manifest'',
     man_sources = 1, man_channels = 1, man_text = Some ''manifest'', man_minimized = None\<rparr>"

definition demo_waiting :: db where
  "demo_waiting = empty_db\<lparr>runs := [demo_waiting_run], manifests := [demo_manifest_row]\<rparr>"

lemma demo_waiting_awaits: "awaiting demo_waiting demo_waiting_run demo_manifest_row"
  by (simp add: awaiting_def demo_waiting_def demo_waiting_run_def demo_manifest_row_def demo_run_row_def)

lemma demo_decodes:
  "decode_completion demo ''completed'' = Some demo_completion" "valid_completion demo evt"
  "decode_failure demo ''failed'' = Some demo_failure" "valid_failure demo flt"
  "Option.bind (strip_prefix ''analysis:'' (cf_analysis_ref demo_completion)) (parse_uuid demo) = Some 9"
proof -
  have "digit_value (CHR ''9'') = Some 9" and "strip_prefix ''analysis:'' ''analysis:9'' = Some ''9''"
    by code_simp+
  then show "Option.bind (strip_prefix ''analysis:'' (cf_analysis_ref demo_completion)) (parse_uuid demo) = Some 9"
    by (simp add: demo_completion_def demo_def parse_unsigned_def)
qed (simp_all add: demo_def)

theorem completion_settles_witness:
  "settle_completion demo 500 202 40 ''completed'' (healthy demo_waiting) = (Inr Applied, healthy (demo_waiting
     \<lparr>inbox := [completed_inbox 500 40 completed_subject (uuid_text 50) (demo_sha256 ''completed'')],
      results := [completed_result 500 demo_completion 9 False demo_manifest_row],
      runs := [enter_state 500 Completed demo_waiting_run],
      outbox := [queued_report 500 202
        \<lparr>rr_operation = 72, rr_owner = 7, rr_causation = Some (''event:'' @ uuid_text 40),
         rr_report = \<lparr>rep_operation = 72, rep_status = Op_Succeeded, rep_stage = Some ''completed'',
           rep_results = [(result_kind, ''result'')], rep_error = None, rep_warnings = []\<rparr>\<rparr>]\<rparr>))"
proof -
  have hex: "is_sha256_hex (replicate 64 (CHR ''b''))" by code_simp
  show ?thesis
    using completion_settles [OF demo_decodes(1,2,5) demo_waiting_awaits, where message = 40 and fresh = 202 and now = 500] hex
    by (simp add: completes_def demo_completion_def demo_waiting_run_def demo_run_row_def demo_manifest_row_def
        demo_waiting_def empty_db_def inbox_conflict_def outbox_conflict_def completion_report_def new_report_def
        with_result_def caused_by_def update_where_def)
qed

section \<open>A failure\<close>

definition failed_result :: "instant \<Rightarrow> uuid \<Rightarrow> failure_fact \<Rightarrow> manifest_row \<Rightarrow> result_row" where
  "failed_result now fresh flt m =
     \<lparr>res_id = fresh, res_run = ff_run flt, res_manifest = man_id m, res_owner = ff_owner flt,
      res_outcome = Failed, res_recap = None, res_digest = None, res_citations = 0,
      res_failure = Some (fst (classify_failure (ff_code flt))), res_created = now\<rparr>"

text \<open>
  C18: a Knowledge failure that matches the waiting run and its manifest is applied once and whole: the
  inbox row is completed, a failed result is stored under a fresh identity, the run fails with the class
  of the failure code, no other run changes, and an on-demand run reports the failure as retryable
  exactly when its class is.
\<close>

theorem recap_failure_settles:
  assumes flt: "decode_failure x payload = Some flt" "valid_failure x flt"
    and found: "awaiting d r m" "ff_run flt = run_id r" "ff_owner flt = run_owner r"
      "ff_manifest_sha256 flt = man_sha256 m"
    and hash: "length (sha256 x payload) = 64"
    and new: "\<not> inbox_conflict message failed_subject (uuid_text (run_id r)) d"
      "fresh_result \<notin> res_id ` set (results d)" "run_id r \<notin> res_run ` set (results d)"
      "man_id m \<notin> res_manifest ` set (results d)"
    and report: "run_trigger r = On_Demand \<Longrightarrow>
      recap_failure_report x (run_operation r) (run_owner r) message (fst (classify_failure (ff_code flt)))
        (snd (classify_failure (ff_code flt))) = Inr row
      \<and> valid_report x (rr_report row)
      \<and> \<not> outbox_conflict report_subject (report_key (rr_operation row) (rep_status (rr_report row))) d
      \<and> \<not> outbox_id_taken fresh d"
  shows "settle_failure x now fresh_result fresh message payload (healthy d) = (Inr Applied, healthy (d
     \<lparr>inbox := inbox d @ [completed_inbox now message failed_subject (uuid_text (run_id r)) (sha256 x payload)],
      results := results d @ [failed_result now fresh_result flt m],
      runs := update_where (\<lambda>q. run_id q = run_id r)
        (enter_failed now (fst (classify_failure (ff_code flt)))) (runs d),
      outbox := outbox d @ (if run_trigger r = On_Demand then [queued_report now fresh row] else [])\<rparr>))"
proof -
  obtain cls retry where classified: "classify_failure (ff_code flt) = (cls, retry)" by force
  let ?in = "open_inbox message failed_subject (uuid_text (run_id r)) (sha256 x payload)"
  let ?d1 = "d\<lparr>inbox := inbox d @ [?in]\<rparr>"
  let ?res = "failed_result now fresh_result flt m"
  let ?d2 = "?d1\<lparr>results := results d @ [?res]\<rparr>"
  let ?d3 = "?d2\<lparr>runs := update_where (\<lambda>q. run_id q = run_id r) (enter_failed now cls) (runs d)\<rparr>"
  have one: "insert_inbox ?in d = Inr (True, ?d1)"
    using new(1) hash by (simp add: insert_inbox_def) (simp add: open_inbox_def)
  have "result_checks ?res" by (simp add: result_checks_def failed_result_def)
  then have two: "insert_failed_result now fresh_result flt (man_id m) cls ?d1 = Inr ((), ?d2)"
    using new(2-4) found classified
    by (simp add: insert_failed_result_def insert_result_def failed_result_def awaiting_def)
  have three: "update_runs (waiting_run (run_id r) (run_owner r)) (enter_failed now cls) ?d2 = Inr (1, ?d3)"
    using awaiting_found(5) [of ?d2 r m] awaiting_moved [of ?d2 r m] found(1) by (simp add: update_runs_def)
  have owner: "select_one (owns_on_demand (run_id r) (run_owner r))
      (update_where (\<lambda>q. run_id q = run_id r) (enter_failed now cls) (runs d))
      = (if run_trigger r = On_Demand then Some (enter_failed now cls r) else None)"
    using found(1) enter_failed_moves [of now cls]
    by (simp add: awaiting_def moves_to_def moved_owner_found)
  have durable: "owned_run_with_manifest (run_id r) (run_owner r) d = Some (r, m)"
    by (rule awaiting_found(2) [OF found(1)])
  have op: "run_operation (enter_failed now cls r) = run_operation r" by (simp add: enter_failed_def)
  have waiting: "run_state r = Waiting_Recap" using found(1) by (simp add: awaiting_def)
  note simps = settle_failure_def stored_def durable run_transaction settle_failure_body_def classified one two three
    owner report_recap_failure_def op complete_inbox_def settle_inbox [OF new(1)] waiting
  show ?thesis
  proof (cases "run_trigger r = On_Demand")
    case True
    from report [OF True] classified have row: "recap_failure_report x (run_operation r) (run_owner r) message cls retry
        = Inr row" and good: "valid_report x (rr_report row)"
      and free: "\<not> outbox_conflict report_subject (report_key (rr_operation row) (rep_status (rr_report row))) ?d3"
        "\<not> outbox_id_taken fresh ?d3"
      by (simp_all add: outbox_conflict_def)
    with True flt found(2-4) show ?thesis by (simp add: simps)
  next
    case False
    with flt found(2-4) show ?thesis by (simp add: simps)
  qed
qed

theorem recap_failure_settles_witness:
  "settle_failure demo 500 51 202 41 ''failed'' (healthy demo_waiting) = (Inr Applied, healthy (demo_waiting
     \<lparr>inbox := [completed_inbox 500 41 failed_subject (uuid_text 5) (demo_sha256 ''failed'')],
      results := [failed_result 500 51 demo_failure demo_manifest_row],
      runs := [enter_failed 500 ''provider_timeout'' demo_waiting_run],
      outbox := [queued_report 500 202
        \<lparr>rr_operation = 72, rr_owner = 7, rr_causation = Some (''event:'' @ uuid_text 41),
         rr_report = \<lparr>rep_operation = 72, rep_status = Op_Failed, rep_stage = Some ''recap'',
           rep_results = [], rep_error = Some (''channel_digest.recap.provider_timeout'',
             ''The recap could not be produced.'', True), rep_warnings = []\<rparr>\<rparr>]\<rparr>))"
  using recap_failure_settles [OF demo_decodes(3,4) demo_waiting_awaits, where message = 41 and fresh_result = 51 and fresh = 202 and now = 500]
  by (simp add: demo_failure_def demo_waiting_run_def demo_run_row_def demo_manifest_row_def demo_waiting_def
      empty_db_def inbox_conflict_def outbox_conflict_def recap_failure_report_def new_report_def
      with_error_def caused_by_def update_where_def)

section \<open>Facts that are refused\<close>

text \<open>
  A completion of a run that does not wait for it, or whose manifest digest, source count or channel
  count disagrees with what is stored, is refused and changes nothing, over any connection.
\<close>

theorem mismatched_completion_refused:
  assumes evt: "decode_completion x payload = Some evt" "cf_result evt \<notin> res_id ` set (results d)"
    and mismatch: "\<And>r m. owned_run_with_manifest (cf_run evt) (cf_owner evt) d = Some (r, m)
      \<Longrightarrow> run_state r \<noteq> Waiting_Recap \<or> \<not> completes evt r m"
  shows "(\<exists>e. fst (settle_completion x now fresh message payload \<lparr>tables = d, wire = ns\<rparr>) = Inl e)
     \<and> after (settle_completion x now fresh message payload) d ns = d"
proof -
  have keys: "cf_run evt = run_id r \<and> cf_owner evt = run_owner r"
    if "owned_run_with_manifest (cf_run evt) (cf_owner evt) d = Some (r, m)" for r m
    using that by (auto simp: owned_run_with_manifest_def dest!: select_one_Some)
  have "\<exists>e. settle_completion x now fresh message payload (healthy d) = (Inl e, healthy d)"
    using evt(1) mismatch keys
    by (auto simp: settle_completion_def stored_def no_result_linkage [OF evt(2)] completes_def
        split: option.split prod.split)
  then obtain e where "settle_completion x now fresh message payload (healthy d) = (Inl e, healthy d)" ..
  from fails_anyway [OF crash_safe_settle_completion this] show ?thesis by (simp add: after_def)
qed

theorem mismatched_completion_refused_witness:
  "\<exists>e. fst (settle_completion demo 500 202 40 ''completed''
     (healthy (demo_waiting\<lparr>manifests := [demo_manifest_row\<lparr>man_sources := 2\<rparr>]\<rparr>))) = Inl e"
  using mismatched_completion_refused [of demo "''completed''" demo_completion
      "demo_waiting\<lparr>manifests := [demo_manifest_row\<lparr>man_sources := 2\<rparr>]\<rparr>" 500 202 40 "[]"]
  by (simp add: demo_decodes demo_waiting_def empty_db_def demo_completion_def owned_run_with_manifest_def
      select_one_def demo_waiting_run_def demo_run_row_def demo_manifest_row_def completes_def healthy_def)

end
