(* ===== verification/Schedules.thy ===== *)
theory Schedules
  imports Scenario
begin

text \<open>
  What an occurrence of the schedule does over a healthy connection: one run for every owner with a due
  subscription, each over its own window, and one report for the occurrence as a whole.
\<close>

section \<open>The runs of an occurrence\<close>

definition due_owners :: "instant \<Rightarrow> db \<Rightarrow> uuid list" where
  "due_owners due d = sort (remdups (map sub_owner (filter (due_subscription due) (subscriptions d))))"

text \<open>
  The window of an owner: from the previous occurrence, at most seven days back and not before the
  owner's first activation, to this occurrence.
\<close>

definition owner_window :: "instant \<Rightarrow> instant \<Rightarrow> uuid \<Rightarrow> db \<Rightarrow> instant \<times> instant" where
  "owner_window previous due owner d =
     (max (first_activation due owner d) (max previous (due - days 7)), due)"

definition scheduled_run :: "instant \<Rightarrow> occurrence \<Rightarrow> uuid \<Rightarrow> uuid \<Rightarrow> instant \<times> instant \<Rightarrow> run_row" where
  "scheduled_run now oc fresh owner window =
     (new_run now fresh owner (oc_operation oc) Scheduled (oc_key oc) (fst window) (snd window))
       \<lparr>run_language := oc_language oc\<rparr>"

lemma set_due_owners: "owner \<in> set (due_owners due d)
    \<longleftrightarrow> (\<exists>s \<in> set (subscriptions d). sub_owner s = owner \<and> sub_enabled s \<and> sub_first_activated s < due)"
  by (auto simp: due_owners_def due_subscription_def)

lemma first_activation_due:
  assumes "owner \<in> set (due_owners due d)"
  shows "first_activation due owner d < due"
proof -
  let ?ts = "set (map sub_first_activated
       (filter (\<lambda>s. due_subscription due s \<and> sub_owner s = owner) (subscriptions d)))"
  from assms have "?ts \<noteq> {}" by (auto simp: set_due_owners due_subscription_def)
  then have "Min ?ts \<in> ?ts" by (intro Min_in) auto
  then show ?thesis unfolding first_activation_def by (auto simp: due_subscription_def)
qed

lemma owner_window_proper:
  assumes "owner \<in> set (due_owners due d)" and "previous < due"
  shows "fst (owner_window previous due owner d) < snd (owner_window previous due owner d)"
  using first_activation_due [OF assms(1)] assms(2) by (simp add: owner_window_def days_def)

text \<open>The loop over the owners, on the windows already worked out.\<close>

lemma fan_out_runs:
  assumes texts: "text_forms_agree x" and due: "pg_parse x (oc_due oc) = Some due"
    and previous: "pg_parse x (oc_previous oc) = Some prev"
    and window: "\<And>f o' t. (f, o', t) \<in> set is \<Longrightarrow> pg_parse x t = Some (start o') \<and> start o' < due"
    and prev: "prev < due"
    and ids: "distinct (map fst is)" "distinct (map (\<lambda>i. fst (snd i)) is)"
      "fst ` set is \<inter> run_id ` set (runs d) = {}"
    and new: "\<And>f o' t. (f, o', t) \<in> set is \<Longrightarrow>
      natural_key (scheduled_run now oc f o' (max (start o') (max prev (due - days 7)), due))
        \<notin> natural_key ` set (runs d)"
  shows "for_each (fan_out_owner x now oc) is (healthy d) = (Inr (), healthy (d\<lparr>runs := runs d
     @ map (\<lambda>(f, o', t). scheduled_run now oc f o' (max (start o') (max prev (due - days 7)), due)) is\<rparr>))"
  using window ids new
proof (induction "is" arbitrary: d)
  case (Cons i "is")
  obtain f owner t where i: "i = (f, owner, t)" by (cases i)
  let ?w = "(max (start owner) (max prev (due - days 7)), due)"
  let ?r = "scheduled_run now oc f owner ?w"
  let ?d = "d\<lparr>runs := runs d @ [?r]\<rparr>"
  from Cons.prems(1) [of f owner t] i have t: "pg_parse x t = Some (start owner)" and before: "start owner < due"
    by simp_all
  have read: "window_text x t (oc_previous oc) (oc_due oc) d = Inr (pg_text x (fst ?w), pg_text x due)"
    using t due previous by (simp add: window_text_def normalized_window_def)
  have "insert_run ?r d = Inr (True, ?d)"
    using Cons.prems(4,5) before prev i
    by (auto simp: insert_run_def scheduled_run_def new_run_def days_def)
  then have "insert_scheduled_run x now f owner (oc_operation oc) (oc_key oc)
      (pg_text x (fst ?w), pg_text x due) (oc_language oc) d = Inr (True, ?d)"
    by (simp add: insert_scheduled_run_def text_forms_agreeD [OF texts] scheduled_run_def)
  with read have step: "fan_out_owner x now oc i (healthy d) = (Inr (), healthy ?d)"
    by (simp add: fan_out_owner_def i stored_def)
  have "for_each (fan_out_owner x now oc) is (healthy ?d) = (Inr (), healthy (?d\<lparr>runs := runs ?d
     @ map (\<lambda>(f, o', t). scheduled_run now oc f o' (max (start o') (max prev (due - days 7)), due)) is\<rparr>))"
  proof (rule Cons.IH)
    show "fst ` set is \<inter> run_id ` set (runs ?d) = {}"
      using Cons.prems(2,4) i by (auto simp: scheduled_run_def new_run_def)
    fix f' o' t' assume in_rest: "(f', o', t') \<in> set is"
    with Cons.prems(3) i have "o' \<noteq> owner" by force
    with Cons.prems(5) [of f' o' t'] in_rest
    show "natural_key (scheduled_run now oc f' o' (max (start o') (max prev (due - days 7)), due))
        \<notin> natural_key ` set (runs ?d)"
      by (simp add: natural_key_def scheduled_run_def new_run_def)
  qed (use Cons.prems in auto)
  with step show ?case by (simp add: i)
qed simp

text \<open>
  C24: an occurrence of the schedule that is new is applied once and whole. Every owner with an enabled
  subscription activated before the due time gets exactly one accepted scheduled run, in the order of the
  owners, for the posts since the previous occurrence, at most seven days and not before the owner's
  first activation; no other owner gets one, and the occurrence's own operation is reported as succeeded.
\<close>

theorem occurrence_fans_out:
  assumes key: "strip_prefix ''schedule-occurrence:'' (oc_key oc) \<noteq> None"
    and texts: "text_forms_agree x" "pg_parse x (oc_due oc) = Some due"
      "pg_parse x (oc_previous oc) = Some previous" "previous < due"
    and hash: "length (sha256 x (oc_payload oc)) = 64"
    and words: "stage_parses x ''fanned_out''"
      "valid_report x \<lparr>rep_operation = oc_operation oc, rep_status = Op_Succeeded,
        rep_stage = Some ''fanned_out'', rep_results = [], rep_error = None, rep_warnings = []\<rparr>"
    and new: "\<not> inbox_conflict (oc_message oc) occurrence_subject (oc_key oc) d"
      "\<not> outbox_conflict report_subject (report_key (oc_operation oc) Op_Succeeded) d"
      "\<not> outbox_id_taken fresh d"
      "\<And>r. r \<in> set (runs d) \<Longrightarrow> run_trigger r = Scheduled \<Longrightarrow> run_key r \<noteq> oc_key oc"
    and ids: "inj_on fresh_runs {0..<length (due_owners due d)}"
      "fresh_runs ` {0..<length (due_owners due d)} \<inter> run_id ` set (runs d) = {}"
  shows "accept_occurrence x now fresh fresh_runs oc (healthy d) = (Inr Applied, healthy (d
     \<lparr>inbox := inbox d @ [completed_inbox now (oc_message oc) occurrence_subject (oc_key oc)
         (sha256 x (oc_payload oc))],
      runs := runs d @ map (\<lambda>(i, owner). scheduled_run now oc (fresh_runs i) owner (owner_window previous due owner d))
         (enumerate 0 (due_owners due d)),
      outbox := outbox d @ [queued_report now fresh
         \<lparr>rr_operation = oc_operation oc, rr_owner = oc_owner oc,
          rr_causation = Some (command_reference (oc_message oc)),
          rr_report = \<lparr>rep_operation = oc_operation oc, rep_status = Op_Succeeded,
            rep_stage = Some ''fanned_out'', rep_results = [], rep_error = None, rep_warnings = []\<rparr>\<rparr>]\<rparr>))"
proof -
  let ?in = "open_inbox (oc_message oc) occurrence_subject (oc_key oc) (sha256 x (oc_payload oc))"
  let ?d1 = "d\<lparr>inbox := inbox d @ [?in]\<rparr>"
  let ?owners = "map (\<lambda>owner. (owner, pg_text x (first_activation due owner d))) (due_owners due d)"
  let ?is = "zip (map fresh_runs [0..<length (due_owners due d)]) ?owners"
  let ?new = "map (\<lambda>(i, owner). scheduled_run now oc (fresh_runs i) owner (owner_window previous due owner d))
         (enumerate 0 (due_owners due d))"
  have one: "insert_inbox ?in d = Inr (True, ?d1)"
    using new(1) hash by (simp add: insert_inbox_def) (simp add: open_inbox_def)
  have owners: "active_owners x (oc_due oc) ?d1 = Inr ?owners"
    using texts(2) by (simp add: active_owners_def due_owners_def first_activation_def)
  have runs_of: "map (\<lambda>(f, o', t). scheduled_run now oc f o'
        (max (first_activation due o' d) (max previous (due - days 7)), due)) ?is = ?new"
    by (rule nth_equalityI) (simp_all add: nth_enumerate_eq owner_window_def)
  have "for_each (fan_out_owner x now oc) ?is (healthy ?d1) = (Inr (), healthy (?d1\<lparr>runs := runs ?d1
     @ map (\<lambda>(f, o', t). scheduled_run now oc f o'
        (max (first_activation due o' d) (max previous (due - days 7)), due)) ?is\<rparr>))"
  proof (rule fan_out_runs [OF texts(1-3) _ texts(4)])
    fix f o' t assume in_is: "(f, o', t) \<in> set ?is"
    then have "o' \<in> set (due_owners due d)" and "t = pg_text x (first_activation due o' d)"
      by (auto dest!: set_zip_rightD)
    with first_activation_due show "pg_parse x t = Some (first_activation due o' d) \<and> first_activation due o' d < due"
      by (simp add: text_forms_agreeD [OF texts(1)])
    show "natural_key (scheduled_run now oc f o'
        (max (first_activation due o' d) (max previous (due - days 7)), due)) \<notin> natural_key ` set (runs ?d1)"
      using new(4) by (force simp: natural_key_def scheduled_run_def new_run_def)
  next
    have "distinct (map fresh_runs [0..<length (due_owners due d)])"
      using ids(1) by (simp add: distinct_map)
    then show "distinct (map fst ?is)" by simp
    have "map (\<lambda>i. fst (snd i)) ?is = map fst (map snd ?is)" by (simp only: map_map comp_def)
    also have "map snd ?is = ?owners" by simp
    also have "map fst ?owners = due_owners due d" by (simp add: comp_def)
    finally show "distinct (map (\<lambda>i. fst (snd i)) ?is)" by (simp add: due_owners_def)
    show "fst ` set ?is \<inter> run_id ` set (runs ?d1) = {}"
      using ids(2) by (fastforce dest!: set_zip_leftD)
  qed
  then have two: "for_each (fan_out_owner x now oc) ?is (healthy ?d1)
      = (Inr (), healthy (?d1\<lparr>runs := runs d @ ?new\<rparr>))"
    unfolding runs_of by simp
  have three: "\<not> outbox_conflict report_subject (report_key (oc_operation oc) Op_Succeeded) (?d1\<lparr>runs := runs d @ ?new\<rparr>)"
    "\<not> outbox_id_taken fresh (?d1\<lparr>runs := runs d @ ?new\<rparr>)"
    using new(2,3) by (simp_all add: outbox_conflict_def)
  show ?thesis
    using key words three
    by (simp add: accept_occurrence_def run_transaction accept_occurrence_body_def fan_out_def stored_def
        one owners two new_report_def caused_by_def complete_inbox_def settle_inbox [OF new(1)]
        del: upt_Suc)
qed

text \<open>Two owners follow a channel; the second turned it on after the previous occurrence.\<close>

definition demo_occurrence :: occurrence where
  "demo_occurrence = \<lparr>oc_message = 3, oc_payload = ''occurrence'', oc_key = ''schedule-occurrence:1'',
     oc_previous = int_text 200, oc_due = int_text 400, oc_operation = 80, oc_owner = 1, oc_language = En\<rparr>"

definition demo_followers :: db where
  "demo_followers = empty_db\<lparr>subscriptions :=
     [\<lparr>sub_id = 92, sub_owner = 8, sub_channel = 91, sub_first_activated = 300, sub_enabled = True, sub_updated = 300\<rparr>,
      \<lparr>sub_id = 93, sub_owner = 7, sub_channel = 91, sub_first_activated = 100, sub_enabled = True, sub_updated = 100\<rparr>,
      \<lparr>sub_id = 94, sub_owner = 6, sub_channel = 91, sub_first_activated = 100, sub_enabled = False, sub_updated = 100\<rparr>]\<rparr>"

lemma demo_due: "due_owners 400 demo_followers = [7, 8]"
  "owner_window 200 400 7 demo_followers = (200, 400)" "owner_window 200 400 8 demo_followers = (300, 400)"
  by (simp_all add: due_owners_def demo_followers_def due_subscription_def owner_window_def
      first_activation_def days_def)

theorem occurrence_fans_out_witness:
  "runs (effect_of (accept_occurrence demo 401 210 (\<lambda>i. of_nat i + 20) demo_occurrence) demo_followers)
     = [scheduled_run 401 demo_occurrence 20 7 (200, 400), scheduled_run 401 demo_occurrence 21 8 (300, 400)]"
proof -
  have prefix: "strip_prefix ''schedule-occurrence:'' ''schedule-occurrence:1'' = Some ''1''" by code_simp
  have two: "inj_on (\<lambda>i. of_nat i + 20 :: uuid) {0..<Suc (Suc 0)}"
    by (simp add: atLeast0_lessThan_Suc)
  show ?thesis
    using occurrence_fans_out [of demo_occurrence demo 400 200 demo_followers 210 "\<lambda>i. of_nat i + 20" 401]
      demo_text_forms prefix two
    by (simp add: demo_occurrence_def demo_due effect_of_def inbox_conflict_def outbox_conflict_def
        del: int_parse.simps) (simp add: demo_followers_def empty_db_def)
qed

section \<open>The registration of the schedule\<close>

definition queued_for :: "string \<Rightarrow> registration \<Rightarrow> outbox_row \<Rightarrow> bool" where
  "queued_for key payload r \<longleftrightarrow>
     out_subject r = registration_subject \<and> out_key r = key \<and> out_payload r = Registration_Payload payload
     \<and> out_published r = None \<and> out_attempts r = 0"

lemma upserted:
  assumes new: "out_id new \<notin> out_id ` set (outbox d)" "out_subject new = registration_subject"
      "out_published new = None" "out_attempts new = 0"
    and unique: "unique_by (\<lambda>r. (out_subject r, out_key r)) (outbox d)"
    and older: "\<And>r. r \<in> set (outbox d) \<Longrightarrow> out_subject r = registration_subject \<Longrightarrow> out_created r < out_created new"
    and payload: "out_payload new = Registration_Payload payload"
  obtains d' row where "upsert_outbox new d = Inr ((), d')" and "d' = d\<lparr>outbox := outbox d'\<rparr>"
    and "queued_for (out_key new) payload row" and "row \<in> set (outbox d')"
    and "latest_registration d' = Some (out_key new)"
    and "filter (\<lambda>r. \<not> same_key new r) (outbox d') = filter (\<lambda>r. \<not> same_key new r) (outbox d)"
proof (cases "list_ex (same_key new) (outbox d)")
  case True
  then obtain old where old: "old \<in> set (outbox d)" "same_key new old" by (auto simp: list_ex_iff)
  let ?out = "update_where (same_key new) (requeue new) (outbox d)"
  let ?d = "d\<lparr>outbox := ?out\<rparr>"
  let ?row = "requeue new old"
  have only: "r = old" if "r \<in> set (outbox d)" "same_key new r" for r
    using that old unique_byD [OF unique, of r old] by (simp add: same_key_def)
  have row: "?row \<in> set ?out" using old by (auto simp: set_update_where)
  have "(out_created q, out_id q) < (out_created ?row, out_id ?row)"
    if "q \<in> set (filter (\<lambda>r. out_subject r = registration_subject) ?out)" "q \<noteq> ?row" for q
  proof -
    from that have "q \<in> set ?out" by simp
    then show ?thesis
    proof (cases rule: in_update_whereE)
      case (1 r)
      with that(2) only show ?thesis by simp
    next
      case 2
      with that(1) older have "out_created q < out_created new" by simp
      then show ?thesis by (simp add: requeue_def)
    qed
  qed
  moreover have "?row \<in> set (filter (\<lambda>r. out_subject r = registration_subject) ?out)"
    using row old new(2) by (simp add: requeue_def same_key_def)
  ultimately have "latest_row (filter (\<lambda>r. out_subject r = registration_subject) ?out) = Some ?row"
    by (intro latest_row_greatest)
  then have latest: "latest_registration ?d = Some (out_key new)"
    using old by (simp add: latest_registration_def requeue_def same_key_def)
  have rest: "filter (\<lambda>r. \<not> same_key new r) ?out = filter (\<lambda>r. \<not> same_key new r) (outbox d)"
  proof -
    have "same_key new (requeue new r) = same_key new r" for r by (simp add: same_key_def requeue_def)
    then have "filter (\<lambda>r. \<not> same_key new r) (update_where (same_key new) (requeue new) rs)
        = filter (\<lambda>r. \<not> same_key new r) rs" for rs
      by (induction rs) (simp_all add: update_where_simps)
    then show ?thesis .
  qed
  show thesis
  proof (rule that)
    show "upsert_outbox new d = Inr ((), ?d)" using True new(1) by (auto simp: upsert_outbox_def)
    show "queued_for (out_key new) payload ?row"
      using old payload new(2) by (simp add: queued_for_def requeue_def same_key_def)
  qed (use row latest rest in simp_all)
next
  case False
  then have absent: "\<not> same_key new r" if "r \<in> set (outbox d)" for r using that by (auto simp: list_ex_iff)
  let ?d = "d\<lparr>outbox := outbox d @ [new]\<rparr>"
  have "latest_row (filter (\<lambda>r. out_subject r = registration_subject) (outbox d @ [new])) = Some new"
    using older new(2) by (intro latest_row_greatest) auto
  then have latest: "latest_registration ?d = Some (out_key new)" by (simp add: latest_registration_def)
  show thesis
  proof (rule that)
    show "upsert_outbox new d = Inr ((), ?d)" using False new(1) by (auto simp: upsert_outbox_def)
    show "queued_for (out_key new) payload new" using new payload by (simp add: queued_for_def)
    show "filter (\<lambda>r. \<not> same_key new r) (outbox ?d) = filter (\<lambda>r. \<not> same_key new r) (outbox d)"
      by (simp add: same_key_def)
  qed (use latest in simp_all)
qed

lemma registration_unchanged:
  assumes "registration x s = Inr payload" and "latest_registration d = Some (registration_key x s)"
  shows "enqueue_schedule_registration x now fresh (Some s) (healthy d) = (Inr Unchanged, healthy d)"
  using assms by (simp add: enqueue_schedule_registration_def run_transaction registration_body_def)

text \<open>
  C39: registering the schedule converges. When the registration queued last is for another
  configuration, the call queues the command anew, in place of an older one of the same
  configuration, unpublished and with no attempts, and leaves every other row; after that, registering
  the same configuration again answers that nothing changed and changes nothing.
\<close>

theorem registration_converges:
  assumes valid: "registration x s = Inr payload"
    and changed: "latest_registration d \<noteq> Some (registration_key x s)"
    and new: "fresh \<notin> out_id ` set (outbox d)"
    and unique: "unique_by (\<lambda>r. (out_subject r, out_key r)) (outbox d)"
    and older: "\<And>r. r \<in> set (outbox d) \<Longrightarrow> out_subject r = registration_subject \<Longrightarrow> out_created r < now"
  shows "\<exists>d' row. enqueue_schedule_registration x now fresh (Some s) (healthy d) = (Inr Enqueued, healthy d')
     \<and> d' = d\<lparr>outbox := outbox d'\<rparr> \<and> row \<in> set (outbox d') \<and> queued_for (registration_key x s) payload row
     \<and> filter (\<lambda>r. out_subject r \<noteq> registration_subject \<or> out_key r \<noteq> registration_key x s) (outbox d')
         = filter (\<lambda>r. out_subject r \<noteq> registration_subject \<or> out_key r \<noteq> registration_key x s) (outbox d)
     \<and> enqueue_schedule_registration x now' fresh' (Some s) (healthy d') = (Inr Unchanged, healthy d')"
proof -
  let ?new = "queued_registration now fresh (registration_key x s) (sched_owner s) payload"
  obtain d' row where run: "upsert_outbox ?new d = Inr ((), d')" and frame: "d' = d\<lparr>outbox := outbox d'\<rparr>"
    and row: "queued_for (out_key ?new) payload row" "row \<in> set (outbox d')"
    and latest: "latest_registration d' = Some (out_key ?new)"
    and rest: "filter (\<lambda>r. \<not> same_key ?new r) (outbox d') = filter (\<lambda>r. \<not> same_key ?new r) (outbox d)"
    by (rule upserted [of ?new d payload])
      (use new unique older in \<open>simp_all add: queued_registration_def\<close>)
  have "enqueue_schedule_registration x now fresh (Some s) (healthy d) = (Inr Enqueued, healthy d')"
    using valid changed run
    by (simp add: enqueue_schedule_registration_def run_transaction registration_body_def)
  moreover have "enqueue_schedule_registration x now' fresh' (Some s) (healthy d') = (Inr Unchanged, healthy d')"
    using valid latest by (intro registration_unchanged) (simp_all add: queued_registration_def)
  ultimately show ?thesis
    using frame row rest
    by (intro exI [of _ d'] exI [of _ row]) (simp add: queued_registration_def same_key_def)
qed

definition demo_schedule :: schedule_config where
  "demo_schedule = \<lparr>sched_owner = 1, sched_cron = ''0 6 * * *'', sched_enabled = True, sched_language = En\<rparr>"

theorem registration_converges_witness:
  "\<exists>d'. enqueue_schedule_registration demo 10 220 (Some demo_schedule) (healthy empty_db) = (Inr Enqueued, healthy d')
     \<and> enqueue_schedule_registration demo 11 221 (Some demo_schedule) (healthy d') = (Inr Unchanged, healthy d')"
proof -
  have "registration demo demo_schedule = Inr \<lparr>reg_service = service_name, reg_name = schedule_name,
      reg_owner = 1, reg_cron = ''0 6 * * *'', reg_operation_kind = operation_kind, reg_enabled = True\<rparr>"
    by (simp add: registration_def demo_def demo_schedule_def)
  from registration_converges [OF this, of empty_db 220 10 11 221] show ?thesis
    by (auto simp: latest_registration_def empty_db_def)
qed

end
