(* ===== verification/Drains.thy ===== *)
theory Drains
  imports Scenario
begin

text \<open>
  The batches: what one tick of the deadline reaper and one retention sweep do over a healthy
  connection, and how many ticks empty a backlog.
\<close>

section \<open>The deadline reaper\<close>

definition overdue_backlog :: "instant \<Rightarrow> uuid set \<Rightarrow> db \<Rightarrow> nat" where
  "overdue_backlog cutoff locked d = count_where (\<lambda>r. overdue cutoff r \<and> run_id r \<notin> locked) (runs d)"

definition deadline_row :: "uuid \<Rightarrow> uuid \<Rightarrow> report_row" where
  "deadline_row owner operation =
     \<lparr>rr_operation = operation, rr_owner = owner, rr_causation = None,
      rr_report = \<lparr>rep_operation = operation, rep_status = Op_Failed, rep_stage = Some ''deadline'',
        rep_results = [], rep_error = Some (''channel_digest.run_deadline_exceeded'',
          ''The digest did not finish before its deadline.'', True), rep_warnings = []\<rparr>\<rparr>"

text \<open>The words of the report satisfy their contract.\<close>

definition deadline_words :: "externals \<Rightarrow> bool" where
  "deadline_words x \<longleftrightarrow>
     stage_parses x ''deadline'' \<and> code_parses x ''channel_digest.run_deadline_exceeded''
     \<and> message_parses x ''The digest did not finish before its deadline.''
     \<and> (\<forall>owner operation. valid_report x (rr_report (deadline_row owner operation)))"

lemma deadline_report_built: "deadline_words x \<Longrightarrow> deadline_report x owner operation = Inr (deadline_row owner operation)"
  by (simp add: deadline_words_def deadline_report_def new_report_def with_error_def deadline_row_def)

lemma reports_of_reaped:
  assumes words: "deadline_words x"
  shows "distinct (map fst is) \<Longrightarrow> fst ` set is \<inter> out_id ` set (outbox d) = {} \<Longrightarrow>
    \<exists>new. for_each (report_reaped x now) is (healthy d) = (Inr (), healthy (d\<lparr>outbox := outbox d @ new\<rparr>))
      \<and> set new \<subseteq> {queued_report now f (deadline_row owner operation) | f owner operation.
          (f, owner, operation, On_Demand) \<in> set is}
      \<and> (\<forall>(f, owner, operation, trigger) \<in> set is. trigger = On_Demand
          \<longrightarrow> outbox_conflict report_subject (report_key operation Op_Failed) (d\<lparr>outbox := outbox d @ new\<rparr>))"
proof (induction "is" arbitrary: d)
  case Nil
  show ?case by (intro exI [of _ "[]"]) simp
next
  case (Cons i "is")
  obtain f owner operation trigger where i: "i = (f, owner, operation, trigger)" by (cases i)
  let ?q = "queued_report now f (deadline_row owner operation)"
  define head where "head = (if trigger = On_Demand
    \<and> \<not> outbox_conflict report_subject (report_key operation Op_Failed) d then [?q] else [])"
  let ?d = "d\<lparr>outbox := outbox d @ head\<rparr>"
  have q: "out_id ?q = f" "out_subject ?q = report_subject" "out_key ?q = report_key operation Op_Failed"
    by (simp_all add: queued_report_def deadline_row_def)
  have "f \<notin> out_id ` set (outbox d)" using Cons.prems(2) i by auto
  then have step: "report_reaped x now i (healthy d) = (Inr (), healthy ?d)"
    using words
    by (simp add: i report_reaped_def deadline_report_built enqueue_def insert_outbox_once_def q head_def
        deadline_words_def)
  have told: "trigger = On_Demand \<Longrightarrow> outbox_conflict report_subject (report_key operation Op_Failed) ?d"
    using q by (auto simp: head_def outbox_conflict_def)
  have "fst ` set is \<inter> out_id ` set (outbox ?d) = {}"
    using Cons.prems i q by (force simp: head_def)
  with Cons.IH [of ?d] Cons.prems(1) obtain new where
    rest: "for_each (report_reaped x now) is (healthy ?d) = (Inr (), healthy (?d\<lparr>outbox := outbox ?d @ new\<rparr>))"
    and new: "set new \<subseteq> {queued_report now f (deadline_row owner operation) | f owner operation.
          (f, owner, operation, On_Demand) \<in> set is}"
    and all: "\<forall>(f, owner, operation, trigger) \<in> set is. trigger = On_Demand
          \<longrightarrow> outbox_conflict report_subject (report_key operation Op_Failed) (?d\<lparr>outbox := outbox ?d @ new\<rparr>)"
    by auto
  show ?case
  proof (intro exI [of _ "head @ new"] conjI)
    show "for_each (report_reaped x now) (i # is) (healthy d) = (Inr (), healthy (d\<lparr>outbox := outbox d @ head @ new\<rparr>))"
      using step rest by simp
    show "set (head @ new) \<subseteq> {queued_report now f (deadline_row owner operation) | f owner operation.
          (f, owner, operation, On_Demand) \<in> set (i # is)}"
    proof
      fix q assume "q \<in> set (head @ new)"
      then consider "q \<in> set head" | "q \<in> set new" by auto
      then show "q \<in> {queued_report now f (deadline_row owner operation) | f owner operation.
          (f, owner, operation, On_Demand) \<in> set (i # is)}"
      proof cases
        case 1
        then show ?thesis by (auto simp: head_def i split: if_splits)
      next
        case 2
        from subsetD [OF new this] show ?thesis by fastforce
      qed
    qed
    show "\<forall>(f, owner, operation, trigger) \<in> set (i # is). trigger = On_Demand
          \<longrightarrow> outbox_conflict report_subject (report_key operation Op_Failed) (d\<lparr>outbox := outbox d @ head @ new\<rparr>)"
      using all told by (auto simp: i outbox_conflict_def)
  qed
qed

text \<open>
  C25: one tick of the reaper fails up to a hundred runs that nothing moved since the deadline, the ones
  that waited longest first, and answers how many; each becomes failed with the deadline class, every
  on-demand one has its failed report in the outbox afterwards, nothing else changes, and the backlog
  shrinks by a hundred until it is empty.
\<close>

theorem reaper_drains:
  assumes clock: "pg_parse x (jiff_text x tick) = Some tick" and words: "deadline_words x"
    and unique: "unique_by run_id (runs d)"
    and ids: "inj_on fresh {0..<100}" "fresh ` {0..<100} \<inter> out_id ` set (outbox d) = {}"
  shows "\<exists>taken new d'. reap_once x deadline now locked fresh tick (healthy d)
       = (Inr (min 100 (overdue_backlog (tick - deadline) locked d)), healthy d')
     \<and> d' = d\<lparr>runs := update_where taken (deadline_failed now) (runs d), outbox := outbox d @ new\<rparr>
     \<and> overdue_backlog (tick - deadline) locked d' = overdue_backlog (tick - deadline) locked d - 100
     \<and> set new \<subseteq> {queued_report now f (deadline_row owner operation) | f owner operation. True}
     \<and> (\<forall>r \<in> set (runs d). taken r \<longrightarrow> overdue (tick - deadline) r \<and> run_id r \<notin> locked
         \<and> (run_trigger r = On_Demand
              \<longrightarrow> outbox_conflict report_subject (report_key (run_operation r) Op_Failed) d'))
     \<and> (\<forall>r \<in> set (runs d). \<forall>s \<in> set (runs d). taken r \<longrightarrow> \<not> taken s \<longrightarrow> overdue (tick - deadline) s
         \<longrightarrow> run_id s \<notin> locked \<longrightarrow> run_updated r \<le> run_updated s)"
proof -
  let ?cutoff = "tick - deadline"
  let ?p = "\<lambda>r. overdue ?cutoff r \<and> run_id r \<notin> locked"
  let ?batch = "reap_batch ?cutoff locked d"
  define taken where "taken = named run_id ?batch"
  let ?reaped = "map (\<lambda>r. (run_owner r, run_operation r, run_trigger r)) (filter taken (runs d))"
  let ?is = "zip (map fresh [0..<length ?reaped]) ?reaped"
  let ?d1 = "d\<lparr>runs := update_where taken (deadline_failed now) (runs d)\<rparr>"
  have in_batch: "taken r \<longleftrightarrow> r \<in> set ?batch" if "r \<in> set (runs d)" for r
    unfolding taken_def by (rule named_iff [OF unique _ that]) (use set_reap_batch in blast)
  have count: "length ?reaped = min 100 (overdue_backlog ?cutoff locked d)"
    using count_batch [OF unique, of "\<lambda>r. (run_updated r, run_id r)" reap_limit ?p]
    by (simp add: taken_def reap_batch_def overdue_backlog_def count_where_def reap_limit_def)
  have sub: "{0..<length ?reaped} \<subseteq> {0..<100}" using count by auto
  have "distinct (map fst ?is)"
    using inj_on_subset [OF ids(1) sub] by (simp add: distinct_map)
  moreover have "fst ` set ?is \<inter> out_id ` set (outbox ?d1) = {}"
    using ids(2) sub by (fastforce dest!: set_zip_leftD)
  ultimately obtain new where
    told: "for_each (report_reaped x now) ?is (healthy ?d1) = (Inr (), healthy (?d1\<lparr>outbox := outbox ?d1 @ new\<rparr>))"
    and reports: "set new \<subseteq> {queued_report now f (deadline_row owner operation) | f owner operation.
          (f, owner, operation, On_Demand) \<in> set ?is}"
    and all: "\<forall>(f, owner, operation, trigger) \<in> set ?is. trigger = On_Demand
          \<longrightarrow> outbox_conflict report_subject (report_key operation Op_Failed) (?d1\<lparr>outbox := outbox ?d1 @ new\<rparr>)"
    using reports_of_reaped [OF words, of ?is ?d1 now] by blast
  let ?d' = "d\<lparr>runs := update_where taken (deadline_failed now) (runs d), outbox := outbox d @ new\<rparr>"
  have run: "reap_once x deadline now locked fresh tick (healthy d)
       = (Inr (min 100 (overdue_backlog ?cutoff locked d)), healthy ?d')"
  proof -
    have "reap now ?cutoff locked d = Inr (?reaped, ?d1)" by (simp add: reap_def taken_def Let_def)
    with told count show ?thesis
      by (simp add: reap_once_def reap_body_def run_transaction clock)
  qed
  have drained: "overdue_backlog ?cutoff locked ?d' = overdue_backlog ?cutoff locked d - 100"
    using backlog_after_batch [OF unique, of ?p "deadline_failed now" "\<lambda>r. (run_updated r, run_id r)" reap_limit]
    by (simp add: overdue_backlog_def taken_def reap_batch_def overdue_def deadline_failed_def reap_limit_def)
  have reported: "outbox_conflict report_subject (report_key (run_operation r) Op_Failed) ?d'"
    if r: "r \<in> set (runs d)" "taken r" "run_trigger r = On_Demand" for r
  proof -
    from r have "(run_owner r, run_operation r, run_trigger r) \<in> set ?reaped" by auto
    from taken_in_zip [OF this, of fresh] obtain f where "(f, run_owner r, run_operation r, run_trigger r) \<in> set ?is" ..
    with all r(3) show ?thesis by fastforce
  qed
  have due: "overdue ?cutoff r \<and> run_id r \<notin> locked" if "r \<in> set (runs d)" "taken r" for r
    using that in_batch set_reap_batch [of ?cutoff locked d] by blast
  have oldest: "run_updated r \<le> run_updated s"
    if "r \<in> set (runs d)" "s \<in> set (runs d)" "taken r" "\<not> taken s" "overdue ?cutoff s" "run_id s \<notin> locked" for r s
  proof -
    have "(run_updated r, run_id r) \<le> (run_updated s, run_id s)"
      using that in_batch oldest_first [of r "\<lambda>r. (run_updated r, run_id r)" reap_limit ?p "runs d" s]
      by (simp add: reap_batch_def)
    then show ?thesis by (auto simp: less_eq_prod_def)
  qed
  show ?thesis
    by (rule exI [of _ taken], rule exI [of _ new], rule exI [of _ ?d'])
      (use run drained reports reported due oldest in \<open>intro conjI refl ballI impI; blast\<close>)
qed

theorem reaper_drains_witness:
  "\<exists>d'. reap_once demo 50 1000 {} (\<lambda>i. of_nat (i + 500)) 1000 (healthy demo_accepted) = (Inr 1, healthy d')
     \<and> overdue_backlog 950 {} d' = 0"
proof -
  have id: "unat (of_nat (i + 500) :: uuid) = i + 500" if "i \<in> {0..<100}" for i
    using that by (simp add: unat_of_nat take_bit_nat_eq_self less_trans [of _ 1000] del: of_nat_add)
  have ids: "inj_on (\<lambda>i. of_nat (i + 500) :: uuid) {0..<100}"
    by (rule inj_onI) (metis id add_right_cancel)
  have "out_id demo_queued = 200" by (simp add: demo_queued_def queued_report_def)
  moreover have "of_nat (i + 500) \<noteq> (200 :: uuid)" if "i \<in> {0..<100}" for i
  proof
    assume "of_nat (i + 500) = (200 :: uuid)"
    with id [OF that] have "unat (200 :: uuid) = i + 500" by (simp only:)
    then show False by simp
  qed
  ultimately have "(\<lambda>i. of_nat (i + 500) :: uuid) ` {0..<100} \<inter> out_id ` set (outbox demo_accepted) = {}"
    by (auto simp: demo_accepted_rows simp del: of_nat_add)
  moreover have "overdue_backlog 950 {} demo_accepted = 1"
    by (simp add: overdue_backlog_def demo_accepted_rows demo_run_row_def overdue_def count_where_def)
  moreover have "deadline_words demo" by (simp add: deadline_words_def)
  moreover have "unique_by run_id (runs demo_accepted)" by (simp add: demo_accepted_rows)
  ultimately show ?thesis
    using reaper_drains [of demo 1000 demo_accepted "\<lambda>i. of_nat (i + 500)" 50 1000 "{}"] ids
    by (auto simp del: of_nat_add)
qed

section \<open>Retention\<close>

definition body_backlog :: "instant \<Rightarrow> uuid set \<Rightarrow> db \<Rightarrow> nat" where
  "body_backlog before locked d =
     count_where (\<lambda>r. expired_body before r \<and> rev_id r \<notin> locked) (revisions d)"

text \<open>The manifest of a settled run whose window began before the cutoff.\<close>

definition expired_text :: "instant \<Rightarrow> uuid set \<Rightarrow> db \<Rightarrow> manifest_row \<Rightarrow> bool" where
  "expired_text before locked d m \<longleftrightarrow>
     man_text m \<noteq> None \<and> man_id m \<notin> locked
     \<and> list_ex (\<lambda>r. run_id r = man_run m \<and> terminal (run_state r) \<and> run_start r < before) (runs d)"

definition text_backlog :: "instant \<Rightarrow> uuid set \<Rightarrow> db \<Rightarrow> nat" where
  "text_backlog before locked d = count_where (expired_text before locked d) (manifests d)"

lemma bodies_drained:
  assumes unique: "unique_by rev_id (revisions d)"
  obtains d' where "minimize_bodies now before limit locked d = Inr (min limit (body_backlog before locked d), d')"
    and "body_backlog before locked d' = body_backlog before locked d - limit"
    and "d' = d\<lparr>revisions := revisions d'\<rparr>" and "map provenance (revisions d') = map provenance (revisions d)"
proof -
  let ?k = "\<lambda>r. (rev_published r, rev_id r)"
  let ?p = "\<lambda>r. expired_body before r \<and> rev_id r \<notin> locked"
  let ?taken = "named rev_id (body_batch before limit locked d)"
  let ?d' = "d\<lparr>revisions := update_where ?taken (minimized_revision now) (revisions d)\<rparr>"
  show thesis
  proof (rule that)
    show "minimize_bodies now before limit locked d = Inr (min limit (body_backlog before locked d), ?d')"
      using count_batch [OF unique, of ?k limit ?p]
      by (simp add: minimize_bodies_def body_batch_def body_backlog_def Let_def)
    show "body_backlog before locked ?d' = body_backlog before locked d - limit"
      using backlog_after_batch [OF unique, of ?p "minimized_revision now" ?k limit]
      by (simp add: body_batch_def body_backlog_def expired_body_def minimized_revision_def)
    show "map provenance (revisions ?d') = map provenance (revisions d)"
      by (simp add: map_update_where provenance_def minimized_revision_def)
  qed simp
qed

text \<open>A manifest has one run, so the pairs of the join are the manifests.\<close>

lemma expired_pairs:
  fixes d :: db and before :: instant and locked :: "uuid set"
  defines "P \<equiv> \<lambda>rm. expired_manifest before rm \<and> man_id (snd rm) \<notin> locked"
  assumes unique: "unique_by run_id (runs d)" "unique_by man_id (manifests d)"
  shows "distinct (map snd (filter P (List.product (runs d) (manifests d))))"
    and "set (map snd (filter P (List.product (runs d) (manifests d))))
      = set (filter (expired_text before locked d) (manifests d))"
    and "count_where P (List.product (runs d) (manifests d)) = text_backlog before locked d"
proof -
  let ?rows = "List.product (runs d) (manifests d)"
  show set: "set (map snd (filter P ?rows)) = set (filter (expired_text before locked d) (manifests d))"
    by (force simp: P_def expired_manifest_def expired_text_def list_ex_iff)
  have "inj_on snd (set (filter P ?rows))"
    using unique_byD [OF unique(1)] by (auto simp: inj_on_def P_def expired_manifest_def)
  moreover have "distinct ?rows"
    using unique by (simp add: distinct_product unique_by_distinct)
  ultimately show dist: "distinct (map snd (filter P ?rows))" by (simp add: distinct_map)
  have "distinct (filter (expired_text before locked d) (manifests d))"
    using unique(2) by (simp add: unique_by_distinct)
  with dist set have "length (map snd (filter P ?rows)) = length (filter (expired_text before locked d) (manifests d))"
    by (metis distinct_card)
  then show "count_where P ?rows = text_backlog before locked d"
    by (simp add: count_where_def text_backlog_def)
qed

lemma texts_drained:
  assumes unique: "unique_by run_id (runs d)" "unique_by man_id (manifests d)"
  obtains d' where "minimize_manifests now before limit locked d = Inr (min limit (text_backlog before locked d), d')"
    and "text_backlog before locked d' = text_backlog before locked d - limit"
    and "d' = d\<lparr>manifests := manifests d'\<rparr>"
    and "map manifest_evidence (manifests d') = map manifest_evidence (manifests d)"
proof -
  let ?P = "\<lambda>rm. expired_manifest before rm \<and> man_id (snd rm) \<notin> locked"
  let ?k = "\<lambda>(r, m). (run_start r, man_id m)"
  let ?rows = "List.product (runs d) (manifests d)"
  let ?texts = "map snd (manifest_batch before limit locked d)"
  let ?d' = "d\<lparr>manifests := update_where (named man_id ?texts) (minimized_manifest now) (manifests d)\<rparr>"
  have "oldest ?k limit ?P (filter ?P ?rows) = manifest_batch before limit locked d"
    by (simp add: oldest_def manifest_batch_def)
  then have "distinct ?texts"
    using distinct_oldest [OF expired_pairs(1) [OF unique, of before locked], of ?k limit ?P] by simp
  moreover have texts: "set ?texts \<subseteq> set (filter (expired_text before locked d) (manifests d))"
  proof -
    have "set (manifest_batch before limit locked d) \<subseteq> set (filter ?P ?rows)"
      by (auto simp: manifest_batch_def dest!: in_oldestD)
    then show ?thesis
      unfolding expired_pairs(2) [OF unique, of before locked, symmetric] by auto
  qed
  ultimately have count: "count_where (named man_id ?texts) (manifests d) = min limit (text_backlog before locked d)"
    using expired_pairs(3) [OF unique, of before locked]
    by (subst count_named [OF unique(2)]) (auto simp: manifest_batch_def)
  have "count_where (expired_text before locked d)
        (update_where (named man_id ?texts) (minimized_manifest now) (manifests d)) + count_where (named man_id ?texts) (manifests d)
      = count_where (expired_text before locked d) (manifests d)"
  proof (rule count_after)
    fix m assume "m \<in> set (manifests d)" and "named man_id ?texts m"
    with named_iff [OF unique(2), of ?texts m] texts show "expired_text before locked d m" by auto
  qed (simp add: expired_text_def minimized_manifest_def)
  moreover have "text_backlog before locked ?d' = count_where (expired_text before locked d) (manifests ?d')"
  proof -
    have "expired_text before locked ?d' = expired_text before locked d" by (simp add: expired_text_def [abs_def])
    then show ?thesis by (simp add: text_backlog_def)
  qed
  ultimately have left: "text_backlog before locked ?d' = text_backlog before locked d - limit"
    using count by (simp add: text_backlog_def)
  show thesis
  proof (rule that)
    show "minimize_manifests now before limit locked d = Inr (min limit (text_backlog before locked d), ?d')"
      using count by (simp add: minimize_manifests_def Let_def)
    show "map manifest_evidence (manifests ?d') = map manifest_evidence (manifests d)"
      by (simp add: map_update_where manifest_evidence_def minimized_manifest_def)
  qed (use left in simp_all)
qed

text \<open>
  One retention sweep drops the body of up to five thousand posts published before the cutoff and the
  text of up to five thousand manifests of settled runs whose window began before it, and nothing else:
  every revision keeps its identity, digest, times and link and every manifest its digest and counts.
  Both backlogs shrink by the batch, the answer says by how much, and the counters grow by it modulo 2^64.
\<close>

theorem sweep_drains:
  assumes clock: "sweep_cutoff x body_days tick = Some cutoff" "pg_parse x (jiff_text x cutoff) = Some cutoff"
    and unique: "unique_by rev_id (revisions d)" "unique_by run_id (runs d)" "unique_by man_id (manifests d)"
  shows "\<exists>d'. sweep_once x sm body_days tick ct (healthy d)
       = ((Inr (min 5000 (body_backlog cutoff (sm_bodies_locked sm) d),
                min 5000 (text_backlog cutoff (sm_manifests_locked sm) d)),
           \<lparr>ct_bodies = ct_bodies ct + of_nat (min 5000 (body_backlog cutoff (sm_bodies_locked sm) d)),
            ct_manifests = ct_manifests ct + of_nat (min 5000 (text_backlog cutoff (sm_manifests_locked sm) d))\<rparr>),
          healthy d')
     \<and> body_backlog cutoff (sm_bodies_locked sm) d' = body_backlog cutoff (sm_bodies_locked sm) d - 5000
     \<and> text_backlog cutoff (sm_manifests_locked sm) d' = text_backlog cutoff (sm_manifests_locked sm) d - 5000
     \<and> d' = d\<lparr>revisions := revisions d', manifests := manifests d'\<rparr>
     \<and> map provenance (revisions d') = map provenance (revisions d)
     \<and> map manifest_evidence (manifests d') = map manifest_evidence (manifests d)"
proof -
  obtain d1 where bodies: "minimize_bodies (sm_bodies_at sm) cutoff 5000 (sm_bodies_locked sm) d
      = Inr (min 5000 (body_backlog cutoff (sm_bodies_locked sm) d), d1)"
    and left1: "body_backlog cutoff (sm_bodies_locked sm) d1 = body_backlog cutoff (sm_bodies_locked sm) d - 5000"
    and d1: "d1 = d\<lparr>revisions := revisions d1\<rparr>" and kept1: "map provenance (revisions d1) = map provenance (revisions d)"
    by (rule bodies_drained [OF unique(1)])
  have same: "runs d1 = runs d" "manifests d1 = manifests d" by (subst d1, simp)+
  then have "unique_by run_id (runs d1)" and "unique_by man_id (manifests d1)" using unique by simp_all
  then obtain d2 where texts: "minimize_manifests (sm_manifests_at sm) cutoff 5000 (sm_manifests_locked sm) d1
      = Inr (min 5000 (text_backlog cutoff (sm_manifests_locked sm) d1), d2)"
    and left2: "text_backlog cutoff (sm_manifests_locked sm) d2 = text_backlog cutoff (sm_manifests_locked sm) d1 - 5000"
    and d2: "d2 = d1\<lparr>manifests := manifests d2\<rparr>"
    and kept2: "map manifest_evidence (manifests d2) = map manifest_evidence (manifests d1)"
    by (rule texts_drained)
  have backlog: "text_backlog cutoff (sm_manifests_locked sm) d1 = text_backlog cutoff (sm_manifests_locked sm) d"
    using same by (simp add: text_backlog_def expired_text_def [abs_def])
  have revs: "revisions d2 = revisions d1" by (subst d2) simp
  have run: "sweep_once x sm body_days tick ct (healthy d)
       = ((Inr (min 5000 (body_backlog cutoff (sm_bodies_locked sm) d),
                min 5000 (text_backlog cutoff (sm_manifests_locked sm) d)),
           \<lparr>ct_bodies = ct_bodies ct + of_nat (min 5000 (body_backlog cutoff (sm_bodies_locked sm) d)),
            ct_manifests = ct_manifests ct + of_nat (min 5000 (text_backlog cutoff (sm_manifests_locked sm) d))\<rparr>),
          healthy d2)"
    using bodies texts
    by (simp add: sweep_once_def clock minimize_before_def minimize_manifests_before_def sweep_batch_def
        backlog add_bodies_def add_manifests_def)
  have "d2 = d\<lparr>revisions := revisions d2, manifests := manifests d2\<rparr>"
    using d1 d2 revs by (metis db.surjective db.update_convs(3,5))
  with run left1 left2 kept1 kept2 revs backlog same show ?thesis
    by (intro exI [of _ d2]) (simp add: body_backlog_def)
qed

definition demo_old :: db where
  "demo_old = empty_db\<lparr>revisions := [\<lparr>rev_id = 60, rev_channel = 91, rev_message = 9,
       rev_sha256 = demo_sha256 ''post'', rev_body = Some ''post'', rev_published = 150,
       rev_observed = 200, rev_link = ''link'', rev_deleted = None, rev_minimized = None\<rparr>],
     runs := [demo_failed_row],
     manifests := [\<lparr>man_id = 30, man_run = 5, man_owner = 7, man_sha256 = demo_sha256 ''manifest'',
       man_sources = 1, man_channels = 1, man_text = Some ''manifest'', man_minimized = None\<rparr>]\<rparr>"

theorem sweep_drains_witness:
  "\<exists>d'. sweep_once demo \<lparr>sm_bodies_at = 900, sm_bodies_locked = {}, sm_manifests_at = 901,
        sm_manifests_locked = {}\<rparr> 1 (seconds 86400 + 500) \<lparr>ct_bodies = - 1, ct_manifests = 2\<rparr> (healthy demo_old)
     = ((Inr (1, 1), \<lparr>ct_bodies = 0, ct_manifests = 3\<rparr>), healthy d') \<and> body_backlog 500 {} d' = 0"
proof -
  have "body_backlog 500 {} demo_old = 1" and "text_backlog 500 {} demo_old = 1"
    by (simp_all add: body_backlog_def text_backlog_def demo_old_def count_where_def expired_body_def
        expired_text_def demo_failed_row_def demo_run_row_def)
  moreover have "sweep_cutoff demo 1 (seconds 86400 + 500) = Some 500" by (simp add: sweep_cutoff_def)
  moreover have "unique_by rev_id (revisions demo_old)" "unique_by run_id (runs demo_old)"
    "unique_by man_id (manifests demo_old)"
    by (simp_all add: demo_old_def)
  ultimately show ?thesis
    using sweep_drains [of demo 1 "seconds 86400 + 500" 500 demo_old "\<lparr>sm_bodies_at = 900, sm_bodies_locked = {},
        sm_manifests_at = 901, sm_manifests_locked = {}\<rparr>" "\<lparr>ct_bodies = - 1, ct_manifests = 2\<rparr>"]
    by (auto simp del: int_parse.simps)
qed

end
