(* ===== verification/Selection.thy ===== *)
theory Selection
  imports Scenario
begin

text \<open>
  Which run a tick takes up, which posts it selects, and how the run is handed over.
\<close>

section \<open>The run taken up\<close>

text \<open>
  A tick takes up the oldest run that is accepted or acquiring and not held back by a flood wait of
  one of its channels, and finds none exactly when there is no such run.
\<close>

theorem oldest_pending_taken:
  "case next_pending now d of
     None \<Rightarrow> \<not> list_ex (pending now d) (runs d)
   | Some r \<Rightarrow> r \<in> set (runs d) \<and> run_state r \<in> {Accepted, Acquiring}
       \<and> \<not> list_ex (flood_waiting now (run_id r)) (leases d)
       \<and> list_all (\<lambda>s. \<not> pending now d s \<or> (run_created r, run_id r) \<le> (run_created s, run_id s)) (runs d)"
proof -
  let ?k = "\<lambda>r. (run_created r, run_id r)"
  let ?batch = "oldest ?k 1 (pending now d) (runs d)"
  show ?thesis
  proof (cases ?batch)
    case Nil
    have "length ?batch = min 1 (count_where (pending now d) (runs d))" by (rule length_oldest)
    with Nil have "count_where (pending now d) (runs d) = 0" by simp
    with Nil show ?thesis by (simp add: next_pending_def count_where_0 list_ex_iff)
  next
    case (Cons r rest)
    have "length ?batch \<le> 1" unfolding length_oldest by simp
    with Cons have batch: "?batch = [r]" by simp
    then have "r \<in> set (runs d) \<and> pending now d r" by (intro in_oldestD [of r ?k 1]) simp
    moreover have "?k r \<le> ?k s" if "s \<in> set (runs d)" "pending now d s" for s
    proof (cases "s = r")
      case False
      with oldest_first [of r ?k 1 "pending now d" "runs d" s] that batch show ?thesis by simp
    qed simp
    ultimately show ?thesis
      using Cons by (simp add: next_pending_def list_all_iff) (auto simp: pending_def)
  qed
qed

definition demo_queue :: db where
  "demo_queue = empty_db\<lparr>runs := [demo_run_row\<lparr>run_id := 6, run_created := 299\<rparr>, demo_run_row],
     leases := [\<lparr>lease_kind = ''acquisition:91'', lease_resource = 6, lease_holder = 40, lease_acquired = 880,
       lease_expires = 910, lease_before = None, lease_pages = 0, lease_revisions = 0,
       lease_state = Some ''flood_wait''\<rparr>]\<rparr>"

theorem oldest_pending_taken_witness: "next_pending 900 demo_queue = Some demo_run_row"
proof -
  have prefix: "take 12 ''acquisition:91'' = ''acquisition:''" by code_simp
  have "pending 900 demo_queue demo_run_row"
    by (simp add: pending_def demo_queue_def demo_run_row_def flood_waiting_def)
  moreover have "r = demo_run_row" if "r \<in> set (runs demo_queue)"
    "\<not> list_ex (flood_waiting 900 (run_id r)) (leases demo_queue)" for r
    using that prefix by (auto simp: demo_queue_def flood_waiting_def demo_run_row_def)
  moreover have "demo_run_row \<in> set (runs demo_queue)" by (simp add: demo_queue_def)
  ultimately show ?thesis
    using oldest_pending_taken [of 900 demo_queue] by (auto simp: list_ex_iff split: option.splits)
qed

section \<open>The posts selected\<close>

text \<open>
  A post that may enter the digest of an owner: of the window and of a channel that the owner has on,
  not withdrawn and not minimized, and the one observed last among such revisions of its message.
\<close>

definition eligible :: "uuid \<Rightarrow> instant \<Rightarrow> instant \<Rightarrow> db \<Rightarrow> revision \<Rightarrow> bool" where
  "eligible owner start end d r \<longleftrightarrow>
     r \<in> set (window_revisions owner start end d) \<and> live r \<and> rev_channel r \<in> ch_id ` set (channels d)
     \<and> (\<forall>s \<in> set (window_revisions owner start end d). live s \<longrightarrow> message_of s = message_of r
          \<longrightarrow> (rev_observed s, rev_id s) \<le> (rev_observed r, rev_id r))"

lemma eligible_found:
  "fst ` set (with_channel d (latest_live (window_revisions owner start end d))) = {r. eligible owner start end d r}"
proof -
  have "fst ` set (with_channel d rows) = {r \<in> set rows. rev_channel r \<in> ch_id ` set (channels d)}" for rows
    by (auto simp: with_channel_def image_iff) (metis fst_conv)+
  then show ?thesis by (auto simp: latest_live_def eligible_def list_ex_iff not_less)
qed

lemma eligible_message:
  assumes "unique_by rev_id (revisions d)" and "eligible owner start end d r" and "eligible owner start end d s"
    and "message_of r = message_of s"
  shows "r = s"
proof -
  from assms(2-4) have "(rev_observed r, rev_id r) = (rev_observed s, rev_id s)"
    unfolding eligible_def by (metis order_antisym)
  then have "rev_id r = rev_id s" by simp
  moreover have "r \<in> set (revisions d)" "s \<in> set (revisions d)"
    using assms(2,3) by (auto simp: eligible_def window_revisions_def)
  ultimately show ?thesis using assms(1) by (metis unique_byD)
qed

lemma distinct_found:
  assumes "unique_by rev_id (revisions d)" and "unique_by ch_id (channels d)"
  shows "distinct (map fst (with_channel d (latest_live (window_revisions owner start end d))))"
proof -
  let ?rows = "latest_live (window_revisions owner start end d)"
  have "distinct ?rows"
    using unique_by_distinct [OF assms(1)] by (simp add: latest_live_def window_revisions_def)
  then have "distinct (with_channel d ?rows)"
    using unique_by_distinct [OF assms(2)] by (simp add: with_channel_def distinct_product)
  moreover have "inj_on fst (set (with_channel d ?rows))"
  proof (rule inj_onI, clarify)
    fix r c r' c'
    assume "(r, c) \<in> set (with_channel d ?rows)" "(r', c') \<in> set (with_channel d ?rows)" "fst (r, c) = fst (r', c')"
    then have "r = r'" and "c \<in> set (channels d)" "c' \<in> set (channels d)" "ch_id c = ch_id c'"
      by (simp_all add: with_channel_def)
    with unique_byD [OF assms(2)] show "r = r' \<and> c = c'" by simp
  qed
  ultimately show ?thesis by (simp add: distinct_map)
qed

text \<open>The sources of a selection are eligible revisions.\<close>

lemma selected_eligible:
  assumes "selected_sources x n run d = Inr s" and "src \<in> set (sl_sources s)"
  obtains start "end" r c where "eligible (pn_owner run) start end d r"
    and "src = source_of x (window_revisions (pn_owner run) start end d) (r, c)"
proof -
  obtain start "end" where p: "pg_parse x (pn_start run) = Some start" "pg_parse x (pn_end run) = Some end"
    using assms(1) by (auto simp: selected_sources_def split: option.splits)
  let ?w = "window_revisions (pn_owner run) start end d"
  from assms p obtain r c where "(r, c) \<in> set (with_channel d (latest_live ?w))"
    and "src = source_of x ?w (r, c)"
    by (auto simp: selected_sources_def select_rows_def Let_def dest!: in_set_takeD)
  with that show thesis using eligible_found [of d "pn_owner run" start "end"] by (metis fst_conv image_eqI mem_Collect_eq)
qed

text \<open>
  C23: a digest covers the newest posts of its window. The selection holds at most as many sources as it
  may, oldest first and one per message, each an eligible post with its channel; no eligible post that it
  leaves out is newer than one it takes, and it counts how many there were, so a digest that leaves
  posts out is known to be incomplete.
\<close>

theorem newest_selected:
  assumes parsed: "pg_parse x (pn_start run) = Some start" "pg_parse x (pn_end run) = Some end" and "0 < n"
    and unique: "unique_by rev_id (revisions d)" "unique_by ch_id (channels d)"
  shows "\<exists>rows. selected_sources x n run d = Inr
       \<lparr>sl_sources = map (source_of x (window_revisions (pn_owner run) start end d)) rows,
        sl_eligible = card {r. eligible (pn_owner run) start end d r}\<rparr>
     \<and> length rows = min n (card {r. eligible (pn_owner run) start end d r})
     \<and> fst ` set rows \<subseteq> {r. eligible (pn_owner run) start end d r}
     \<and> (\<forall>(r, c) \<in> set rows. c \<in> set (channels d) \<and> ch_id c = rev_channel r)
     \<and> distinct (map (message_of \<circ> fst) rows)
     \<and> sorted (map (rev_published \<circ> fst) rows)
     \<and> (\<forall>q. eligible (pn_owner run) start end d q \<longrightarrow> q \<notin> fst ` set rows
          \<longrightarrow> (\<forall>(r, c) \<in> set rows. rev_published q \<le> rev_published r))"
proof -
  let ?E = "{r. eligible (pn_owner run) start end d r}"
  let ?found = "with_channel d (latest_live (window_revisions (pn_owner run) start end d))"
  let ?key = "\<lambda>(r, c). newest_first r"
  let ?top = "take n (sort_key ?key ?found)"
  have found: "fst ` set ?found = ?E" by (rule eligible_found)
  have dist: "distinct (map fst ?found)" by (rule distinct_found [OF unique])
  then have card: "card ?E = length ?found"
    using distinct_card [OF dist] by (simp add: found)
  have top: "set ?top \<subseteq> set ?found" using set_take_subset [of n "sort_key ?key ?found"] by simp
  have older: "rev_published (fst q) \<le> rev_published (fst r)" if "?key r \<le> ?key q" for r q :: "revision \<times> channel"
    using that by (auto simp: newest_first_def less_eq_prod_def split: prod.splits)
  show ?thesis
  proof (intro exI [of _ "rev ?top"] conjI)
    have "sort_key ?key ?found = [] \<longleftrightarrow> ?found = []" by (metis length_0_conv length_sort)
    then show "selected_sources x n run d = Inr
       \<lparr>sl_sources = map (source_of x (window_revisions (pn_owner run) start end d)) (rev ?top),
        sl_eligible = card ?E\<rparr>"
      using parsed \<open>0 < n\<close> by (auto simp: selected_sources_def select_rows_def Let_def card)
    show "length (rev ?top) = min n (card ?E)" by (simp add: card min.commute)
    show "fst ` set (rev ?top) \<subseteq> ?E" using top found by auto
    show "\<forall>(r, c) \<in> set (rev ?top). c \<in> set (channels d) \<and> ch_id c = rev_channel r"
      using top by (auto simp: with_channel_def)
    have "mset (map fst (sort_key ?key ?found)) = mset (map fst ?found)" by simp
    from mset_eq_imp_distinct_iff [OF this] dist have "distinct (map fst (sort_key ?key ?found))" by simp
    then have "distinct (map fst ?top)" unfolding take_map [symmetric] by (rule distinct_take)
    moreover have "inj_on message_of (set (map fst ?top))"
    proof (rule inj_on_subset)
      show "inj_on message_of ?E" by (rule inj_onI) (simp add: eligible_message [OF unique(1)])
      show "set (map fst ?top) \<subseteq> ?E" unfolding found [symmetric] set_map using top by (rule image_mono)
    qed
    ultimately have "distinct (map message_of (map fst ?top))" by (simp only: distinct_map)
    then show "distinct (map (message_of \<circ> fst) (rev ?top))" unfolding rev_map [symmetric] by simp
    have "sorted (map ?key ?top)" unfolding take_map [symmetric] by (intro sorted_wrt_take) simp
    then have "sorted_wrt (\<lambda>r q. ?key r \<le> ?key q) ?top" by (simp add: sorted_wrt_map)
    then have "sorted_wrt (\<lambda>r q. rev_published (fst q) \<le> rev_published (fst r)) ?top"
      by (rule sorted_wrt_mono_rel [rotated]) (rule older)
    then show "sorted (map (rev_published \<circ> fst) (rev ?top))"
      by (simp add: sorted_wrt_map sorted_wrt_rev)
    show "\<forall>q. eligible (pn_owner run) start end d q \<longrightarrow> q \<notin> fst ` set (rev ?top)
          \<longrightarrow> (\<forall>(r, c) \<in> set (rev ?top). rev_published q \<le> rev_published r)"
    proof (intro allI impI ballI, clarify)
      fix q r c
      assume "eligible (pn_owner run) start end d q" and out: "q \<notin> fst ` set (rev ?top)" and "(r, c) \<in> set (rev ?top)"
      then have "q \<in> fst ` set ?found" unfolding found by simp
      then obtain p where "p \<in> set ?found" and "q = fst p" by (rule imageE)
      then have "(q, snd p) \<in> set ?found" by simp
      moreover have "(q, snd p) \<notin> set ?top" using out imageI [of "(q, snd p)" "set ?top" fst] by (auto simp only: set_rev fst_conv)
      ultimately obtain c' where "(q, c') \<in> set ?found" and "(q, c') \<notin> set ?top" by blast
      with \<open>(r, c) \<in> set (rev ?top)\<close> have "?key (r, c) \<le> ?key (q, c')"
        using oldest_first [of "(r, c)" ?key n "\<lambda>_. True" ?found "(q, c')"] by (simp add: oldest_def)
      then show "rev_published q \<le> rev_published r" using older [of "(r, c)" "(q, c')"] by simp
    qed
  qed
qed

text \<open>An edited post, a newer post and an older one; two of the three messages fit.\<close>

definition demo_revision :: "uuid \<Rightarrow> int \<Rightarrow> instant \<Rightarrow> instant \<Rightarrow> string \<Rightarrow> revision" where
  "demo_revision i message published observed body =
     \<lparr>rev_id = i, rev_channel = 91, rev_message = message, rev_sha256 = demo_sha256 body, rev_body = Some body,
      rev_published = published, rev_observed = observed, rev_link = ''link'', rev_deleted = None,
      rev_minimized = None\<rparr>"

definition demo_posts :: db where
  "demo_posts = empty_db\<lparr>channels := [\<lparr>ch_id = 91, ch_username = ''rustlang'', ch_display_name = None\<rparr>],
     subscriptions := [\<lparr>sub_id = 90, sub_owner = 7, sub_channel = 91, sub_first_activated = 50,
       sub_enabled = True, sub_updated = 50\<rparr>],
     revisions := [demo_revision 60 9 150 200 ''first'', demo_revision 61 9 150 210 ''edited'',
       demo_revision 62 10 160 200 ''newer'', demo_revision 63 8 140 200 ''older'']\<rparr>"

definition demo_pending :: pending_run where
  "demo_pending = \<lparr>pn_run = 5, pn_owner = 7, pn_start = int_text 100, pn_end = int_text 200, pn_language = En,
     pn_state = Acquiring, pn_operation = 72\<rparr>"

theorem newest_selected_witness:
  "\<exists>s. selected_sources demo 2 demo_pending demo_posts = Inr s \<and> sl_eligible s = 3 \<and> length (sl_sources s) = 2"
proof -
  have window: "window_revisions 7 100 200 demo_posts = revisions demo_posts"
    by (simp add: window_revisions_def demo_posts_def demo_revision_def active_of_def)
  have "with_channel demo_posts (latest_live (revisions demo_posts))
      = map (\<lambda>r. (r, \<lparr>ch_id = 91, ch_username = ''rustlang'', ch_display_name = None\<rparr>))
          [demo_revision 61 9 150 210 ''edited'', demo_revision 62 10 160 200 ''newer'', demo_revision 63 8 140 200 ''older'']"
    by (simp add: with_channel_def latest_live_def demo_posts_def demo_revision_def live_def message_of_def)
  then have "card {r. eligible 7 100 200 demo_posts r} = length
      [demo_revision 61 9 150 210 ''edited'', demo_revision 62 10 160 200 ''newer'', demo_revision 63 8 140 200 ''older'']"
    unfolding eligible_found [symmetric] window by (simp add: demo_revision_def)
  then have three: "card {r. eligible 7 100 200 demo_posts r} = 3" by simp
  have "unique_by rev_id (revisions demo_posts)" "unique_by ch_id (channels demo_posts)"
    by (simp_all add: demo_posts_def demo_revision_def)
  with newest_selected [of demo demo_pending 100 200 2 demo_posts] three show ?thesis
    by (auto simp: demo_pending_def simp del: int_parse.simps)
qed

section \<open>The hand-over\<close>

lemma built_counts:
  assumes "build_manifest k manifest owner run window_start window_end sources = Inr m"
  shows "cn_manifest m = manifest" "cn_owner m = owner" "cn_run m = run" "cn_sha256 m = digest_of k (cn_text m)"
    "cn_sources m = length sources" "cn_channels m = card (ms_channel ` set sources)"
    "length sources \<le> max_sources k" "cn_channels m \<le> max_channels k" "distinct (cn_messages m)"
  using assms
  by (auto simp: build_manifest_Inr source_channels_card source_messages_set collected_forms)

lemma moved_once:
  assumes "unique_by run_id rs" and "r \<in> set rs" and "p r" and "\<And>q. p q \<Longrightarrow> run_id q = run_id r"
  shows "count_where p rs = 1" and "update_where p f rs = update_where (\<lambda>q. run_id q = run_id r) f rs"
proof -
  have "count_where p rs \<le> 1" using assms(1,4) by (rule count_where_key_le_1)
  moreover have "count_where p rs \<noteq> 0" using assms(2,3) by (auto simp: count_where_0)
  ultimately show "count_where p rs = 1" by simp
  have "p q \<longleftrightarrow> run_id q = run_id r" if "q \<in> set rs" for q
    using assms that by (metis unique_byD)
  then show "update_where p f rs = update_where (\<lambda>q. run_id q = run_id r) f rs"
    by (simp add: update_where_def)
qed

text \<open>
  C22: a digest with sources is handed over whole. The request that the executor writes passes the checks
  of the coordinator; the manifest is stored with its text, the messages it covers and its counts, the
  recap request is queued once for the run, and the run waits for its recap. No other run changes.
\<close>

theorem digest_handed_over:
  assumes built: "build_manifest k manifest (pn_owner run) (pn_run run) (pn_start run) (pn_end run) sources = Inr m"
    and codec: "max_sources k \<le> 100" "max_channels k \<le> 20" "length (cn_sha256 m) = 64"
    and request: "decode_recap x (encode_recap x (recap_request run m)) = Some (recap_request run m)"
      "valid_recap x (recap_request run m)"
    and r: "unique_by run_id (runs d)" "r \<in> set (runs d)" "run_id r = pn_run run" "run_owner r = pn_owner run"
      "run_state r = Accepted \<or> run_state r = Acquiring"
    and new: "pn_run run \<notin> man_run ` set (manifests d)" "manifest \<notin> man_id ` set (manifests d)"
      "manifest \<notin> fst ` set (manifest_sources d)"
      "\<not> outbox_conflict recap_subject (uuid_text (pn_run run)) d" "\<not> outbox_id_taken fresh d"
    and "sources \<noteq> []"
  shows "commit x k now fresh manifest run sources incomplete (healthy d) = (Inr (), healthy (d
     \<lparr>manifests := manifests d @ [\<lparr>man_id = manifest, man_run = pn_run run, man_owner = pn_owner run,
         man_sha256 = cn_sha256 m, man_sources = length sources, man_channels = card (ms_channel ` set sources),
         man_text = Some (cn_text m), man_minimized = None\<rparr>],
      manifest_sources := manifest_sources d @ map (Pair manifest) (cn_messages m),
      outbox := outbox d @ [queued_request now fresh m (recap_request run m)],
      runs := update_where (\<lambda>q. run_id q = pn_run run) (enter_state now Waiting_Recap) (runs d)\<rparr>))"
proof -
  note m = built_counts [OF built]
  let ?d1 = "d\<lparr>manifests := manifests d @ [stored_manifest m]\<rparr>"
  let ?d2 = "?d1\<lparr>manifest_sources := manifest_sources d @ map (Pair manifest) (cn_messages m)\<rparr>"
  let ?d3 = "?d2\<lparr>outbox := outbox d @ [queued_request now fresh m (recap_request run m)]\<rparr>"
  have some: "1 \<le> length sources" "1 \<le> card (ms_channel ` set sources)"
    using \<open>sources \<noteq> []\<close> by (simp_all add: Suc_le_eq card_gt_0_iff)
  have small: "cn_sources m \<le> i32_max" "cn_channels m \<le> i32_max"
    using m(5-8) codec(1,2) by (simp_all add: i32_max_def)
  have checked: "checked_recap_request x m (encode_recap x (recap_request run m)) = Inr (recap_request run m)"
    using request m by (simp add: checked_recap_request_def recap_request_def)
  have "manifest_checks (stored_manifest m)"
    using m some codec by (simp add: manifest_checks_def stored_manifest_def del: One_nat_def)
  moreover have "pn_run run \<in> run_id ` set (runs d)" using r(2,3) by force
  ultimately have one: "insert_manifest (stored_manifest m) d = Inr (True, ?d1)"
    using new(1,2) m by (simp add: insert_manifest_def stored_manifest_def)
  have "set (map (Pair manifest) (cn_messages m)) \<inter> set (manifest_sources d) = {}" using new(3) by force
  moreover have "distinct (map (Pair manifest) (cn_messages m))"
    using m(9) by (simp add: distinct_map inj_on_def)
  ultimately have two: "insert_manifest_sources (cn_manifest m) (cn_messages m) ?d1 = Inr ((), ?d2)"
    using m(1) by (simp add: insert_manifest_sources_def stored_manifest_def)
  have three: "insert_outbox (queued_request now fresh m (recap_request run m)) ?d2 = Inr ((), ?d3)"
    using new(4,5) m(3) by (simp add: insert_outbox_def queued_request_def outbox_conflict_def)
  have moves: "open_run (cn_run m) (cn_owner m) r" "\<And>q. open_run (cn_run m) (cn_owner m) q \<Longrightarrow> run_id q = run_id r"
    using r m by (auto simp: open_run_def)
  have four: "update_runs (open_run (cn_run m) (cn_owner m)) (enter_state now Waiting_Recap) ?d3
      = Inr (1, ?d3\<lparr>runs := update_where (\<lambda>q. run_id q = pn_run run) (enter_state now Waiting_Recap) (runs d)\<rparr>)"
    using moved_once [where p = "open_run (cn_run m) (cn_owner m)", OF r(1,2) moves] r(3) by (simp add: update_runs_def)
  show ?thesis
    using \<open>sources \<noteq> []\<close> built small
    by (simp add: commit_def commit_manifest_def checked run_transaction commit_manifest_body_def stored_def
        one two three four) (simp add: stored_manifest_def m)
qed

definition demo_handed :: canonical_manifest where
  "demo_handed = \<lparr>cn_manifest = 30, cn_owner = 7, cn_run = 5, cn_text = ''post'', cn_sha256 = demo_sha256 ''post'',
     cn_sources = 1, cn_channels = 1, cn_messages = [(91, 9)]\<rparr>"

text \<open>The example with the request of this manifest as what the fixed payload decodes to.\<close>

definition demo_recap :: externals where
  "demo_recap = demo\<lparr>decode_recap := (\<lambda>_. Some (recap_request demo_pending demo_handed))\<rparr>"

theorem digest_handed_over_witness:
  "runs (effect_of (commit demo_recap demo_codec 500 203 30 demo_pending [demo_source 91 9 ''150'' ''post''] False)
     demo_accepted) = [enter_state 500 Waiting_Recap demo_run_row]"
proof -
  have built: "build_manifest demo_codec 30 (pn_owner demo_pending) (pn_run demo_pending) (pn_start demo_pending)
      (pn_end demo_pending) [demo_source 91 9 ''150'' ''post''] = Inr demo_handed"
    by (simp add: build_manifest_def demo_codec_def demo_source_def source_channels_def wire_instant_def
        contract_source_def Let_def demo_instants order_key_def source_messages_def demo_pending_def
        demo_handed_def del: int_parse.simps)
  have rows: "manifests demo_accepted = []" "manifest_sources demo_accepted = []"
    by (simp_all add: demo_accepted_def after_served effect_of_def run_transaction run_body_def storage_def
        insert_inbox_def open_inbox_def inbox_conflict_def create_commanded_run_def cast_window_def
        demo_run_def create_digest_run_def insert_run_def new_run_def empty_db_def natural_key_def
        set_language_def update_runs_def update_where_def queue_started_def new_report_def caused_by_def
        demo_moment_def insert_outbox_once_def outbox_conflict_def complete_inbox_def)
  have "recap_subject \<noteq> report_subject" by (simp add: recap_subject_def report_subject_def)
  with digest_handed_over [OF built, of demo_recap demo_accepted demo_run_row 203 500 False]
  show ?thesis
    by (simp add: rows demo_accepted_rows demo_recap_def demo_handed_def demo_codec_def demo_pending_def
        demo_run_row_def demo_queued_def queued_report_def outbox_conflict_def effect_of_def update_where_def
        demo_def)
qed

end
