(* ===== verification/Walks.thy ===== *)
theory Walks
  imports Scenario
begin

text \<open>
  The walk over one channel against a provider that lists the posts of the channel newest first: what
  a complete walk has stored, what a checkpoint says, and that no post that is still there is lost.
\<close>

section \<open>Rules for what any outcome leaves\<close>

lemma ends_read: "(\<And>v. v = f (fst s) \<Longrightarrow> Q v s) \<Longrightarrow> J s \<Longrightarrow> ends (unavailable (map_err g (pooled (query f)))) Q J s"
  unfolding ends_def unavailable_def on_tables_def map_err_def pooled_def query_def
  by (auto split: prod.splits sum.splits reply.splits)

section \<open>A channel listed newest first\<close>

definition below :: "int option \<Rightarrow> provider_post \<Rightarrow> bool" where
  "below before p \<longleftrightarrow> (case before of None \<Rightarrow> True | Some b \<Rightarrow> post_id p < b)"

definition newest_page :: "provider_post list \<Rightarrow> int option \<Rightarrow> nat \<Rightarrow> provider_page" where
  "newest_page ms before limit =
     (let posts = take limit (filter (below before) ms)
      in \<lparr>page_posts = posts,
          page_next = (if length posts = limit \<and> posts \<noteq> [] then Some (post_id (last posts)) else None)\<rparr>)"

text \<open>
  The adapter's pages are the pages of the channel. When the client's iterator yields the messages
  of the channel newest first, from an offset and up to a limit, a fetched page holds the newest posts
  below the cursor and has a cursor exactly when it is full.
\<close>

theorem fetched_page_newest:
  assumes stream: "\<And>offset n. message_stream channel offset n
      = Inr (take n (filter (\<lambda>m. offset = 0 \<or> sint (cl_id m) < sint offset) messages))"
    and ids: "list_all (\<lambda>m. 0 < sint (cl_id m)) messages" and "limit \<le> 100"
    and cursor: "before = None \<or> (\<exists>m \<in> set messages. before = Some (sint (cl_id m)))"
  shows "fetch_public_posts message_stream channel before limit
     = Inr (newest_page (map post_of_message messages) before limit)"
proof -
  have range: "- (2 ^ 31) \<le> sint i" "sint i < 2 ^ 31" for i :: "32 word"
    using sint_range_size [of i] by (simp_all add: word_size)
  have "filter (\<lambda>m. page_offset before = 0 \<or> sint (cl_id m) < sint (page_offset before)) messages
      = filter (\<lambda>m. below before (post_of_message m)) messages"
  proof (cases before)
    case None
    then show ?thesis by (simp add: page_offset_def below_def)
  next
    case (Some b)
    with cursor obtain m where m: "m \<in> set messages" "b = sint (cl_id m)" by auto
    then have "page_offset before = cl_id m" using Some range [of "cl_id m"] by (simp add: page_offset_def)
    moreover have "cl_id m \<noteq> 0" using m ids by (auto simp: list_all_iff)
    ultimately show ?thesis using Some m by (simp add: below_def post_of_message_def)
  qed
  then have "map post_of_message (take limit (filter (\<lambda>m. page_offset before = 0
        \<or> sint (cl_id m) < sint (page_offset before)) messages))
      = take limit (filter (below before) (map post_of_message messages))"
    by (simp add: take_map filter_map comp_def)
  with \<open>limit \<le> 100\<close> show ?thesis
    by (simp add: fetch_public_posts_def stream newest_page_def Let_def min_def)
qed

text \<open>The provider answers, when it answers, with pages of the channel's list of posts.\<close>

definition lists_newest :: "'c provider \<Rightarrow> provider_post list \<Rightarrow> bool" where
  "lists_newest pv ms \<longleftrightarrow> (\<forall>n c before limit page.
     pv_fetch pv n c before limit = Answered (Inr page) \<longrightarrow> page = newest_page ms before limit)"

text \<open>The list: identities fall strictly, times never rise, nothing is marked deleted.\<close>

definition newest_list :: "externals \<Rightarrow> provider_post list \<Rightarrow> bool" where
  "newest_list x ms \<longleftrightarrow>
     sorted_wrt (\<lambda>p q. post_id q < post_id p) ms
     \<and> sorted_wrt (\<lambda>p q. \<forall>s t. jiff_parse x (post_published p) = Some s
          \<longrightarrow> jiff_parse x (post_published q) = Some t \<longrightarrow> t \<le> s) ms
     \<and> list_all (\<lambda>p. \<not> post_deleted p) ms"

definition wanted :: "externals \<Rightarrow> instant \<times> instant \<Rightarrow> provider_post \<Rightarrow> bool" where
  "wanted x window p \<longleftrightarrow> post_body p \<noteq> [] \<and> length (post_body p) \<le> max_body
     \<and> (\<exists>t. jiff_parse x (post_published p) = Some t \<and> fst window \<le> t \<and> t < snd window)"

definition early :: "externals \<Rightarrow> instant \<times> instant \<Rightarrow> provider_post \<Rightarrow> bool" where
  "early x window p \<longleftrightarrow> (\<exists>t. jiff_parse x (post_published p) = Some t \<and> t < fst window)"

text \<open>A post below the cursor is on the page, or older than everything on a full page.\<close>

lemma newest_page_cases:
  assumes ms: "newest_list x ms" and p: "p \<in> set ms" "below before p" and "0 < limit"
  obtains (on_page) "p \<in> set (page_posts (newest_page ms before limit))"
    | (after_page) b where "page_next (newest_page ms before limit) = Some b" "post_id p < b"
        "\<And>q. q \<in> set (page_posts (newest_page ms before limit)) \<Longrightarrow> post_id p < post_id q"
        "\<And>q. q \<in> set (page_posts (newest_page ms before limit)) \<Longrightarrow> early x window q \<Longrightarrow> \<not> wanted x window p"
proof (cases "p \<in> set (page_posts (newest_page ms before limit))")
  case False
  let ?xs = "filter (below before) ms"
  let ?later = "\<lambda>p q. \<forall>s t. jiff_parse x (post_published p) = Some s
          \<longrightarrow> jiff_parse x (post_published q) = Some t \<longrightarrow> t \<le> s"
  from False have out: "p \<notin> set (take limit ?xs)" by (simp add: newest_page_def Let_def)
  have "p \<in> set (take limit ?xs @ drop limit ?xs)" using p by simp
  with out have dropped: "p \<in> set (drop limit ?xs)" unfolding set_append by simp
  then have "limit < length ?xs" by (metis drop_all empty_iff empty_set not_le)
  then have full: "length (take limit ?xs) = limit" by simp
  with \<open>0 < limit\<close> have some: "take limit ?xs \<noteq> []" by auto
  have "sorted_wrt (\<lambda>p q. post_id q < post_id p) (take limit ?xs @ drop limit ?xs)"
    and "sorted_wrt ?later (take limit ?xs @ drop limit ?xs)"
    unfolding append_take_drop_id using ms by (simp_all add: newest_list_def sorted_wrt_filter)
  then have ids: "\<forall>q \<in> set (take limit ?xs). \<forall>r \<in> set (drop limit ?xs). post_id r < post_id q"
    and times: "\<forall>q \<in> set (take limit ?xs). \<forall>r \<in> set (drop limit ?xs). ?later q r"
    unfolding sorted_wrt_append by simp_all
  have next_id: "page_next (newest_page ms before limit) = Some (post_id (last (take limit ?xs)))"
    using full some by (simp add: newest_page_def Let_def)
  have older: "post_id p < post_id (last (take limit ?xs))" using ids last_in_set [OF some] dropped by blast
  have past: "\<not> wanted x window p"
    if q: "q \<in> set (page_posts (newest_page ms before limit))" "early x window q" for q
  proof
    assume "wanted x window p"
    then obtain t where t: "jiff_parse x (post_published p) = Some t" "fst window \<le> t" by (auto simp: wanted_def)
    from q obtain s where s: "jiff_parse x (post_published q) = Some s" "s < fst window" by (auto simp: early_def)
    have "q \<in> set (take limit ?xs)" using q(1) by (simp add: newest_page_def Let_def)
    with times dropped have "?later q p" by blast
    with t s show False by auto
  qed
  have "post_id p < post_id q" if "q \<in> set (page_posts (newest_page ms before limit))" for q
    using that ids dropped by (simp add: newest_page_def Let_def)
  with next_id older past show thesis by (intro after_page)
qed

lemma page_below:
  "q \<in> set (page_posts (newest_page ms before limit)) \<Longrightarrow> q \<in> set ms \<and> below before q"
  by (auto simp: newest_page_def Let_def dest: in_set_takeD)

section \<open>Storing a page\<close>

abbreviation stored_keys :: "db \<Rightarrow> (uuid \<times> int \<times> string) set" where
  "stored_keys d \<equiv> revision_key ` set (revisions d)"

definition key_of :: "externals \<Rightarrow> uuid \<Rightarrow> provider_post \<Rightarrow> uuid \<times> int \<times> string" where
  "key_of x channel p = (channel, post_id p, sha256 x (post_body p))"

lemma append_keys:
  assumes "append_revision fresh channel message digest body link published observed d = Inr (i, d')"
  shows "stored_keys d' = insert (channel, message, digest) (stored_keys d)" and "leases d' = leases d"
proof -
  from assms show "stored_keys d' = insert (channel, message, digest) (stored_keys d)"
    by (cases rule: append_revision_cases) (auto simp: revision_key_def)
  from assms show "leases d' = leases d" by (cases rule: append_revision_cases) simp_all
qed

lemma wp_append:
  assumes "\<And>i d'. stored_keys d' = insert (ob_channel ob, ob_message ob, sha256 x (ob_body ob)) (stored_keys d)
      \<Longrightarrow> leases d' = leases d \<Longrightarrow> Q i d'"
  shows "wp (append x fresh ob) Q d"
  unfolding append_def
proof (intro wp_map_err wp_pooled)
  fix i d'
  assume run: "(case (pg_parse x (ob_published ob), pg_parse x (ob_observed ob)) of
         (Some published, Some observed) \<Rightarrow>
           append_revision fresh (ob_channel ob) (ob_message ob) (sha256 x (ob_body ob))
             (ob_body ob) (ob_link ob) published observed d
       | _ \<Rightarrow> Inl Violation) = Inr (i, d')"
  then obtain published observed where "append_revision fresh (ob_channel ob) (ob_message ob)
      (sha256 x (ob_body ob)) (ob_body ob) (ob_link ob) published observed d = Inr (i, d')"
    by (auto split: option.splits)
  from append_keys [OF this] show "Q i d'" by (rule assms)
qed

text \<open>What a part of a page adds: more keys, the wanted posts among them, and no lease.\<close>

definition page_stored ::
  "externals \<Rightarrow> uuid \<Rightarrow> instant \<times> instant \<Rightarrow> provider_post set \<Rightarrow> bool \<Rightarrow> db \<Rightarrow> page_progress \<Rightarrow> db \<Rightarrow> bool" where
  "page_stored x channel window ps reached d pp d' \<longleftrightarrow>
     stored_keys d \<subseteq> stored_keys d' \<and> leases d' = leases d
     \<and> (\<forall>p \<in> ps. \<not> post_deleted p \<longrightarrow> wanted x window p \<longrightarrow> key_of x channel p \<in> stored_keys d')
     \<and> (\<forall>(m, h) \<in> set (pp_seen pp). (channel, m, h) \<in> stored_keys d')
     \<and> (pp_reached pp \<longrightarrow> reached \<or> (\<exists>p \<in> ps. early x window p))"

lemma wp_store_post:
  assumes seen: "\<forall>(m, h) \<in> set (pp_seen pp). (aq_channel rq, m, h) \<in> stored_keys (fst s)"
  shows "wp (store_post x fresh rq username window post pp)
     (\<lambda>pp' s'. page_stored x (aq_channel rq) window {post} (pp_reached pp) (fst s) pp' (fst s')) s"
proof -
  have keep: "page_stored x (aq_channel rq) window {post} (pp_reached pp) (fst s) pp (fst s)"
    if "\<not> post_deleted post \<longrightarrow> wanted x window post \<longrightarrow> key_of x (aq_channel rq) post \<in> stored_keys (fst s)"
    using that seen by (simp add: page_stored_def)
  show ?thesis
    unfolding store_post_def unavailable_def Let_def
    apply (intro wp_intros wp_on_tables wp_append)
    subgoal by (rule keep) (auto simp: wanted_def)
    subgoal using seen by (auto simp: page_stored_def wanted_def early_def)
    subgoal by (rule keep) (auto simp: wanted_def)
    subgoal by (rule keep) (use seen in \<open>auto simp: key_of_def\<close>)
    subgoal using seen by (auto simp: page_stored_def key_of_def observed_post_def)
    done
qed

lemma page_stored_trans:
  assumes a: "page_stored x channel window A reached d pp1 d1"
    and b: "page_stored x channel window B (pp_reached pp1) d1 pp2 d2"
  shows "page_stored x channel window (A \<union> B) reached d pp2 d2"
  unfolding page_stored_def
proof (intro conjI)
  show "stored_keys d \<subseteq> stored_keys d2" using a b by (auto simp only: page_stored_def intro: subset_trans)
  show "leases d2 = leases d" using a b by (simp add: page_stored_def)
  show "\<forall>p \<in> A \<union> B. \<not> post_deleted p \<longrightarrow> wanted x window p \<longrightarrow> key_of x channel p \<in> stored_keys d2"
    using a b unfolding page_stored_def by (meson UnE subsetD)
  show "\<forall>(m, h) \<in> set (pp_seen pp2). (channel, m, h) \<in> stored_keys d2"
    using b unfolding page_stored_def by (elim conjE)
  show "pp_reached pp2 \<longrightarrow> reached \<or> (\<exists>p \<in> A \<union> B. early x window p)"
    using a b unfolding page_stored_def by blast
qed

lemma wp_store_posts:
  assumes "\<forall>(m, h) \<in> set (pp_seen pp). (aq_channel rq, m, h) \<in> stored_keys (fst s)"
  shows "wp (store_posts x fresh rq username window i posts pp)
     (\<lambda>pp' s'. page_stored x (aq_channel rq) window (set posts) (pp_reached pp) (fst s) pp' (fst s')) s"
  using assms
proof (induction posts arbitrary: i pp s)
  case Nil
  then show ?case by (simp add: wp_ret page_stored_def)
next
  case (Cons post posts)
  show ?case
    unfolding store_posts.simps
  proof (rule wp_bind, rule wp_mono [OF wp_store_post [OF Cons.prems]])
    fix pp1 and s1 :: "db \<times> counter"
    assume one: "page_stored x (aq_channel rq) window {post} (pp_reached pp) (fst s) pp1 (fst s1)"
    have "wp (store_posts x fresh rq username window (Suc i) posts pp1)
       (\<lambda>pp' s'. page_stored x (aq_channel rq) window (set posts) (pp_reached pp1) (fst s1) pp' (fst s')) s1"
      using one by (intro Cons.IH) (simp add: page_stored_def)
    then show "wp (store_posts x fresh rq username window (Suc i) posts pp1)
       (\<lambda>pp' s'. page_stored x (aq_channel rq) window (set (post # posts)) (pp_reached pp) (fst s) pp' (fst s')) s1"
      by (rule wp_mono) (use page_stored_trans [OF one] in simp)
  qed
qed

section \<open>What a checkpoint says\<close>

abbreviation all_stored ::
  "externals \<Rightarrow> uuid \<Rightarrow> instant \<times> instant \<Rightarrow> provider_post list \<Rightarrow> db \<Rightarrow> bool" where
  "all_stored x channel window ms d \<equiv>
     \<forall>p \<in> set ms. wanted x window p \<longrightarrow> key_of x channel p \<in> stored_keys d"

text \<open>A walk that stands at a cursor has stored what lies above it; one with no cursor left, everything.\<close>

definition progress ::
  "externals \<Rightarrow> uuid \<Rightarrow> instant \<times> instant \<Rightarrow> provider_post list \<Rightarrow> int option \<Rightarrow> nat \<Rightarrow> db \<Rightarrow> bool" where
  "progress x channel window ms before pages d \<longleftrightarrow>
     (\<forall>p \<in> set ms. \<not> below before p \<longrightarrow> wanted x window p \<longrightarrow> key_of x channel p \<in> stored_keys d)
     \<and> (before = None \<longrightarrow> 0 < pages \<longrightarrow> all_stored x channel window ms d)"

definition truthful ::
  "externals \<Rightarrow> acquisition_request \<Rightarrow> instant \<times> instant \<Rightarrow> provider_post list \<Rightarrow> db \<Rightarrow> bool" where
  "truthful x rq window ms d \<longleftrightarrow> (\<forall>l \<in> set (leases d). lease_of rq l \<longrightarrow>
     progress x (aq_channel rq) window ms (lease_before l) (lease_pages l) d
     \<and> (lease_state l = Some ''completed'' \<longrightarrow> all_stored x (aq_channel rq) window ms d))"

lemma progress_mono:
  "progress x channel window ms before pages d \<Longrightarrow> stored_keys d \<subseteq> stored_keys d' \<Longrightarrow> progress x channel window ms before pages d'"
  unfolding progress_def by blast

lemma truthful_mono:
  "truthful x rq window ms d \<Longrightarrow> stored_keys d \<subseteq> stored_keys d' \<Longrightarrow> leases d' = leases d \<Longrightarrow> truthful x rq window ms d'"
  unfolding truthful_def by (auto intro: progress_mono dest: subsetD)

lemma truthful_upsert:
  assumes "truthful x rq window ms d" and "upsert_lease l d = Inr (u, d')"
    and "lease_of rq l \<Longrightarrow> progress x (aq_channel rq) window ms (lease_before l) (lease_pages l) d
     \<and> (lease_state l = Some ''completed'' \<longrightarrow> all_stored x (aq_channel rq) window ms d)"
  shows "truthful x rq window ms d'" and "stored_keys d' = stored_keys d" and "revisions d' = revisions d"
proof -
  from assms(2) have rev: "revisions d' = revisions d" and "set (leases d') \<subseteq> insert l (set (leases d))"
    by (auto simp: upsert_lease_def Let_def set_update_where split: if_splits)
  with assms(1,3) show "truthful x rq window ms d'"
    by (auto simp: truthful_def progress_def)
  from rev show "stored_keys d' = stored_keys d" "revisions d' = revisions d" by simp_all
qed

lemma ends_checkpoint:
  assumes "truthful x rq window ms (fst s)" and "progress x (aq_channel rq) window ms before pages (fst s)"
    and "st = ''completed'' \<Longrightarrow> all_stored x (aq_channel rq) window ms (fst s)"
    and "\<And>s'. truthful x rq window ms (fst s') \<Longrightarrow> stored_keys (fst s') = stored_keys (fst s) \<Longrightarrow> Q () s'"
  shows "ends (checkpoint now holder rq before pages n st retry) Q (\<lambda>s'. truthful x rq window ms (fst s')) s"
proof -
  let ?l = "checkpoint_lease now holder rq before pages n st retry"
  have leaves: "truthful x rq window ms d' \<and> stored_keys d' = stored_keys (fst s)"
    if "upsert_lease ?l (fst s) = Inr (u, d')" for u d'
    using truthful_upsert [OF assms(1) that] assms(2,3) by (simp add: checkpoint_lease_def)
  show ?thesis
    using assms(1,4) leaves
    unfolding ends_def checkpoint_def unavailable_def on_tables_def map_err_def pooled_def
    by (auto split: prod.splits sum.splits reply.splits)
qed

section \<open>The walk\<close>

lemma preserves_truthful:
  "preserves (\<lambda>s. truthful x rq window ms (fst s)) (store_posts x fresh rq' username window' i posts pp)"
  "preserves (\<lambda>s. truthful x rq window ms (fst s)) (withdraw_absent now channel before page)"
proof -
  have "preserves (truthful x rq window ms) (append x fresh ob)" for fresh ob
    unfolding append_def
  proof (intro preserves_map_err preserves_pooled)
    fix d i d'
    assume d: "truthful x rq window ms d"
      and "(case (pg_parse x (ob_published ob), pg_parse x (ob_observed ob)) of
         (Some published, Some observed) \<Rightarrow>
           append_revision fresh (ob_channel ob) (ob_message ob) (sha256 x (ob_body ob))
             (ob_body ob) (ob_link ob) published observed d
       | _ \<Rightarrow> Inl Violation) = Inr (i, d')"
    then obtain published observed where "append_revision fresh (ob_channel ob) (ob_message ob)
        (sha256 x (ob_body ob)) (ob_body ob) (ob_link ob) published observed d = Inr (i, d')"
      by (auto split: option.splits)
    from append_keys [OF this] show "truthful x rq window ms d'" by (intro truthful_mono [OF d]) auto
  qed
  then have "preserves (\<lambda>s. truthful x rq window ms (fst s)) (store_post x fresh rq' username window' post pp)"
    for fresh post pp
    unfolding store_post_def unavailable_def Let_def by (intro trail_intros)
  then show "preserves (\<lambda>s. truthful x rq window ms (fst s)) (store_posts x fresh rq' username window' i posts pp)"
    by (induction posts arbitrary: i pp) (simp_all add: preserves_ret preserves_bind)
  have "preserves (truthful x rq window ms) (withdraw_missing now channel proved present deleted)"
    for proved present deleted
    unfolding withdraw_missing_def
  proof (intro preserves_map_err preserves_pooled)
    fix d v d'
    assume d: "truthful x rq window ms d" and run: "withdraw now channel proved present deleted d = Inr (v, d')"
    then have "map revision_key (revisions d') = map revision_key (revisions d)" and "leases d' = leases d"
      by (auto simp: withdraw_def Let_def map_update_where revision_key_def withdrawn_revision_def)
    then have "stored_keys d' = stored_keys d" and "leases d' = leases d" by (metis set_map)+
    then show "truthful x rq window ms d'" by (intro truthful_mono [OF d]) simp_all
  qed
  then show "preserves (\<lambda>s. truthful x rq window ms (fst s)) (withdraw_absent now channel before page)"
    unfolding withdraw_absent_def unavailable_def Let_def by (intro trail_intros)
qed

lemma wp_withdraw_absent:
  "wp (withdraw_absent now channel before page) (\<lambda>_ s'. stored_keys (fst s') = stored_keys (fst s)) s"
proof -
  have "stored_keys d' = stored_keys d" if "withdraw now channel proved present deleted d = Inr (v, d')"
    for proved present deleted v d d'
  proof -
    from that have "map revision_key (revisions d') = map revision_key (revisions d)"
      by (auto simp: withdraw_def Let_def map_update_where revision_key_def withdrawn_revision_def)
    then show ?thesis by (metis set_map)
  qed
  then show ?thesis
    unfolding withdraw_absent_def unavailable_def withdraw_missing_def Let_def
    by (intro wp_intros wp_on_tables wp_pooled wp_on_process) simp_all
qed

lemma ends_finish:
  assumes "truthful x rq window ms (fst s)" and "progress x (aq_channel rq) window ms before pages (fst s)"
    and "before = None \<Longrightarrow> all_stored x (aq_channel rq) window ms (fst s)"
  shows "ends (finish env rq before pages n)
     (\<lambda>report s'. truthful x rq window ms (fst s')
        \<and> (\<not> ar_partial report \<longrightarrow> all_stored x (aq_channel rq) window ms (fst s')))
     (\<lambda>s'. truthful x rq window ms (fst s')) s"
  unfolding finish_def Let_def
  by (rule ends_bind, rule ends_checkpoint [OF assms(1,2)]) (use assms(3) in \<open>auto intro!: ends_ret split: if_splits\<close>)

text \<open>After a page the walk stands at the new cursor.\<close>

lemma progress_page:
  fixes ms :: "provider_post list" and before :: "int option" and limit :: nat
  defines "page \<equiv> newest_page ms before limit"
  assumes ms: "newest_list x ms" "0 < limit"
    and old: "progress x channel window ms before pages d"
    and stored: "page_stored x channel window (set (page_posts page)) False d pp d1"
    and keys: "stored_keys d2 = stored_keys d1"
  shows "progress x channel window ms (if pp_reached pp then None else page_next page) (Suc pages) d2"
    and "(if pp_reached pp then None else page_next page) = None \<Longrightarrow> all_stored x channel window ms d2"
proof -
  have held: "key_of x channel p \<in> stored_keys d2" if "p \<in> set (page_posts page)" "wanted x window p" for p
    using that stored keys ms(1) page_below [of p ms before limit]
    by (auto simp: page_stored_def page_def newest_list_def list_all_iff)
  have above: "key_of x channel p \<in> stored_keys d2" if "p \<in> set ms" "wanted x window p" "\<not> below before p" for p
    using that old stored keys by (auto simp: progress_def page_stored_def)
  show all: "all_stored x channel window ms d2" if "(if pp_reached pp then None else page_next page) = None"
  proof (intro ballI impI)
    fix p assume p: "p \<in> set ms" "wanted x window p"
    show "key_of x channel p \<in> stored_keys d2"
    proof (cases "below before p")
      case True
      show ?thesis
      proof (cases rule: newest_page_cases [OF ms(1) p(1) True ms(2), where window = window,
            case_names on_page after_page])
        case on_page
        with p(2) show ?thesis by (intro held) (simp add: page_def)
      next
        case (after_page b)
        with that have "pp_reached pp" by (simp add: page_def split: if_splits)
        with stored obtain q where "q \<in> set (page_posts page)" "early x window q"
          by (auto simp: page_stored_def)
        with after_page(4) p(2) show ?thesis by (auto simp: page_def)
      qed
    qed (use p above in blast)
  qed
  show "progress x channel window ms (if pp_reached pp then None else page_next page) (Suc pages) d2"
    unfolding progress_def
  proof (intro conjI impI ballI)
    fix p assume p: "p \<in> set ms" "\<not> below (if pp_reached pp then None else page_next page) p" "wanted x window p"
    show "key_of x channel p \<in> stored_keys d2"
    proof (cases "below before p")
      case True
      show ?thesis
      proof (cases rule: newest_page_cases [OF ms(1) p(1) True ms(2), where window = window,
            case_names on_page after_page])
        case on_page
        with p(3) show ?thesis by (intro held) (simp add: page_def)
      next
        case (after_page b)
        with p(2) show ?thesis by (simp add: page_def below_def split: if_splits)
      qed
    qed (use p above in blast)
  qed (use all in blast)
qed

lemma ends_walk:
  assumes honest: "lists_newest pv ms" "newest_list x ms" and "0 < aq_page_size rq"
  shows "truthful x rq window ms (fst s) \<Longrightarrow> progress x (aq_channel rq) window ms before pages (fst s)
    \<Longrightarrow> \<forall>(m, h) \<in> set seen. (aq_channel rq, m, h) \<in> stored_keys (fst s)
    \<Longrightarrow> (left = 0 \<Longrightarrow> 0 < pages)
    \<Longrightarrow> ends (walk x pv env rq username channel window left before pages n seen)
     (\<lambda>report s'. truthful x rq window ms (fst s')
        \<and> (\<not> ar_partial report \<longrightarrow> all_stored x (aq_channel rq) window ms (fst s')))
     (\<lambda>s'. truthful x rq window ms (fst s')) s"
proof (induction left arbitrary: before pages n seen s)
  case 0
  then show ?case
    unfolding walk.simps by (intro ends_finish) (auto simp: progress_def)
next
  case (Suc left)
  let ?limit = "min (aq_page_size rq) 100"
  have pos: "0 < ?limit" using \<open>0 < aq_page_size rq\<close> by simp
  let ?Q = "\<lambda>report s'. truthful x rq window ms (fst s')
        \<and> (\<not> ar_partial report \<longrightarrow> all_stored x (aq_channel rq) window ms (fst s'))"
  let ?J = "\<lambda>s'. truthful x rq window ms (fst s')"
  have stop: "ends (bind_io (checkpoint now holder rq before pages n st retry) (\<lambda>_. raise e)) ?Q ?J s"
    if "st \<noteq> ''completed''" for now holder st retry e
    using that Suc.prems(1,2) by (intro ends_bind ends_checkpoint [where ms = ms]) (auto intro!: ends_raise)
  have halt: "ends (bind_io (checkpoint now holder rq before pages n st retry) (\<lambda>_. ret
      \<lparr>ar_pages = pages, ar_revisions = n, ar_partial = True\<rparr>)) ?Q ?J s"
    if "st \<noteq> ''completed''" for now holder st retry
    using that Suc.prems(1,2) by (intro ends_bind ends_checkpoint [where ms = ms]) (auto intro!: ends_ret)
  have page: "ends (bind_io (store_posts x (we_append env pages) rq username window 0 (page_posts page)
            \<lparr>pp_stored = 0, pp_reached = False, pp_seen = seen\<rparr>) (\<lambda>pp.
          bind_io (withdraw_absent (we_withdraw_at env pages) (aq_channel rq) before page) (\<lambda>_.
          let next = (if pp_reached pp then None else page_next page); total = n + pp_stored pp
          in bind_io (checkpoint (we_page_at env pages) (we_page_holder env pages) rq next
               (Suc pages) total ''page_committed'' None) (\<lambda>_.
             if next = None then finish env rq next (Suc pages) total
             else walk x pv env rq username channel window left next (Suc pages) total (pp_seen pp))))) ?Q ?J s"
    if page: "page = newest_page ms before ?limit" for page
    unfolding Let_def
  proof (rule ends_bind, rule ends_mono [OF ends_wp [OF wp_store_posts preserves_truthful(1)]])
    fix pp and s1 :: "db \<times> counter"
    assume "page_stored x (aq_channel rq) window (set (page_posts page)) (pp_reached
          \<lparr>pp_stored = 0, pp_reached = False, pp_seen = seen\<rparr>) (fst s) pp (fst s1)
        \<and> truthful x rq window ms (fst s1)"
    then have stored: "page_stored x (aq_channel rq) window (set (page_posts page)) False (fst s) pp (fst s1)"
      and one: "truthful x rq window ms (fst s1)" by simp_all
    let ?next = "if pp_reached pp then None else page_next page"
    show "ends (bind_io (withdraw_absent (we_withdraw_at env pages) (aq_channel rq) before page) (\<lambda>_.
          bind_io (checkpoint (we_page_at env pages) (we_page_holder env pages) rq ?next
               (Suc pages) (n + pp_stored pp) ''page_committed'' None) (\<lambda>_.
             if ?next = None then finish env rq ?next (Suc pages) (n + pp_stored pp)
             else walk x pv env rq username channel window left ?next (Suc pages) (n + pp_stored pp)
               (pp_seen pp)))) ?Q ?J s1"
    proof (rule ends_bind, rule ends_mono [OF ends_wp [OF wp_withdraw_absent preserves_truthful(2)]])
      fix u and s2 :: "db \<times> counter"
      assume two: "stored_keys (fst s2) = stored_keys (fst s1) \<and> truthful x rq window ms (fst s2)"
      note at = progress_page [OF honest(2) pos Suc.prems(2) stored [unfolded page] conjunct1 [OF two],
          folded page]
      show "ends (bind_io (checkpoint (we_page_at env pages) (we_page_holder env pages) rq ?next
               (Suc pages) (n + pp_stored pp) ''page_committed'' None) (\<lambda>_.
             if ?next = None then finish env rq ?next (Suc pages) (n + pp_stored pp)
             else walk x pv env rq username channel window left ?next (Suc pages) (n + pp_stored pp)
               (pp_seen pp))) ?Q ?J s2"
      proof (rule ends_bind, rule ends_checkpoint [OF conjunct2 [OF two] at(1)])
        fix s3 :: "db \<times> counter"
        assume three: "truthful x rq window ms (fst s3)" "stored_keys (fst s3) = stored_keys (fst s2)"
        have here: "progress x (aq_channel rq) window ms ?next (Suc pages) (fst s3)"
          using progress_mono [OF at(1)] three(2) by simp
        have seen: "\<forall>(m, h) \<in> set (pp_seen pp). (aq_channel rq, m, h) \<in> stored_keys (fst s3)"
          using stored two three(2) by (simp add: page_stored_def)
        show "ends (if ?next = None then finish env rq ?next (Suc pages) (n + pp_stored pp)
             else walk x pv env rq username channel window left ?next (Suc pages) (n + pp_stored pp)
               (pp_seen pp)) ?Q ?J s3"
        proof (cases "?next = None")
          case True
          have "all_stored x (aq_channel rq) window ms (fst s3)" using at(2) [OF True] three(2) by simp
          with ends_finish [OF three(1) here] True show ?thesis by simp
        next
          case False
          show ?thesis
            unfolding if_not_P [OF False] by (rule Suc.IH [OF three(1) here seen]) simp
        qed
      qed simp
    qed (use one in simp)
  qed (use Suc.prems(1,3) in simp_all)
  have flood: "ends (bind_io (checkpoint now holder rq before pages n ''flood_wait'' retry) (\<lambda>_. raise e)) ?Q ?J s"
    for now holder retry e
    by (rule stop) simp
  have gone: "ends (bind_io (checkpoint now holder rq before pages n ''provider_unavailable'' retry) (\<lambda>_. ret
      \<lparr>ar_pages = pages, ar_revisions = n, ar_partial = True\<rparr>)) ?Q ?J s" for now holder retry
    by (rule halt) simp
  show ?case
  proof (cases "pv_fetch pv pages channel before ?limit")
    case Timed_Out
    then show ?thesis using gone Suc.prems(1) by (auto intro: ends_raise)
  next
    case (Answered answer)
    show ?thesis
    proof (cases answer)
      case (Inr p)
      with Answered honest(1) have "p = newest_page ms before ?limit" by (auto simp: lists_newest_def)
      from page [OF this] Answered Inr show ?thesis by simp
    next
      case (Inl e)
      with Answered show ?thesis using flood gone Suc.prems(1) by (cases e) (auto intro: ends_raise)
    qed
  qed
qed

lemma ends_execute:
  assumes honest: "lists_newest pv ms" "newest_list x ms" and sizes: "0 < aq_page_size rq" "0 < aq_max_pages rq"
    and window: "jiff_parse x (aq_start rq) = Some start" "jiff_parse x (aq_end rq) = Some end"
    and told: "truthful x rq (start, end) ms (fst s)"
  shows "ends (execute x pv env rq)
     (\<lambda>report s'. truthful x rq (start, end) ms (fst s')
        \<and> (\<not> ar_partial report \<longrightarrow> all_stored x (aq_channel rq) (start, end) ms (fst s')))
     (\<lambda>s'. truthful x rq (start, end) ms (fst s')) s"
proof -
  let ?Q = "\<lambda>report s'. truthful x rq (start, end) ms (fst s')
        \<and> (\<not> ar_partial report \<longrightarrow> all_stored x (aq_channel rq) (start, end) ms (fst s'))"
  let ?J = "\<lambda>s'. truthful x rq (start, end) ms (fst s')"
  have from_here: "ends (case parse_username (aq_username rq) of
       Inl e \<Rightarrow> raise Acquisition_Unavailable
     | Inr username \<Rightarrow>
         bind_io (resolve pv env rq username before pages n) (\<lambda>channel.
         bind_io (parse_window x rq) (\<lambda>window.
         walk x pv env rq username channel window (aq_max_pages rq - pages) before pages n []))) ?Q ?J s"
    if here: "progress x (aq_channel rq) (start, end) ms before pages (fst s)" for before pages n
  proof -
    have walk: "ends (walk x pv env rq username channel (start, end) (aq_max_pages rq - pages) before pages n []) ?Q ?J s"
      for username channel
      by (rule ends_walk [OF honest sizes(1) told here]) (use sizes(2) in auto)
    have window: "ends (bind_io (parse_window x rq) (\<lambda>window.
         walk x pv env rq username channel window (aq_max_pages rq - pages) before pages n [])) ?Q ?J s"
      for username channel
      unfolding parse_window_def window
      by (intro ends_bind ends_ok_or ends_ret) (auto intro: walk told)
    have "ends (bind_io (resolve pv env rq username before pages n) (\<lambda>channel.
         bind_io (parse_window x rq) (\<lambda>window.
         walk x pv env rq username channel window (aq_max_pages rq - pages) before pages n []))) ?Q ?J s"
      for username
      unfolding resolve_def
      by (intro ends_bind)
        (auto intro!: ends_bind ends_checkpoint [where ms = ms] ends_ret ends_raise told here window
          split: answer.split sum.split provider_error.split)
    then show ?thesis by (cases "parse_username (aq_username rq)") (auto intro: ends_raise told)
  qed
  show ?thesis
    unfolding execute_def resume_def
  proof (rule ends_bind, rule ends_bind, rule ends_read)
    fix found :: "lease option"
    assume found: "found = select_one (lease_of rq) (leases (fst s))"
    show "ends (case found of None \<Rightarrow> ret (None, 0, 0)
       | Some l \<Rightarrow>
         if lease_state l = Some ''flood_wait'' \<and> lease_expires l > we_resume_at env
         then raise Acquisition_Deferred
         else if lease_state l = Some ''completed''
         then ret (None, aq_max_pages rq, lease_revisions l)
         else ret (lease_before l, lease_pages l, lease_revisions l))
      (\<lambda>v. ends (case v of (before, pages, n) \<Rightarrow> case parse_username (aq_username rq) of
       Inl e \<Rightarrow> raise Acquisition_Unavailable
     | Inr username \<Rightarrow>
         bind_io (resolve pv env rq username before pages n) (\<lambda>channel.
         bind_io (parse_window x rq) (\<lambda>window.
         walk x pv env rq username channel window (aq_max_pages rq - pages) before pages n []))) ?Q ?J) ?J s"
    proof (cases found)
      case None
      then show ?thesis by (auto intro!: ends_ret from_here simp: progress_def below_def)
    next
      case (Some l)
      with found have "l \<in> set (leases (fst s)) \<and> lease_of rq l" by (metis select_one_Some)
      with told have l: "progress x (aq_channel rq) (start, end) ms (lease_before l) (lease_pages l) (fst s)"
        "lease_state l = Some ''completed'' \<longrightarrow> all_stored x (aq_channel rq) (start, end) ms (fst s)"
        by (auto simp: truthful_def)
      then have full: "progress x (aq_channel rq) (start, end) ms None (aq_max_pages rq) (fst s)"
        if "lease_state l = Some ''completed''"
        using that by (simp add: progress_def below_def)
      show ?thesis
        using Some l full by (auto intro!: ends_ret ends_raise from_here told)
    qed
  qed (rule told)
qed

text \<open>
  C19: a walk that reports a complete channel has stored the whole window. Against a provider that lists the
  channel newest first and may fail, wait or time out at any call, over a connection that may fail
  anywhere, and from any earlier checkpoint that is true, a walk leaves only true checkpoints behind; so
  however often it is resumed, when it ends without the mark of a partial acquisition every post of the
  window with a body of up to 16384 bytes is stored.
\<close>

theorem complete_walk_stores_window:
  assumes "lists_newest pv ms" and "newest_list x ms" and "0 < aq_page_size rq" and "0 < aq_max_pages rq"
    and "jiff_parse x (aq_start rq) = Some start" and "jiff_parse x (aq_end rq) = Some end"
    and "truthful x rq (start, end) ms d"
    and run: "execute x pv env rq \<lparr>tables = (d, ct), wire = ns\<rparr> = (outcome, w)"
  shows "truthful x rq (start, end) ms (fst (tables w))
     \<and> (\<forall>report. outcome = Inr report \<longrightarrow> \<not> ar_partial report
          \<longrightarrow> all_stored x (aq_channel rq) (start, end) ms (fst (tables w)))"
proof -
  have "ends (execute x pv env rq)
     (\<lambda>report s'. truthful x rq (start, end) ms (fst s')
        \<and> (\<not> ar_partial report \<longrightarrow> all_stored x (aq_channel rq) (start, end) ms (fst s')))
     (\<lambda>s'. truthful x rq (start, end) ms (fst s')) (d, ct)"
    by (rule ends_execute) (use assms in simp_all)
  from this [unfolded ends_def, rule_format, of "\<lparr>tables = (d, ct), wire = ns\<rparr>"] run
  show ?thesis by (cases outcome) auto
qed

section \<open>What a page withdraws\<close>

text \<open>The identities that a page speaks for: below its cursor, and not below its oldest post if there is more.\<close>

definition covers :: "int option \<Rightarrow> provider_page \<Rightarrow> int \<Rightarrow> bool" where
  "covers before page m \<longleftrightarrow> (case before of None \<Rightarrow> True | Some b \<Rightarrow> m < b)
     \<and> (page_next page = None \<or> (\<exists>q \<in> set (page_posts page). post_id q \<le> m))"

lemma proved_covers:
  assumes "page_proves page before = Some proved" and "i64_min \<le> m"
  shows "pr_lowest proved \<le> m \<and> (case pr_below proved of None \<Rightarrow> True | Some b \<Rightarrow> m < b) \<longleftrightarrow> covers before page m"
  using assms by (auto simp: page_proves_def covers_def Min_le_iff split: if_splits option.splits)

lemma covered_present:
  assumes ms: "newest_list x ms" "0 < limit" and m: "covers before (newest_page ms before limit) m"
  shows "m \<in> post_id ` set (page_posts (newest_page ms before limit)) \<longleftrightarrow> m \<in> post_id ` set ms"
proof
  assume "m \<in> post_id ` set ms"
  then obtain p where p: "p \<in> set ms" "m = post_id p" by auto
  with m have "below before p" by (auto simp: covers_def below_def)
  then show "m \<in> post_id ` set (page_posts (newest_page ms before limit))"
  proof (rule newest_page_cases [OF ms(1) p(1) _ ms(2), where window = undefined])
    fix b
    assume "page_next (newest_page ms before limit) = Some b"
      and "\<And>q. q \<in> set (page_posts (newest_page ms before limit)) \<Longrightarrow> post_id p < post_id q"
    with m p(2) show ?thesis by (fastforce simp: covers_def)
  qed (use p(2) in simp)
qed (auto dest: page_below)

lemma no_deleted: "newest_list x ms \<Longrightarrow> filter post_deleted (page_posts (newest_page ms before limit)) = []
    \<and> filter (\<lambda>p. \<not> post_deleted p) (page_posts (newest_page ms before limit)) = page_posts (newest_page ms before limit)"
proof -
  assume "newest_list x ms"
  then have "\<not> post_deleted p" if "p \<in> set (page_posts (newest_page ms before limit))" for p
    using page_below [OF that] by (auto simp: newest_list_def list_all_iff)
  then show ?thesis by (simp add: filter_empty_conv)
qed

text \<open>
  C21: a page withdraws exactly the posts that are gone. Of the stored posts of the channel that the page
  speaks for, those that the channel no longer lists lose their body and are marked deleted, the
  manifests that hold one lose their text and are counted, and everything else stays.
\<close>

theorem page_withdraws_gone_posts:
  assumes ms: "newest_list x ms" "0 < limit" and page: "page = newest_page ms before limit"
    and ids: "\<And>r. r \<in> set (revisions d) \<Longrightarrow> i64_min \<le> rev_message r"
      "\<And>i c m. (i, c, m) \<in> set (manifest_sources d) \<Longrightarrow> i64_min \<le> m"
  shows "withdraw_absent now channel before page (healthy (d, ct)) =
     (let gone = (\<lambda>m. covers before page m \<and> m \<notin> post_id ` set ms)
      in (Inr (), healthy (d\<lparr>revisions := update_where (withdrawn_row channel gone) (withdrawn_revision now) (revisions d),
            manifests := update_where (holds_withdrawn channel gone d) (minimized_manifest now) (manifests d)\<rparr>,
          add_manifests (count_where (holds_withdrawn channel gone d) (manifests d)) ct)))"
proof -
  define gone where "gone = (\<lambda>m. covers before page m \<and> m \<notin> post_id ` set ms)"
  obtain proved where proved: "page_proves page before = Some proved"
    by (cases "page_next page"; cases "page_posts page = []")
      (simp_all add: page_proves_def page newest_page_def Let_def split: if_splits)
  let ?live = "map post_id (page_posts page)"
  have same: "withdraws proved ?live [] m \<longleftrightarrow> gone m" if "i64_min \<le> m" for m
    using proved_covers [OF proved that] covered_present [OF ms, of before m]
    by (auto simp: withdraws_def gone_def page)
  have rows: "withdrawn_row channel (withdraws proved ?live []) r = withdrawn_row channel gone r"
    if "r \<in> set (revisions d)" for r
    using same ids(1) [OF that] by (simp add: withdrawn_row_def)
  have held: "holds_withdrawn channel (withdraws proved ?live []) d = holds_withdrawn channel gone d"
    using same ids(2) by (fastforce simp: holds_withdrawn_def fun_eq_iff list_ex_iff)
  have "update_where (withdrawn_row channel (withdraws proved ?live [])) (withdrawn_revision now) (revisions d)
      = update_where (withdrawn_row channel gone) (withdrawn_revision now) (revisions d)"
    using rows by (simp add: update_where_def)
  then obtain n where run: "withdraw now channel proved ?live [] d = Inr (\<lparr>wd_revisions = n,
        wd_manifests = count_where (holds_withdrawn channel gone d) (manifests d)\<rparr>,
      d\<lparr>revisions := update_where (withdrawn_row channel gone) (withdrawn_revision now) (revisions d),
        manifests := update_where (holds_withdrawn channel gone d) (minimized_manifest now) (manifests d)\<rparr>)"
    by (simp add: withdraw_def Let_def held)
  have "add_manifests 0 ct = ct" by (simp add: add_manifests_def)
  with run show ?thesis
    unfolding gone_def [symmetric] Let_def
    using no_deleted [OF ms(1), of before limit]
    by (auto simp: withdraw_absent_def proved page [symmetric] unavailable_def withdraw_missing_def on_tables_def
        on_process_def healthy_def map_err_def pooled_def bind_io_def ret_def)
qed

section \<open>What is never lost\<close>

definition held_post :: "revision \<Rightarrow> db \<times> counter \<Rightarrow> bool" where
  "held_post r s \<longleftrightarrow> r \<in> set (revisions (fst s))"

lemma preserves_held_checkpoint:
  "preserves (held_post r) (checkpoint now holder rq before pages n st retry)"
  unfolding checkpoint_def unavailable_def held_post_def
  by (intro preserves_on_tables preserves_map_err preserves_pooled)
    (auto simp: upsert_lease_def Let_def)

lemma preserves_held_posts: "preserves (held_post r) (store_posts x fresh rq username window i posts pp)"
proof -
  have "preserves (\<lambda>d. r \<in> set (revisions d)) (append x fresh ob)" for fresh ob
    unfolding append_def
    by (intro preserves_map_err preserves_pooled) (auto split: option.splits elim!: append_revision_cases)
  then have "preserves (held_post r) (store_post x fresh rq username window post pp)" for fresh post pp
    unfolding store_post_def unavailable_def Let_def held_post_def by (intro trail_intros)
  then show ?thesis
    by (induction posts arbitrary: i pp) (simp_all add: preserves_ret preserves_bind)
qed

lemma preserves_held_withdraw:
  assumes ms: "newest_list x ms" "0 < limit" and other: "rev_channel r \<noteq> channel \<or> rev_message r \<in> post_id ` set ms"
    and bound: "i64_min \<le> rev_message r"
  shows "preserves (held_post r) (withdraw_absent now channel before (newest_page ms before limit))"
proof -
  let ?page = "newest_page ms before limit"
  have "preserves (\<lambda>d. r \<in> set (revisions d)) (withdraw_missing now channel proved (map post_id (page_posts ?page)) [])"
    if proved: "page_proves ?page before = Some proved" for proved
    unfolding withdraw_missing_def
  proof (intro preserves_map_err preserves_pooled)
    fix d v d'
    assume held: "r \<in> set (revisions d)"
      and run: "withdraw now channel proved (map post_id (page_posts ?page)) [] d = Inr (v, d')"
    let ?gone = "withdraws proved (map post_id (page_posts ?page)) []"
    have "\<not> withdrawn_row channel ?gone r"
    proof
      assume "withdrawn_row channel ?gone r"
      then have "?gone (rev_message r)" and "rev_message r \<in> post_id ` set ms"
        using other by (auto simp: withdrawn_row_def)
      then show False
        using proved_covers [OF proved bound] covered_present [OF ms, of before "rev_message r"]
        by (auto simp: withdraws_def)
    qed
    with held run show "r \<in> set (revisions d')"
      by (auto simp: withdraw_def Let_def set_update_where)
  qed
  then show ?thesis
    using no_deleted [OF ms(1), of before limit]
    unfolding withdraw_absent_def unavailable_def Let_def held_post_def
    by (intro trail_intros) auto
qed

lemma preserves_held_walk:
  assumes honest: "lists_newest pv ms" "newest_list x ms" and "0 < aq_page_size rq"
    and other: "rev_channel r \<noteq> aq_channel rq \<or> rev_message r \<in> post_id ` set ms" and "i64_min \<le> rev_message r"
  shows "preserves (held_post r) (walk x pv env rq username channel window left before pages n seen)"
proof (induction left arbitrary: before pages n seen)
  case 0
  show ?case unfolding walk.simps finish_def Let_def
    by (intro preserves_bind preserves_held_checkpoint preserves_ret)
next
  case (Suc left)
  have withdraw: "preserves (held_post r) (withdraw_absent now (aq_channel rq) before
      (newest_page ms before (min (aq_page_size rq) 100)))" for now
    by (rule preserves_held_withdraw [OF honest(2)]) (use assms(3-5) in auto)
  note rules = preserves_bind preserves_held_checkpoint preserves_held_posts preserves_ret preserves_raise Suc
  show ?case
  proof (cases "pv_fetch pv pages channel before (min (aq_page_size rq) 100)")
    case Timed_Out
    then show ?thesis by (auto intro!: rules)
  next
    case (Answered answer)
    show ?thesis
    proof (cases answer)
      case (Inl e)
      with Answered show ?thesis by (cases e) (auto intro!: rules)
    next
      case (Inr p)
      with Answered honest(1) have "p = newest_page ms before (min (aq_page_size rq) 100)"
        by (auto simp: lists_newest_def)
      with withdraw have "preserves (held_post r) (withdraw_absent now (aq_channel rq) before p)" for now by simp
      with Answered Inr show ?thesis by (auto intro!: rules simp: Let_def finish_def)
    qed
  qed
qed

text \<open>
  C20: a walk loses no post that is still there. Whatever the provider, the clock and the connection do,
  as long as the pages that arrive are pages of the channel, the stored revisions of every post that the
  channel still lists, and of every other channel, stay exactly as they were.
\<close>

theorem live_posts_kept:
  assumes "lists_newest pv ms" and "newest_list x ms" and "0 < aq_page_size rq"
    and "r \<in> set (revisions d)" and "i64_min \<le> rev_message r"
    and "rev_channel r \<noteq> aq_channel rq \<or> rev_message r \<in> post_id ` set ms"
  shows "r \<in> set (revisions (fst (tables (snd (execute x pv env rq \<lparr>tables = (d, ct), wire = ns\<rparr>)))))"
proof -
  have "preserves (held_post r) (unavailable (map_err g (pooled (query f))))" for g :: "db_error \<Rightarrow> unit" and f :: "db \<Rightarrow> 'b"
    unfolding unavailable_def held_post_def by (intro trail_intros)
  then have "preserves (held_post r) (execute x pv env rq)"
    unfolding execute_def parse_window_def resume_def resolve_def
    by (auto intro!: preserves_bind preserves_held_checkpoint preserves_held_walk [OF assms(1-3,6,5)]
        preserves_ret preserves_raise preserves_ok_or split: sum.split answer.split provider_error.split option.split)
  with assms(4) show ?thesis by (simp add: preserves_def held_post_def)
qed

section \<open>A concrete walk\<close>

text \<open>Three posts, two of the window; a page holds two of them.\<close>

definition demo_post :: "int \<Rightarrow> instant \<Rightarrow> string \<Rightarrow> provider_post" where
  "demo_post i published body =
     \<lparr>post_id = i, post_body = body, post_published = int_text published, post_deleted = False\<rparr>"

definition demo_listing :: "provider_post list" where
  "demo_listing = [demo_post 9 180 ''newer'', demo_post 8 150 ''older'', demo_post 7 90 ''before'']"

definition demo_provider :: "unit provider" where
  "demo_provider = \<lparr>pv_resolve = (\<lambda>_. Answered (Inr ())),
     pv_fetch = (\<lambda>_ _ before limit. Answered (Inr (newest_page demo_listing before limit)))\<rparr>"

definition demo_walk :: acquisition_request where
  "demo_walk = \<lparr>aq_run = 5, aq_channel = 91, aq_username = ''rustlang'', aq_start = int_text 100,
     aq_end = int_text 200, aq_max_pages = Suc (Suc 0), aq_page_size = 2\<rparr>"

definition demo_env :: walk_env where
  "demo_env = \<lparr>we_resume_at = 300, we_append = (\<lambda>i j. 60 + of_nat j), we_withdraw_at = (\<lambda>_. 301),
     we_page_at = (\<lambda>_. 302), we_page_holder = (\<lambda>_. 70), we_last_at = 303, we_last_holder = 71\<rparr>"

definition demo_channel :: db where
  "demo_channel = empty_db\<lparr>channels := [\<lparr>ch_id = 91, ch_username = ''rustlang'', ch_display_name = None\<rparr>]\<rparr>"

lemma demo_honest: "lists_newest demo_provider demo_listing" "newest_list demo demo_listing"
  by (simp_all add: lists_newest_def demo_provider_def newest_list_def demo_listing_def demo_post_def
      del: int_parse.simps)

lemma demo_pages:
  "newest_page demo_listing None 2 = \<lparr>page_posts = [demo_post 9 180 ''newer'', demo_post 8 150 ''older''], page_next = Some 8\<rparr>"
  "newest_page demo_listing (Some 8) 2 = \<lparr>page_posts = [demo_post 7 90 ''before''], page_next = None\<rparr>"
  by (simp_all add: newest_page_def demo_listing_def demo_post_def below_def Let_def)

lemma served:
  "on_tables m (healthy (d, c)) = (case m (healthy d) of (r, w') \<Rightarrow> (r, \<lparr>tables = (tables w', c), wire = wire w'\<rparr>))"
  "on_process f (healthy (d, c)) = (Inr (), healthy (d, f c))"
  "\<lparr>tables = s, wire = []\<rparr> = healthy s"
  by (simp_all add: on_tables_def on_process_def healthy_def)

lemma demo_walk_runs:
  "\<exists>report w. execute demo demo_provider demo_env demo_walk (healthy (demo_channel, new_counter)) = (Inr report, w)
     \<and> \<not> ar_partial report"
proof -
  have name: "parse_username ''rustlang'' = Inr ''rustlang''" by code_simp
  show ?thesis
    by (simp add: execute_def resume_def name resolve_def demo_provider_def parse_window_def demo_walk_def
        demo_channel_def unavailable_def served demo_pages store_post_def demo_post_def max_body_def append_def
        observed_post_def append_revision_def select_one_def demo_env_def empty_db_def Let_def revision_key_def
        withdraw_absent_def page_proves_def withdraw_missing_def withdraw_def withdraws_def checkpoint_def
        upsert_lease_def checkpoint_lease_def finish_def lease_of_def acquisition_kind_def update_where_def
        count_where_def del: int_parse.simps)
qed

theorem complete_walk_stores_window_witness:
  "\<exists>report w. execute demo demo_provider demo_env demo_walk (healthy (demo_channel, new_counter)) = (Inr report, w)
     \<and> (91, 9, demo_sha256 ''newer'') \<in> stored_keys (fst (tables w))"
proof -
  obtain report w where run: "execute demo demo_provider demo_env demo_walk (healthy (demo_channel, new_counter))
      = (Inr report, w)" "\<not> ar_partial report"
    using demo_walk_runs by blast
  have "truthful demo demo_walk (100, 200) demo_listing demo_channel"
    by (simp add: truthful_def demo_channel_def empty_db_def)
  with complete_walk_stores_window [OF demo_honest, of demo_walk 100 200 demo_channel demo_env new_counter "[]"] run
  have "all_stored demo 91 (100, 200) demo_listing (fst (tables w))"
    by (simp add: demo_walk_def healthy_def del: int_parse.simps)
  moreover have "wanted demo (100, 200) (demo_post 9 180 ''newer'')"
    by (simp add: wanted_def demo_post_def max_body_def del: int_parse.simps)
  ultimately have "key_of demo 91 (demo_post 9 180 ''newer'') \<in> stored_keys (fst (tables w))"
    by (simp add: demo_listing_def)
  with run(1) show ?thesis by (auto simp: key_of_def demo_post_def)
qed

definition demo_message :: "32 word \<Rightarrow> string \<Rightarrow> client_message" where
  "demo_message i body = \<lparr>cl_id = i, cl_text = body, cl_date = ''date''\<rparr>"

theorem fetched_page_newest_witness:
  "fetch_public_posts (\<lambda>_ offset n. Inr (take n (filter (\<lambda>m. offset = 0 \<or> sint (cl_id m) < sint offset)
       [demo_message 9 ''newer'', demo_message 8 ''older'']))) () (Some 9) 1
     = Inr \<lparr>page_posts = [post_of_message (demo_message 8 ''older'')], page_next = Some 8\<rparr>"
  using fetched_page_newest [of "\<lambda>_ offset n. Inr (take n (filter (\<lambda>m. offset = 0 \<or> sint (cl_id m) < sint offset)
       [demo_message 9 ''newer'', demo_message 8 ''older'']))" "()" "[demo_message 9 ''newer'', demo_message 8 ''older'']" 1 "Some 9"]
  by (simp add: demo_message_def newest_page_def below_def post_of_message_def)

text \<open>A stored post that the channel no longer lists, and one that it lists.\<close>

definition demo_stored_post :: "uuid \<Rightarrow> int \<Rightarrow> string \<Rightarrow> revision" where
  "demo_stored_post i message body =
     \<lparr>rev_id = i, rev_channel = 91, rev_message = message, rev_sha256 = demo_sha256 body, rev_body = Some body,
      rev_published = 150, rev_observed = 200, rev_link = ''link'', rev_deleted = None, rev_minimized = None\<rparr>"

definition demo_kept :: db where
  "demo_kept = demo_channel\<lparr>revisions := [demo_stored_post 50 6 ''gone'', demo_stored_post 51 8 ''older'']\<rparr>"

theorem page_withdraws_gone_posts_witness:
  "\<exists>d' ct'. withdraw_absent 301 91 None \<lparr>page_posts = [demo_post 9 180 ''newer'', demo_post 8 150 ''older'',
       demo_post 7 90 ''before''], page_next = None\<rparr> (healthy (demo_kept, new_counter)) = (Inr (), healthy (d', ct'))
     \<and> revisions d' = [withdrawn_revision 301 (demo_stored_post 50 6 ''gone''), demo_stored_post 51 8 ''older'']"
proof -
  have page: "\<lparr>page_posts = [demo_post 9 180 ''newer'', demo_post 8 150 ''older'', demo_post 7 90 ''before''],
      page_next = None\<rparr> = newest_page demo_listing None 100"
    by (simp add: newest_page_def demo_listing_def below_def)
  have rows: "revisions demo_kept = [demo_stored_post 50 6 ''gone'', demo_stored_post 51 8 ''older'']"
    "manifest_sources demo_kept = []"
    by (simp_all add: demo_kept_def demo_channel_def empty_db_def)
  have ids: "i64_min \<le> rev_message r" if "r \<in> set (revisions demo_kept)" for r
    using that by (auto simp: rows demo_stored_post_def i64_min_def)
  have sources: "i64_min \<le> m" if "(i, c, m) \<in> set (manifest_sources demo_kept)" for i c m
    using that by (simp add: rows)
  have some: "0 < (100 :: nat)" by simp
  have listed: "post_id ` set demo_listing = {9, 8, 7}" by (simp add: demo_listing_def demo_post_def)
  note eq = page_withdraws_gone_posts [OF demo_honest(2) some page ids sources, where now = 301 and channel = 91
      and ct = new_counter, unfolded Let_def listed]
  show ?thesis
    by (rule exI, rule exI, rule conjI, rule eq)
      (simp_all add: rows update_where_def withdrawn_row_def covers_def, simp_all add: demo_stored_post_def)
qed

theorem live_posts_kept_witness:
  "demo_stored_post 51 8 ''older'' \<in> set (revisions (fst (tables (snd
     (execute demo demo_provider demo_env demo_walk \<lparr>tables = (demo_kept, new_counter), wire = [Served, Lost]\<rparr>)))))"
  by (rule live_posts_kept [OF demo_honest])
    (simp_all add: demo_walk_def demo_kept_def demo_stored_post_def i64_min_def demo_listing_def demo_post_def)

section \<open>A flood wait\<close>

text \<open>
  A flood wait is respected. When the provider asks to wait before a channel can be resolved, the walk is
  deferred and its run is not pending until the wait is over, at least one second and at most an hour
  later; from then on the checkpoint holds it back no longer. Nothing but the checkpoint changes.
\<close>

theorem flood_wait_respected:
  assumes "parse_username (aq_username rq) = Inr username"
    and "pv_resolve pv username = Answered (Inl (Flood_Wait wait))"
    and new: "\<not> list_ex (lease_of rq) (leases d)"
  shows "\<exists>l. execute x pv env rq (healthy (d, ct)) = (Inl Acquisition_Deferred, healthy (d\<lparr>leases := leases d @ [l]\<rparr>, ct))
     \<and> (\<forall>now r. run_id r = aq_run rq \<longrightarrow> now < we_last_at env + seconds (int (max 1 (min wait 3600)))
          \<longrightarrow> \<not> pending now (d\<lparr>leases := leases d @ [l]\<rparr>) r)
     \<and> (\<forall>now run. we_last_at env + seconds (int (max 1 (min wait 3600))) \<le> now \<longrightarrow> \<not> flood_waiting now run l)"
proof -
  let ?l = "checkpoint_lease (we_last_at env) (we_last_holder env) rq None 0 0 ''flood_wait'' (Some wait)"
  have none: "select_one (lease_of rq) (leases d) = None" using new by (auto simp: select_one_None list_ex_iff)
  have "upsert_lease ?l d = Inr ((), d\<lparr>leases := leases d @ [?l]\<rparr>)"
    using new by (auto simp: upsert_lease_def Let_def list_ex_iff lease_of_def checkpoint_lease_def)
  with assms(1,2) none have "execute x pv env rq (healthy (d, ct))
      = (Inl Acquisition_Deferred, healthy (d\<lparr>leases := leases d @ [?l]\<rparr>, ct))"
    by (simp add: execute_def resume_def resolve_def checkpoint_def unavailable_def served)
  moreover have "take 12 (acquisition_kind channel) = ''acquisition:''" for channel
    by (simp add: acquisition_kind_def)
  ultimately show ?thesis
    by (intro exI [of _ ?l])
      (auto simp: pending_def flood_waiting_def checkpoint_lease_def retry_seconds_def)
qed

definition demo_flooded :: "unit provider" where
  "demo_flooded = demo_provider\<lparr>pv_resolve := (\<lambda>_. Answered (Inl (Flood_Wait 7200)))\<rparr>"

theorem flood_wait_respected_witness:
  "\<exists>l. execute demo demo_flooded demo_env demo_walk (healthy (demo_channel, new_counter))
     = (Inl Acquisition_Deferred, healthy (demo_channel\<lparr>leases := [l]\<rparr>, new_counter))
     \<and> \<not> pending (seconds 3600) (demo_channel\<lparr>leases := [l]\<rparr>) demo_run_row"
proof -
  have "parse_username (aq_username demo_walk) = Inr ''rustlang''"
    unfolding demo_walk_def acquisition_request.select_convs by code_simp
  moreover have "pv_resolve demo_flooded ''rustlang'' = Answered (Inl (Flood_Wait 7200))"
    by (simp add: demo_flooded_def)
  moreover have "leases demo_channel = []" by (simp add: demo_channel_def empty_db_def)
  ultimately show ?thesis
    using flood_wait_respected [of demo_walk "''rustlang''" demo_flooded 7200 demo_channel demo demo_env new_counter]
    by (auto simp: demo_env_def demo_walk_def demo_run_row_def)
qed

end
