(* ===== verification/Net.thy ===== *)
theory Net
  imports Prelude
begin

text \<open>
  The socket addresses of the configuration: \<open>str::parse::<SocketAddr>\<close> of the standard library, which
  \<open>src/config.rs\<close> relies on for its loopback listeners, with the dotted text of an IPv4 address and the
  grouped text of an IPv6 one.
\<close>

section \<open>Addresses\<close>

datatype socket_addr = V4 "nat list" nat | V6 "nat list" nat nat

fun port :: "socket_addr \<Rightarrow> nat" where
  "port (V4 octets p) = p"
| "port (V6 groups scope p) = p"

fun is_loopback :: "socket_addr \<Rightarrow> bool" where
  "is_loopback (V4 octets p) \<longleftrightarrow> octets \<noteq> [] \<and> hd octets = 127"
| "is_loopback (V6 groups scope p) \<longleftrightarrow> groups = [0, 0, 0, 0, 0, 0, 0, 1]"

section \<open>Numbers\<close>

definition hex_digit_value :: "char \<Rightarrow> nat option" where
  "hex_digit_value c =
     (let v = of_char c :: nat
      in if 48 \<le> v \<and> v \<le> 57 then Some (v - 48)
         else if 97 \<le> v \<and> v \<le> 102 then Some (v - 87)
         else if 65 \<le> v \<and> v \<le> 70 then Some (v - 55) else None)"

text \<open>
  \<open>read_number\<close>: the longest run of digits, refused when it is empty, longer than \<open>max_digits\<close>, starts with
  a forbidden zero or exceeds the type.
\<close>

definition read_number ::
  "(char \<Rightarrow> nat option) \<Rightarrow> nat \<Rightarrow> nat option \<Rightarrow> bool \<Rightarrow> nat \<Rightarrow> string \<Rightarrow> (nat \<times> string) option" where
  "read_number digit radix max_digits zero_prefix limit s =
     (let ds = takeWhile (\<lambda>c. digit c \<noteq> None) s;
          value = foldl (\<lambda>n c. n * radix + the (digit c)) 0 ds
      in if ds = [] \<or> (case max_digits of None \<Rightarrow> False | Some k \<Rightarrow> k < length ds)
            \<or> (\<not> zero_prefix \<and> hd ds = CHR ''0'' \<and> 1 < length ds) \<or> limit < value
         then None else Some (value, dropWhile (\<lambda>c. digit c \<noteq> None) s))"

fun given_char :: "char \<Rightarrow> string \<Rightarrow> string option" where
  "given_char c [] = None"
| "given_char c (x # xs) = (if x = c then Some xs else None)"

definition separated :: "char \<Rightarrow> nat \<Rightarrow> (string \<Rightarrow> ('a \<times> string) option) \<Rightarrow> string \<Rightarrow> ('a \<times> string) option" where
  "separated c i p s = (if i = 0 then p s else Option.bind (given_char c s) p)"

section \<open>The parser\<close>

definition octet :: "string \<Rightarrow> (nat \<times> string) option" where
  "octet = read_number digit_value 10 (Some 3) False 255"

definition read_ipv4 :: "string \<Rightarrow> (nat list \<times> string) option" where
  "read_ipv4 s =
     Option.bind (separated (CHR ''.'') 0 octet s) (\<lambda>(a, s).
     Option.bind (separated (CHR ''.'') 1 octet s) (\<lambda>(b, s).
     Option.bind (separated (CHR ''.'') 2 octet s) (\<lambda>(c, s).
     Option.bind (separated (CHR ''.'') 3 octet s) (\<lambda>(d, s). Some ([a, b, c, d], s)))))"

definition ipv6_group :: "string \<Rightarrow> (nat \<times> string) option" where
  "ipv6_group = read_number hex_digit_value 16 (Some 4) True 65535"

text \<open>\<open>read_groups\<close>: up to \<open>limit\<close> groups, the last two of which may be written as an IPv4 address.\<close>

function read_groups :: "nat \<Rightarrow> nat \<Rightarrow> nat list \<Rightarrow> string \<Rightarrow> nat list \<times> bool \<times> string" where
  "read_groups limit i groups s =
     (if limit \<le> i then (groups, False, s)
      else (case (if i < limit - 1 then separated (CHR '':'') i read_ipv4 s else None) of
              Some (octets, rest) \<Rightarrow>
                (groups @ [octets ! 0 * 256 + octets ! 1, octets ! 2 * 256 + octets ! 3], True, rest)
            | None \<Rightarrow>
                (case separated (CHR '':'') i ipv6_group s of
                   Some (g, rest) \<Rightarrow> read_groups limit (Suc i) (groups @ [g]) rest
                 | None \<Rightarrow> (groups, False, s))))"
  by pat_completeness auto

termination read_groups
  by (relation "measure (\<lambda>(limit, i, groups, s). limit - i)") auto

declare read_groups.simps [simp del]

definition read_ipv6 :: "string \<Rightarrow> (nat list \<times> string) option" where
  "read_ipv6 s =
     (case read_groups 8 0 [] s of
        (head, head_ipv4, rest) \<Rightarrow>
          if length head = 8 then Some (head, rest)
          else if head_ipv4 then None
          else Option.bind (Option.bind (given_char (CHR '':'') rest) (given_char (CHR '':''))) (\<lambda>rest.
            (case read_groups (8 - (length head + 1)) 0 [] rest of
               (tail, _, rest) \<Rightarrow>
                 Some (head @ replicate (8 - length head - length tail) 0 @ tail, rest))))"

definition read_port :: "string \<Rightarrow> (nat \<times> string) option" where
  "read_port s = Option.bind (given_char (CHR '':'') s) (read_number digit_value 10 None True 65535)"

definition read_scope :: "string \<Rightarrow> (nat \<times> string) option" where
  "read_scope s = Option.bind (given_char (CHR ''%'') s) (read_number digit_value 10 None True (2 ^ 32 - 1))"

text \<open>\<open>read_scope_id().unwrap_or(0)\<close>\<close>

definition optional_scope :: "string \<Rightarrow> (nat \<times> string) option" where
  "optional_scope s = (case read_scope s of None \<Rightarrow> Some (0, s) | Some scoped \<Rightarrow> Some scoped)"

definition read_socket_v4 :: "string \<Rightarrow> (socket_addr \<times> string) option" where
  "read_socket_v4 s =
     Option.bind (read_ipv4 s) (\<lambda>(octets, s).
     Option.bind (read_port s) (\<lambda>(p, s). Some (V4 octets p, s)))"

definition read_socket_v6 :: "string \<Rightarrow> (socket_addr \<times> string) option" where
  "read_socket_v6 s =
     Option.bind (given_char (CHR ''['') s) (\<lambda>s.
     Option.bind (read_ipv6 s) (\<lambda>(groups, s).
     Option.bind (optional_scope s) (\<lambda>(scope, s).
     Option.bind (given_char (CHR '']'') s) (\<lambda>s.
     Option.bind (read_port s) (\<lambda>(p, s). Some (V6 groups scope p, s))))))"

definition parse_socket :: "string \<Rightarrow> socket_addr option" where
  "parse_socket s =
     (case (case read_socket_v4 s of Some r \<Rightarrow> Some r | None \<Rightarrow> read_socket_v6 s) of
        Some (a, []) \<Rightarrow> Some a
      | _ \<Rightarrow> None)"

section \<open>What it accepts\<close>

fun valid_socket :: "socket_addr \<Rightarrow> bool" where
  "valid_socket (V4 octets p) \<longleftrightarrow> length octets = 4 \<and> (\<forall>b \<in> set octets. b < 256) \<and> p < 65536"
| "valid_socket (V6 groups scope p) \<longleftrightarrow>
     length groups = 8 \<and> (\<forall>g \<in> set groups. g < 65536) \<and> scope < 2 ^ 32 \<and> p < 65536"

lemma read_number_bound: "read_number digit radix k z limit s = Some (n, r) \<Longrightarrow> n \<le> limit"
  by (auto simp: read_number_def Let_def split: if_splits)

lemma octet_bound: "octet s = Some (n, r) \<Longrightarrow> n < 256"
  using read_number_bound unfolding octet_def by fastforce

lemma ipv6_group_bound: "ipv6_group s = Some (n, r) \<Longrightarrow> n < 65536"
  using read_number_bound unfolding ipv6_group_def by fastforce

lemma separatedD: "separated c i p s = Some v \<Longrightarrow> \<exists>s'. p s' = Some v"
  by (auto simp: separated_def bind_eq_Some_conv split: if_splits)

lemma read_ipv4_valid:
  "read_ipv4 s = Some (octets, r) \<Longrightarrow> length octets = 4 \<and> (\<forall>b \<in> set octets. b < 256)"
  by (auto simp: read_ipv4_def bind_eq_Some_conv dest!: separatedD octet_bound)

lemma read_groups_valid:
  assumes "read_groups limit i groups s = (result, v4, r)" and "length groups = i" and "i \<le> limit"
    and "\<forall>g \<in> set groups. g < 65536"
  shows "length result \<le> limit \<and> (\<forall>g \<in> set result. g < 65536)"
  using assms
proof (induction limit i groups s arbitrary: result v4 r rule: read_groups.induct)
  case (1 limit i groups s)
  show ?case
  proof (cases "limit \<le> i")
    case True
    with 1(2-) show ?thesis by (simp add: read_groups.simps)
  next
    case more: False
    show ?thesis
    proof (cases "if i < limit - 1 then separated (CHR '':'') i read_ipv4 s else None")
      case (Some v)
      obtain octets rest where v: "v = (octets, rest)" by force
      with Some obtain s' where four: "read_ipv4 s' = Some (octets, rest)"
        by (auto dest: separatedD split: if_splits)
      from Some have room: "i < limit - 1" by (simp split: if_splits)
      from read_ipv4_valid [OF four] have "octets ! k < 256" if "k < 4" for k using that by auto
      from this [of 0] this [of 1] this [of 2] this [of 3]
      have small: "octets ! 0 * 256 + octets ! 1 < 65536" "octets ! 2 * 256 + octets ! 3 < 65536" by simp_all
      from 1(2) more Some v have "result = groups @ [octets ! 0 * 256 + octets ! 1, octets ! 2 * 256 + octets ! 3]"
        by (simp add: read_groups.simps)
      with small room 1(3,5) show ?thesis by auto
    next
      case None
      show ?thesis
      proof (cases "separated (CHR '':'') i ipv6_group s")
        case none: None
        with 1(2-) more None show ?thesis by (simp add: read_groups.simps)
      next
        case (Some v)
        obtain g rest where v: "v = (g, rest)" by force
        with Some have "g < 65536" by (auto dest!: separatedD ipv6_group_bound)
        have "read_groups limit i groups s = read_groups limit (Suc i) (groups @ [g]) rest"
          by (subst read_groups.simps) (simp only: more None Some v if_False option.case prod.case)
        with 1(2) have "read_groups limit (Suc i) (groups @ [g]) rest = (result, v4, r)" by simp
        moreover have "length (groups @ [g]) = Suc i" and "Suc i \<le> limit"
          and "\<forall>b \<in> set (groups @ [g]). b < 65536"
          using 1(3,5) more \<open>g < 65536\<close> by simp_all
        ultimately show ?thesis by (rule 1(1) [OF more None Some v [symmetric]])
      qed
    qed
  qed
qed

lemma read_ipv6_valid:
  assumes "read_ipv6 s = Some (groups, r)"
  shows "length groups = 8 \<and> (\<forall>g \<in> set groups. g < 65536)"
proof -
  obtain head v4 rest where head: "read_groups 8 0 [] s = (head, v4, rest)" by (metis prod_cases3)
  then have *: "length head \<le> 8 \<and> (\<forall>g \<in> set head. g < 65536)" by (rule read_groups_valid) simp_all
  show ?thesis
  proof (cases "length head = 8")
    case True
    with assms head * show ?thesis by (simp add: read_ipv6_def)
  next
    case False
    with assms head obtain rest' where
      some: "(case read_groups (8 - (length head + 1)) 0 [] rest' of (tail, _, rest) \<Rightarrow>
         Some (head @ replicate (8 - length head - length tail) 0 @ tail, rest)) = Some (groups, r)"
      by (auto simp: read_ipv6_def bind_eq_Some_conv split: if_splits)
    obtain tail v4' rest'' where tail: "read_groups (8 - (length head + 1)) 0 [] rest' = (tail, v4', rest'')"
      by (metis prod_cases3)
    with some have groups: "groups = head @ replicate (8 - length head - length tail) 0 @ tail" by simp
    have "length tail \<le> 8 - (length head + 1) \<and> (\<forall>g \<in> set tail. g < 65536)"
      by (rule read_groups_valid [OF tail]) simp_all
    with * False groups show ?thesis by auto
  qed
qed

lemma read_port_bound: "read_port s = Some (p, r) \<Longrightarrow> p < 65536"
  using read_number_bound by (fastforce simp: read_port_def bind_eq_Some_conv)

lemma read_scope_bound: "read_scope s = Some (p, r) \<Longrightarrow> p < 2 ^ 32"
  using read_number_bound by (fastforce simp: read_scope_def bind_eq_Some_conv)

lemma optional_scope_bound: "optional_scope s = Some (p, r) \<Longrightarrow> p < 2 ^ 32"
  using read_scope_bound [of s p r] by (cases "read_scope s") (auto simp: optional_scope_def)

lemma parse_socket_valid:
  assumes "parse_socket s = Some a"
  shows "valid_socket a"
proof -
  from assms consider "read_socket_v4 s = Some (a, [])" | "read_socket_v6 s = Some (a, [])"
    by (auto simp: parse_socket_def split: option.splits list.splits)
  then show ?thesis
  proof cases
    case 1
    then show ?thesis
      by (auto simp: read_socket_v4_def bind_eq_Some_conv dest!: read_ipv4_valid read_port_bound)
  next
    case 2
    then show ?thesis
      by (auto simp: read_socket_v6_def bind_eq_Some_conv
          dest!: read_ipv6_valid read_port_bound optional_scope_bound)
  qed
qed

section \<open>The text of an IPv4 address\<close>

lemma digits_value_digits:
  "digits_value acc ds = Some n \<Longrightarrow>
     list_all (\<lambda>c. digit_value c \<noteq> None) ds \<and> n = foldl (\<lambda>n c. n * 10 + the (digit_value c)) acc ds"
  by (induction ds arbitrary: acc) (auto split: option.splits)

lemma nat_text_digits:
  "list_all (\<lambda>c. digit_value c \<noteq> None) (nat_text n)"
  "foldl (\<lambda>n c. n * 10 + the (digit_value c)) 0 (nat_text n) = n"
  using digits_value_digits [OF digits_value_nat_text [of n]] by simp_all

lemma nat_text_leading_zero: "hd (nat_text n) = CHR ''0'' \<Longrightarrow> length (nat_text n) = 1"
proof (induction n rule: nat_text.induct)
  case (1 n)
  have zero: "d < 10 \<Longrightarrow> hex_char d = CHR ''0'' \<Longrightarrow> d = 0" for d
    using hex_char_inj [of d 0] by (simp add: hex_char_def)
  show ?case
  proof (cases "n < 10")
    case True
    then show ?thesis by (subst nat_text.simps) simp
  next
    case False
    with 1(2) have "hd (nat_text (n div 10)) = CHR ''0''" by (subst (asm) nat_text.simps) simp
    with 1(1) False have one: "length (nat_text (n div 10)) = 1" by simp
    then have "n div 10 < 10" by (subst (asm) nat_text.simps) (auto split: if_splits)
    with \<open>hd (nat_text (n div 10)) = CHR ''0''\<close> have "hex_char (n div 10) = CHR ''0''"
      by (subst (asm) nat_text.simps) simp
    with zero [of "n div 10"] \<open>n div 10 < 10\<close> False show ?thesis by simp
  qed
qed

lemma length_nat_text: "n < 1000 \<Longrightarrow> length (nat_text n) \<le> 3"
  by (subst nat_text.simps, subst nat_text.simps, subst nat_text.simps) auto

lemma read_number_text:
  assumes "n \<le> limit" and "case max_digits of None \<Rightarrow> True | Some k \<Rightarrow> length (nat_text n) \<le> k"
    and "rest = [] \<or> digit_value (hd rest) = None"
  shows "read_number digit_value 10 max_digits z limit (nat_text n @ rest) = Some (n, rest)"
proof -
  let ?d = "\<lambda>c. digit_value c \<noteq> None"
  have all: "\<And>c. c \<in> set (nat_text n) \<Longrightarrow> ?d c" using nat_text_digits(1) [of n] by (simp add: list_all_iff)
  have "takeWhile ?d rest = []" and "dropWhile ?d rest = rest"
    using assms(3) by (cases rest; simp)+
  with all have "takeWhile ?d (nat_text n @ rest) = nat_text n" and "dropWhile ?d (nat_text n @ rest) = rest"
    by (simp_all add: takeWhile_append2 dropWhile_append2)
  with assms(1,2) nat_text_digits(2) [of n] nat_text_leading_zero [of n] show ?thesis
    by (auto simp: read_number_def Let_def split: option.splits)
qed

definition v4_text :: "nat \<Rightarrow> nat \<Rightarrow> nat \<Rightarrow> nat \<Rightarrow> nat \<Rightarrow> string" where
  "v4_text a b c d p =
     nat_text a @ ''.'' @ nat_text b @ ''.'' @ nat_text c @ ''.'' @ nat_text d @ '':'' @ nat_text p"

lemma octet_text:
  assumes "n < 256" and "rest = [] \<or> digit_value (hd rest) = None"
  shows "octet (nat_text n @ rest) = Some (n, rest)"
  unfolding octet_def by (rule read_number_text) (use assms length_nat_text [of n] in simp_all)

lemma not_digit: "digit_value (CHR ''.'') = None" "digit_value (CHR '':'') = None"
  by code_simp+

lemma parse_socket_text:
  assumes "a < 256" "b < 256" "c < 256" "d < 256" and "p < 65536"
  shows "parse_socket (v4_text a b c d p) = Some (V4 [a, b, c, d] p)"
proof -
  have "read_ipv4 (v4_text a b c d p) = Some ([a, b, c, d], '':'' @ nat_text p)"
    using assms by (simp add: read_ipv4_def v4_text_def separated_def octet_text not_digit)
  moreover have "read_port ('':'' @ nat_text p) = Some (p, [])"
    using read_number_text [of p 65535 None "[]" True] assms(5) by (simp add: read_port_def)
  ultimately show ?thesis by (simp add: parse_socket_def read_socket_v4_def)
qed

end
