(* ===== verification/ResultReader.thy ===== *)
theory ResultReader
  imports Subscriptions
begin

text \<open>
  \<open>src/result_reader.rs\<close>: one read of a recap that Knowledge owns. The request names the analysis and
  carries the service bearer; the response is accepted only when its status, type, size and linkage
  agree. Sending the request and decoding the body are parameters.
\<close>

section \<open>Requests and responses\<close>

datatype read_error = Read_Unavailable | Read_Invalid

record http_get =
  get_url :: string
  get_bearer :: string
  get_accept :: string

text \<open>
  A response: its status, the text of its content type, its announced length, and the chunks of its
  body as they arrive, \<open>Inl ()\<close> being a broken stream.
\<close>

record http_response =
  ht_status :: nat
  ht_content_type :: "string option"
  ht_length :: "nat option"
  ht_chunks :: "(unit + string) list"

record knowledge_envelope =
  ke_analysis :: uuid
  ke_algorithm :: string
  ke_hex :: string
  ke_recap :: json

record projection =
  pj_analysis :: uuid
  pj_digest :: string
  pj_recap :: json

record result_reader =
  rd_base_url :: string
  rd_secret :: string
  rd_limit :: nat

definition is_server_error :: "nat \<Rightarrow> bool" where
  "is_server_error status \<longleftrightarrow> 500 \<le> status \<and> status < 600"

definition blank :: "char \<Rightarrow> bool" where
  "blank c \<longleftrightarrow> c \<in> {CHR '' '', CHR 0x09, CHR 0x0A, CHR 0x0B, CHR 0x0C, CHR 0x0D}"

definition trim_text :: "string \<Rightarrow> string" where
  "trim_text s = rev (dropWhile blank (rev (dropWhile blank s)))"

definition is_json_type :: "string option \<Rightarrow> bool" where
  "is_json_type value =
     (case value of
        None \<Rightarrow> False
      | Some text \<Rightarrow> ascii_lower (trim_text (takeWhile (\<lambda>c. c \<noteq> CHR '';'') text)) = ''application/json'')"

definition usize_max :: nat where
  "usize_max = 2 ^ 64 - 1"

text \<open>The loop over the stream: \<open>bytes\<close> is what was kept so far.\<close>

fun collect_body :: "nat \<Rightarrow> string \<Rightarrow> (unit + string) list \<Rightarrow> read_error + string" where
  "collect_body limit bytes [] = Inr bytes"
| "collect_body limit bytes (Inl _ # chunks) = Inl Read_Unavailable"
| "collect_body limit bytes (Inr chunk # chunks) =
     (if min usize_max (length bytes + length chunk) > limit then Inl Read_Invalid
      else collect_body limit (bytes @ chunk) chunks)"

fun is_object :: "json \<Rightarrow> bool" where
  "is_object (JObject _) = True"
| "is_object _ = False"

definition result_request :: "result_reader \<Rightarrow> uuid \<Rightarrow> http_get" where
  "result_request reader analysis =
     \<lparr>get_url = rd_base_url reader @ ''/internal/channel-digest-results/'' @ uuid_text analysis,
      get_bearer = rd_secret reader, get_accept = ''application/json''\<rparr>"

definition linked :: "uuid \<Rightarrow> string \<Rightarrow> knowledge_envelope \<Rightarrow> bool" where
  "linked analysis expected e \<longleftrightarrow>
     ke_analysis e = analysis \<and> ke_algorithm e = ''sha256'' \<and> is_sha256_hex (ke_hex e)
     \<and> ke_hex e = expected \<and> is_object (ke_recap e)"

definition accept_body ::
  "(string \<Rightarrow> knowledge_envelope option) \<Rightarrow> uuid \<Rightarrow> string \<Rightarrow> string \<Rightarrow> read_error + projection" where
  "accept_body decode analysis expected bytes =
     (case decode bytes of
        None \<Rightarrow> Inl Read_Invalid
      | Some e \<Rightarrow>
          if \<not> linked analysis expected e then Inl Read_Invalid
          else Inr \<lparr>pj_analysis = analysis, pj_digest = ke_hex e, pj_recap = ke_recap e\<rparr>)"

definition accept_response ::
  "(string \<Rightarrow> knowledge_envelope option) \<Rightarrow> nat \<Rightarrow> uuid \<Rightarrow> string \<Rightarrow> http_response \<Rightarrow> read_error + projection" where
  "accept_response decode limit analysis expected response =
     (if is_server_error (ht_status response) then Inl Read_Unavailable
      else if ht_status response \<noteq> 200 then Inl Read_Invalid
      else if \<not> is_json_type (ht_content_type response) then Inl Read_Invalid
      else if (case ht_length response of None \<Rightarrow> False | Some n \<Rightarrow> n > limit) then Inl Read_Invalid
      else and_then (collect_body limit [] (ht_chunks response)) (accept_body decode analysis expected))"

text \<open>\<open>KnowledgeResultReader::read\<close>; \<open>send\<close> is the transport.\<close>

definition read_result ::
  "(http_get \<Rightarrow> unit + http_response) \<Rightarrow> (string \<Rightarrow> knowledge_envelope option) \<Rightarrow> result_reader
     \<Rightarrow> uuid \<Rightarrow> string \<Rightarrow> read_error + projection" where
  "read_result send decode reader analysis expected =
     (if \<not> is_sha256_hex expected then Inl Read_Invalid
      else (case send (result_request reader analysis) of
              Inl _ \<Rightarrow> Inl Read_Unavailable
            | Inr response \<Rightarrow> accept_response decode (rd_limit reader) analysis expected response))"

section \<open>The bounded body\<close>

fun pieces :: "(unit + string) list \<Rightarrow> string list" where
  "pieces (Inr chunk # chunks) = chunk # pieces chunks"
| "pieces _ = []"

fun unbroken :: "(unit + string) list \<Rightarrow> bool" where
  "unbroken [] = True"
| "unbroken (Inl _ # chunks) = False"
| "unbroken (Inr _ # chunks) = unbroken chunks"

text \<open>However the body is cut into chunks, only its length decides.\<close>

lemma collect_body_spec:
  assumes "limit < usize_max" and "length bytes \<le> limit"
  shows "collect_body limit bytes chunks =
     (if length bytes + length (concat (pieces chunks)) > limit then Inl Read_Invalid
      else if \<not> unbroken chunks then Inl Read_Unavailable
      else Inr (bytes @ concat (pieces chunks)))"
  using assms(2)
proof (induction chunks arbitrary: bytes rule: unbroken.induct)
  case (3 chunk chunks)
  show ?case
  proof (cases "length bytes + length chunk > limit")
    case True
    with assms(1) show ?thesis by simp
  next
    case False
    with 3(1) [of "bytes @ chunk"] assms(1) show ?thesis by simp
  qed
qed simp_all

lemma collect_body_whole:
  assumes "limit < usize_max"
  shows "collect_body limit [] chunks = Inr bytes
     \<longleftrightarrow> unbroken chunks \<and> concat (pieces chunks) = bytes \<and> length bytes \<le> limit"
  using collect_body_spec [OF assms, of "[]" chunks] by auto

text \<open>
  C29: the result reader accepts exactly the linked results. With a limit within the configured ceiling, a
  read succeeds if and only if the expected digest is well formed, the transport answers 200 with a
  JSON body that arrives unbroken and fits the limit, however it is cut into chunks, and the decoded
  envelope names this analysis, the expected SHA-256 and an object; what it returns is what Knowledge sent.
\<close>

theorem result_read_exact:
  assumes "rd_limit reader \<le> 65536"
  shows "read_result send decode reader analysis expected = Inr p \<longleftrightarrow>
     (\<exists>response e. send (result_request reader analysis) = Inr response
        \<and> ht_status response = 200 \<and> is_json_type (ht_content_type response)
        \<and> (case ht_length response of None \<Rightarrow> True | Some n \<Rightarrow> n \<le> rd_limit reader)
        \<and> unbroken (ht_chunks response)
        \<and> length (concat (pieces (ht_chunks response))) \<le> rd_limit reader
        \<and> decode (concat (pieces (ht_chunks response))) = Some e
        \<and> is_sha256_hex expected \<and> ke_analysis e = analysis \<and> ke_algorithm e = ''sha256''
        \<and> ke_hex e = expected \<and> is_object (ke_recap e)
        \<and> p = \<lparr>pj_analysis = analysis, pj_digest = expected, pj_recap = ke_recap e\<rparr>)"
proof -
  have "65536 < usize_max" by (simp add: usize_max_def)
  with assms have limit: "rd_limit reader < usize_max" by linarith
  show ?thesis
    by (auto simp: read_result_def accept_response_def accept_body_def linked_def and_then_Inr
        collect_body_whole [OF limit] is_server_error_def split: sum.splits option.splits if_splits)
qed

definition demo_reader :: result_reader where
  "demo_reader = \<lparr>rd_base_url = ''http://127.0.0.1:8096'', rd_secret = ''reader'', rd_limit = 16\<rparr>"

definition demo_hex :: string where
  "demo_hex = replicate 64 (CHR ''a'')"

definition demo_envelope :: knowledge_envelope where
  "demo_envelope = \<lparr>ke_analysis = 9, ke_algorithm = ''sha256'', ke_hex = demo_hex, ke_recap = JObject []\<rparr>"

theorem result_read_exact_witness:
  "\<exists>p. read_result (\<lambda>_. Inr \<lparr>ht_status = 200, ht_content_type = Some ''Application/JSON; q=1'', ht_length = Some 4,
       ht_chunks = [Inr ''re'', Inr ''ca'']\<rparr>) (\<lambda>s. if s = ''reca'' then Some demo_envelope else None)
     demo_reader 9 demo_hex = Inr p"
proof -
  have "is_json_type (Some ''Application/JSON; q=1'')" by code_simp
  moreover have "is_sha256_hex demo_hex" by code_simp
  ultimately show ?thesis
    by (subst result_read_exact) (simp_all add: demo_reader_def demo_envelope_def)
qed

end
