(* ===== verification/Config.thy ===== *)
theory Config
  imports Net ResultReader Registration
begin

text \<open>
  \<open>src/config.rs\<close>: the environment of a role becomes its configuration. Every recognized key has an arm with
  the role it belongs to and its finite parser; any other \<open>RATATOSKR__\<close> key is refused. The parsers of
  user identities, cron expressions, log filters and URIs are parameters.
\<close>

section \<open>The configuration\<close>

datatype role = Api | Worker

record limits =
  lim_request_bytes :: nat
  lim_page_size :: nat
  lim_source_count :: nat
  lim_channel_count :: nat
  lim_source_bytes :: nat
  lim_retry_attempts :: nat
  lim_shutdown_ms :: nat
  lim_deadline_seconds :: nat

record provider_config =
  pv_api_id :: int
  pv_api_hash :: string
  pv_session_file :: string
  pv_session_key_file :: string
  pv_max_concurrency :: nat

record bus_config =
  bus_endpoint :: string
  bus_seed_path :: "string option"

datatype log_format = Json_Lines | Pretty

record telemetry_config =
  tel_format :: log_format
  tel_filter :: string

record retention_config =
  rc_body_days :: nat
  rc_sweep_seconds :: nat

record reader_config =
  kr_base_url :: string
  kr_secret :: string
  kr_connect_ms :: nat
  kr_request_ms :: nat
  kr_max_bytes :: nat

record database_config =
  dbc_url :: string
  dbc_max_connections :: nat
  dbc_acquire_ms :: nat

record config =
  c_role :: role
  c_database :: database_config
  c_api :: socket_addr
  c_operator :: socket_addr
  c_limits :: limits
  c_telemetry :: telemetry_config
  c_provider :: "provider_config option"
  c_bus :: "bus_config option"
  c_schedule :: "schedule_config option"
  c_retention :: "retention_config option"
  c_reader :: "reader_config option"
  c_secret :: string

text \<open>A failure names its key and a fixed reason, never the rejected value.\<close>

datatype config_error = Config_Error string string

record builder =
  b_role :: role
  b_database_url :: "string option"
  b_secret :: "string option"
  b_api_id :: "int option"
  b_api_hash :: "string option"
  b_session_file :: "string option"
  b_session_key_file :: "string option"
  b_bus_endpoint :: "string option"
  b_bus_seed :: "string option"
  b_sched_owner :: "uuid option"
  b_sched_cron :: "string option"
  b_sched_enabled :: "bool option"
  b_sched_language :: "language option"
  b_retention :: retention_config
  b_base_url :: "string option"
  b_reader_secret :: "string option"
  b_connect_ms :: "nat option"
  b_request_ms :: "nat option"
  b_max_bytes :: "nat option"
  b_api :: socket_addr
  b_operator :: socket_addr
  b_limits :: limits
  b_telemetry :: telemetry_config

definition default_cron :: string where
  "default_cron = ''0 6 * * *''"

definition default_filter :: string where
  "default_filter = ''info,hyper=warn,h2=warn,sqlx=warn''"

definition new_builder :: "role \<Rightarrow> builder" where
  "new_builder role =
     \<lparr>b_role = role, b_database_url = None, b_secret = None, b_api_id = None, b_api_hash = None,
      b_session_file = None, b_session_key_file = None, b_bus_endpoint = None, b_bus_seed = None,
      b_sched_owner = None, b_sched_cron = None, b_sched_enabled = None, b_sched_language = None,
      b_retention = \<lparr>rc_body_days = 30, rc_sweep_seconds = 3600\<rparr>,
      b_base_url = None, b_reader_secret = None, b_connect_ms = None, b_request_ms = None, b_max_bytes = None,
      b_api = V4 [127, 0, 0, 1] 8098,
      b_operator = V4 [127, 0, 0, 1] (if role = Api then 9469 else 9470),
      b_limits = \<lparr>lim_request_bytes = 262144, lim_page_size = 100, lim_source_count = 100,
        lim_channel_count = 20, lim_source_bytes = 16384, lim_retry_attempts = 3,
        lim_shutdown_ms = 120000, lim_deadline_seconds = 1800\<rparr>,
      b_telemetry = \<lparr>tel_format = Json_Lines, tel_filter = default_filter\<rparr>\<rparr>"

section \<open>Values\<close>

record uri =
  uri_scheme :: "string option"
  uri_authority :: "string option"
  uri_path_query :: "string option"

record config_codec =
  user_id :: "string \<Rightarrow> uuid option"
  cron_text :: "string \<Rightarrow> string option"
  filter_parses :: "string \<Rightarrow> bool"
  uri_parse :: "string \<Rightarrow> uri option"

type_synonym 'a parsed = "config_error + 'a"

definition or_error :: "string \<Rightarrow> string \<Rightarrow> 'a option \<Rightarrow> 'a parsed" where
  "or_error key reason v = (case v of None \<Rightarrow> Inl (Config_Error key reason) | Some a \<Rightarrow> Inr a)"

definition parse_log_format :: "string \<Rightarrow> string \<Rightarrow> log_format parsed" where
  "parse_log_format key v =
     (if v = ''json'' then Inr Json_Lines else if v = ''pretty'' then Inr Pretty
      else Inl (Config_Error key ''must be json or pretty''))"

definition nonempty :: "string \<Rightarrow> string \<Rightarrow> string parsed" where
  "nonempty key v = (if v = [] then Inl (Config_Error key ''must not be empty'') else Inr v)"

definition parse_log_filter :: "config_codec \<Rightarrow> string \<Rightarrow> string \<Rightarrow> string parsed" where
  "parse_log_filter cx key v =
     and_then (nonempty key v) (\<lambda>v.
     if filter_parses cx v then Inr v
     else Inl (Config_Error key ''must be a valid log filter directive string''))"

definition parse_language :: "string \<Rightarrow> string \<Rightarrow> language parsed" where
  "parse_language key v =
     (if v = ''ru'' then Inr Ru else if v = ''en'' then Inr En
      else Inl (Config_Error key ''must be ru or en''))"

definition parse_bool :: "string \<Rightarrow> string \<Rightarrow> bool parsed" where
  "parse_bool key v =
     (if v = ''true'' then Inr True else if v = ''false'' then Inr False
      else Inl (Config_Error key ''must be true or false''))"

definition bounded_secret :: "string \<Rightarrow> string \<Rightarrow> nat \<Rightarrow> string parsed" where
  "bounded_secret key v maximum =
     and_then (nonempty key v) (\<lambda>v.
     if length v \<le> maximum then Inr v else Inl (Config_Error key ''exceeds the finite byte limit''))"

definition absolute_path :: "string \<Rightarrow> string \<Rightarrow> string parsed" where
  "absolute_path key v =
     (if take 1 v = ''/'' then Inr v else Inl (Config_Error key ''must be an absolute path''))"

definition parse_loopback_address :: "string \<Rightarrow> string \<Rightarrow> socket_addr parsed" where
  "parse_loopback_address key v =
     and_then (or_error key ''must be a loopback socket address'' (parse_socket v)) (\<lambda>a.
     if is_loopback a \<and> port a \<noteq> 0 then Inr a
     else Inl (Config_Error key ''must be a loopback socket address''))"

definition loopback_http_base_url :: "config_codec \<Rightarrow> string \<Rightarrow> string \<Rightarrow> string parsed" where
  "loopback_http_base_url cx key v =
     (let reason = ''must be a loopback HTTP origin'' in
      and_then (or_error key reason (uri_parse cx v)) (\<lambda>uri.
      and_then (or_error key reason (uri_authority uri)) (\<lambda>authority.
      and_then (or_error key reason (parse_socket authority)) (\<lambda>a.
      if uri_scheme uri = Some ''http'' \<and> is_loopback a \<and> port a \<noteq> 0
         \<and> (uri_path_query uri = None \<or> uri_path_query uri = Some ''/'')
      then Inr (''http://'' @ authority) else Inl (Config_Error key reason)))))"

text \<open>\<open>str::parse::<i32>\<close>\<close>

definition parse_i32 :: "string \<Rightarrow> int option" where
  "parse_i32 s =
     (case s of
        [] \<Rightarrow> None
      | c # cs \<Rightarrow>
          if c = CHR ''-''
          then (if cs = [] then None
                else Option.bind (digits_value 0 cs) (\<lambda>n. if n \<le> 2 ^ 31 then Some (- int n) else None))
          else map_option int (parse_unsigned (2 ^ 31 - 1) s))"

definition parse_positive :: "string \<Rightarrow> string \<Rightarrow> int parsed" where
  "parse_positive key v =
     and_then (or_error key ''must be a positive integer'' (parse_i32 v)) (\<lambda>n.
     if n > 0 then Inr n else Inl (Config_Error key ''must be a positive integer''))"

text \<open>\<open>limit\<close> is the maximum of the unsigned type the value is parsed at.\<close>

definition parse_range :: "nat \<Rightarrow> string \<Rightarrow> string \<Rightarrow> nat \<Rightarrow> nat \<Rightarrow> nat parsed" where
  "parse_range limit key v minimum maximum =
     and_then (or_error key ''is outside the finite range'' (parse_unsigned limit v)) (\<lambda>n.
     if minimum \<le> n \<and> n \<le> maximum then Inr n
     else Inl (Config_Error key ''is outside the finite range''))"

definition required :: "'a option \<Rightarrow> string \<Rightarrow> 'a parsed" where
  "required v key = or_error key ''is required'' v"

abbreviation u32_max :: nat where
  "u32_max \<equiv> 2 ^ 32 - 1"

abbreviation u64_max :: nat where
  "u64_max \<equiv> 2 ^ 64 - 1"

section \<open>The arms\<close>

text \<open>An arm: its key, the roles it belongs to, and what its value does to the builder.\<close>

type_synonym arm = "string \<times> (role \<Rightarrow> bool) \<times> (config_codec \<Rightarrow> string \<Rightarrow> string \<Rightarrow> builder \<Rightarrow> builder parsed)"

definition setting :: "(config_codec \<Rightarrow> string \<Rightarrow> string \<Rightarrow> 'a parsed) \<Rightarrow> ('a \<Rightarrow> builder \<Rightarrow> builder)
     \<Rightarrow> config_codec \<Rightarrow> string \<Rightarrow> string \<Rightarrow> builder \<Rightarrow> builder parsed" where
  "setting parse store cx key v b = and_then (parse cx key v) (\<lambda>a. Inr (store a b))"

definition user_value :: "config_codec \<Rightarrow> string \<Rightarrow> string \<Rightarrow> uuid parsed" where
  "user_value cx key v = or_error key ''must be a canonical user UUID'' (user_id cx v)"

definition cron_value :: "config_codec \<Rightarrow> string \<Rightarrow> string \<Rightarrow> string parsed" where
  "cron_value cx key v = or_error key ''must be a five-field UTC cron expression'' (cron_text cx v)"

definition key_arms :: "arm list" where
  "key_arms =
     [(''RATATOSKR__DATABASE__URL'', \<lambda>_. True, setting (\<lambda>_. nonempty) (\<lambda>a b. b\<lparr>b_database_url := Some a\<rparr>)),
      (''RATATOSKR__AUTH__SERVICE_SECRET'', \<lambda>_. True, setting (\<lambda>_. nonempty) (\<lambda>a b. b\<lparr>b_secret := Some a\<rparr>)),
      (''RATATOSKR__PROVIDER__API_ID'', \<lambda>r. r = Worker, setting (\<lambda>_. parse_positive) (\<lambda>a b. b\<lparr>b_api_id := Some a\<rparr>)),
      (''RATATOSKR__PROVIDER__API_HASH'', \<lambda>r. r = Worker, setting (\<lambda>_. nonempty) (\<lambda>a b. b\<lparr>b_api_hash := Some a\<rparr>)),
      (''RATATOSKR__PROVIDER__SESSION_FILE'', \<lambda>r. r = Worker,
        setting (\<lambda>_. absolute_path) (\<lambda>a b. b\<lparr>b_session_file := Some a\<rparr>)),
      (''RATATOSKR__PROVIDER__SESSION_KEY_FILE'', \<lambda>r. r = Worker,
        setting (\<lambda>_. absolute_path) (\<lambda>a b. b\<lparr>b_session_key_file := Some a\<rparr>)),
      (''RATATOSKR__BUS__ENDPOINT'', \<lambda>r. r = Worker, setting (\<lambda>_. nonempty) (\<lambda>a b. b\<lparr>b_bus_endpoint := Some a\<rparr>)),
      (''RATATOSKR__BUS__NKEY_SEED_PATH'', \<lambda>r. r = Worker, setting (\<lambda>_. absolute_path) (\<lambda>a b. b\<lparr>b_bus_seed := Some a\<rparr>)),
      (''RATATOSKR__SCHEDULE__OWNER_USER_ID'', \<lambda>r. r = Worker, setting user_value (\<lambda>a b. b\<lparr>b_sched_owner := Some a\<rparr>)),
      (''RATATOSKR__SCHEDULE__CRON'', \<lambda>r. r = Worker, setting cron_value (\<lambda>a b. b\<lparr>b_sched_cron := Some a\<rparr>)),
      (''RATATOSKR__SCHEDULE__ENABLED'', \<lambda>r. r = Worker, setting (\<lambda>_. parse_bool) (\<lambda>a b. b\<lparr>b_sched_enabled := Some a\<rparr>)),
      (''RATATOSKR__SCHEDULE__OUTPUT_LANGUAGE'', \<lambda>r. r = Worker,
        setting (\<lambda>_. parse_language) (\<lambda>a b. b\<lparr>b_sched_language := Some a\<rparr>)),
      (''RATATOSKR__RETENTION__BODY_DAYS'', \<lambda>r. r = Worker,
        setting (\<lambda>_ k v. parse_range u32_max k v 8 3650) (\<lambda>a b. b\<lparr>b_retention := b_retention b\<lparr>rc_body_days := a\<rparr>\<rparr>)),
      (''RATATOSKR__RETENTION__SWEEP_INTERVAL_SECONDS'', \<lambda>r. r = Worker,
        setting (\<lambda>_ k v. parse_range u64_max k v 60 86400) (\<lambda>a b. b\<lparr>b_retention := b_retention b\<lparr>rc_sweep_seconds := a\<rparr>\<rparr>)),
      (''RATATOSKR__KNOWLEDGE__BASE_URL'', \<lambda>r. r = Api, setting loopback_http_base_url (\<lambda>a b. b\<lparr>b_base_url := Some a\<rparr>)),
      (''RATATOSKR__KNOWLEDGE__RESULT_READER_SERVICE_SECRET'', \<lambda>r. r = Api,
        setting (\<lambda>_ k v. bounded_secret k v 4096) (\<lambda>a b. b\<lparr>b_reader_secret := Some a\<rparr>)),
      (''RATATOSKR__KNOWLEDGE__CONNECT_TIMEOUT_MS'', \<lambda>r. r = Api,
        setting (\<lambda>_ k v. parse_range u64_max k v 1 10000) (\<lambda>a b. b\<lparr>b_connect_ms := Some a\<rparr>)),
      (''RATATOSKR__KNOWLEDGE__REQUEST_TIMEOUT_MS'', \<lambda>r. r = Api,
        setting (\<lambda>_ k v. parse_range u64_max k v 1 30000) (\<lambda>a b. b\<lparr>b_request_ms := Some a\<rparr>)),
      (''RATATOSKR__KNOWLEDGE__MAX_RESPONSE_BYTES'', \<lambda>r. r = Api,
        setting (\<lambda>_ k v. parse_range u64_max k v 1 65536) (\<lambda>a b. b\<lparr>b_max_bytes := Some a\<rparr>)),
      (''RATATOSKR__API__LISTEN_ADDRESS'', \<lambda>r. r = Api, setting (\<lambda>_. parse_loopback_address) (\<lambda>a b. b\<lparr>b_api := a\<rparr>)),
      (''RATATOSKR__OPERATOR__LISTEN_ADDRESS'', \<lambda>_. True, setting (\<lambda>_. parse_loopback_address) (\<lambda>a b. b\<lparr>b_operator := a\<rparr>)),
      (''RATATOSKR__TELEMETRY__LOG_FORMAT'', \<lambda>_. True,
        setting (\<lambda>_. parse_log_format) (\<lambda>a b. b\<lparr>b_telemetry := b_telemetry b\<lparr>tel_format := a\<rparr>\<rparr>)),
      (''RATATOSKR__TELEMETRY__LOG_FILTER'', \<lambda>_. True,
        setting parse_log_filter (\<lambda>a b. b\<lparr>b_telemetry := b_telemetry b\<lparr>tel_filter := a\<rparr>\<rparr>))]"

definition limit_arm :: "string \<Rightarrow> nat \<Rightarrow> nat \<Rightarrow> nat \<Rightarrow> (nat \<Rightarrow> limits \<Rightarrow> limits) \<Rightarrow> arm" where
  "limit_arm key limit minimum maximum store =
     (key, \<lambda>_. True, setting (\<lambda>_ k v. parse_range limit k v minimum maximum)
        (\<lambda>a b. b\<lparr>b_limits := store a (b_limits b)\<rparr>))"

definition limit_arms :: "arm list" where
  "limit_arms =
     [limit_arm ''RATATOSKR__LIMITS__REQUEST_BYTES'' u64_max 1 1048576 (\<lambda>a l. l\<lparr>lim_request_bytes := a\<rparr>),
      limit_arm ''RATATOSKR__LIMITS__PAGE_SIZE'' u64_max 1 100 (\<lambda>a l. l\<lparr>lim_page_size := a\<rparr>),
      limit_arm ''RATATOSKR__LIMITS__SOURCE_COUNT'' u64_max 1 100 (\<lambda>a l. l\<lparr>lim_source_count := a\<rparr>),
      limit_arm ''RATATOSKR__LIMITS__CHANNEL_COUNT'' u64_max 1 20 (\<lambda>a l. l\<lparr>lim_channel_count := a\<rparr>),
      limit_arm ''RATATOSKR__LIMITS__SOURCE_BYTES'' u64_max 1 16384 (\<lambda>a l. l\<lparr>lim_source_bytes := a\<rparr>),
      limit_arm ''RATATOSKR__LIMITS__RETRY_ATTEMPTS'' u32_max 1 10 (\<lambda>a l. l\<lparr>lim_retry_attempts := a\<rparr>),
      limit_arm ''RATATOSKR__LIMITS__RUN_DEADLINE_SECONDS'' u64_max 60 86400 (\<lambda>a l. l\<lparr>lim_deadline_seconds := a\<rparr>),
      limit_arm ''RATATOSKR__LIMITS__SHUTDOWN_TIMEOUT_MS'' u64_max 1 130000 (\<lambda>a l. l\<lparr>lim_shutdown_ms := a\<rparr>)]"

text \<open>\<open>Builder::apply\<close> and \<open>Builder::apply_limit\<close>: the first arm whose key and role match.\<close>

definition matching_arm :: "role \<Rightarrow> string \<Rightarrow> arm list \<Rightarrow> arm option" where
  "matching_arm role key = find (\<lambda>(k, admits, _). k = key \<and> admits role)"

definition apply_limit :: "config_codec \<Rightarrow> string \<Rightarrow> string \<Rightarrow> builder \<Rightarrow> builder parsed" where
  "apply_limit cx key v b =
     (case matching_arm (b_role b) key limit_arms of
        Some (_, _, run) \<Rightarrow> run cx key v b
      | None \<Rightarrow> Inl (Config_Error key ''is not recognized for this role''))"

definition apply_key :: "config_codec \<Rightarrow> string \<Rightarrow> string \<Rightarrow> builder \<Rightarrow> builder parsed" where
  "apply_key cx key v b =
     (case matching_arm (b_role b) key key_arms of
        Some (_, _, run) \<Rightarrow> run cx key v b
      | None \<Rightarrow> apply_limit cx key v b)"

section \<open>Finishing\<close>

definition schedule_of :: "builder \<Rightarrow> schedule_config option parsed" where
  "schedule_of b =
     (case b_sched_owner b of
        None \<Rightarrow>
          if b_sched_cron b \<noteq> None \<or> b_sched_enabled b \<noteq> None \<or> b_sched_language b \<noteq> None
          then Inl (Config_Error ''RATATOSKR__SCHEDULE__OWNER_USER_ID'' ''is required'')
          else Inr None
      | Some owner \<Rightarrow> Inr (Some
          \<lparr>sched_owner = owner,
           sched_cron = (case b_sched_cron b of None \<Rightarrow> default_cron | Some cron \<Rightarrow> cron),
           sched_enabled = (case b_sched_enabled b of None \<Rightarrow> True | Some e \<Rightarrow> e),
           sched_language = (case b_sched_language b of None \<Rightarrow> Ru | Some l \<Rightarrow> l)\<rparr>))"

definition reader_of :: "builder \<Rightarrow> reader_config parsed" where
  "reader_of b =
     and_then (required (b_connect_ms b) ''RATATOSKR__KNOWLEDGE__CONNECT_TIMEOUT_MS'') (\<lambda>connect.
     and_then (required (b_request_ms b) ''RATATOSKR__KNOWLEDGE__REQUEST_TIMEOUT_MS'') (\<lambda>request.
     if connect > request
     then Inl (Config_Error ''RATATOSKR__KNOWLEDGE__CONNECT_TIMEOUT_MS'' ''must not exceed the request timeout'')
     else
       and_then (required (b_base_url b) ''RATATOSKR__KNOWLEDGE__BASE_URL'') (\<lambda>base.
       and_then (required (b_reader_secret b) ''RATATOSKR__KNOWLEDGE__RESULT_READER_SERVICE_SECRET'') (\<lambda>secret.
       and_then (required (b_max_bytes b) ''RATATOSKR__KNOWLEDGE__MAX_RESPONSE_BYTES'') (\<lambda>bytes.
       Inr \<lparr>kr_base_url = base, kr_secret = secret, kr_connect_ms = connect, kr_request_ms = request,
            kr_max_bytes = bytes\<rparr>)))))"

definition provider_of :: "builder \<Rightarrow> provider_config parsed" where
  "provider_of b =
     and_then (required (b_api_id b) ''RATATOSKR__PROVIDER__API_ID'') (\<lambda>api_id.
     and_then (required (b_api_hash b) ''RATATOSKR__PROVIDER__API_HASH'') (\<lambda>hash.
     and_then (required (b_session_file b) ''RATATOSKR__PROVIDER__SESSION_FILE'') (\<lambda>file.
     and_then (required (b_session_key_file b) ''RATATOSKR__PROVIDER__SESSION_KEY_FILE'') (\<lambda>key_file.
     Inr \<lparr>pv_api_id = api_id, pv_api_hash = hash, pv_session_file = file, pv_session_key_file = key_file,
          pv_max_concurrency = 2\<rparr>))))"

definition bus_of :: "builder \<Rightarrow> bus_config parsed" where
  "bus_of b =
     and_then (required (b_bus_endpoint b) ''RATATOSKR__BUS__ENDPOINT'') (\<lambda>endpoint.
     Inr \<lparr>bus_endpoint = endpoint, bus_seed_path = b_bus_seed b\<rparr>)"

definition role_parts ::
  "builder \<Rightarrow> (provider_config option \<times> bus_config option \<times> reader_config option) parsed" where
  "role_parts b =
     (case b_role b of
        Api \<Rightarrow> and_then (reader_of b) (\<lambda>r. Inr (None, None, Some r))
      | Worker \<Rightarrow>
          and_then (provider_of b) (\<lambda>p.
          and_then (bus_of b) (\<lambda>bus. Inr (Some p, Some bus, None))))"

definition finish_config :: "builder \<Rightarrow> config parsed" where
  "finish_config b =
     and_then (schedule_of b) (\<lambda>schedule.
     and_then (required (b_database_url b) ''RATATOSKR__DATABASE__URL'') (\<lambda>url.
     and_then (required (b_secret b) ''RATATOSKR__AUTH__SERVICE_SECRET'') (\<lambda>secret.
     and_then (role_parts b) (\<lambda>(provider, bus, reader).
     Inr \<lparr>c_role = b_role b,
          c_database = \<lparr>dbc_url = url, dbc_max_connections = 8, dbc_acquire_ms = 5000\<rparr>,
          c_api = b_api b, c_operator = b_operator b, c_limits = b_limits b, c_telemetry = b_telemetry b,
          c_provider = provider, c_bus = bus, c_schedule = schedule,
          c_retention = (if b_role b = Worker then Some (b_retention b) else None),
          c_reader = reader, c_secret = secret\<rparr>))))"

section \<open>The environment\<close>

definition key_prefix :: string where
  "key_prefix = ''RATATOSKR__''"

definition prefixed :: "string \<Rightarrow> bool" where
  "prefixed key \<longleftrightarrow> take (length key_prefix) key = key_prefix"

fun apply_entries :: "config_codec \<Rightarrow> (string \<times> string) list \<Rightarrow> builder \<Rightarrow> builder parsed" where
  "apply_entries cx [] b = Inr b"
| "apply_entries cx ((key, v) # entries) b =
     (if prefixed key then and_then (apply_key cx key v b) (apply_entries cx entries)
      else apply_entries cx entries b)"

definition from_environment :: "config_codec \<Rightarrow> role \<Rightarrow> (string \<times> string) list \<Rightarrow> config parsed" where
  "from_environment cx role entries =
     and_then (apply_entries cx entries (new_builder role)) finish_config"

text \<open>\<open>KnowledgeResultReader::from_config\<close>; building the HTTP client is a parameter of the model.\<close>

definition reader_from_config :: "bool \<Rightarrow> config \<Rightarrow> read_error + result_reader" where
  "reader_from_config client_builds c =
     (case c_reader c of
        None \<Rightarrow> Inl Read_Invalid
      | Some policy \<Rightarrow>
          if client_builds
          then Inr \<lparr>rd_base_url = kr_base_url policy, rd_secret = kr_secret policy, rd_limit = kr_max_bytes policy\<rparr>
          else Inl Read_Invalid)"

section \<open>Arms and their effects\<close>

lemma and_then_Inl: "and_then v k = Inl e \<longleftrightarrow> v = Inl e \<or> (\<exists>a. v = Inr a \<and> k a = Inl e)"
  by (cases v) simp_all

lemma matching_armD:
  assumes "matching_arm role key arms = Some (k, admits, run)"
  shows "(key, admits, run) \<in> set arms" and "admits role"
  using assms by (auto simp: matching_arm_def find_Some_iff in_set_conv_nth)

lemma matching_arm_None:
  "matching_arm role key arms = None \<longleftrightarrow> (\<forall>(k, admits, run) \<in> set arms. k = key \<longrightarrow> \<not> admits role)"
  by (auto simp: matching_arm_def find_None_iff)

lemma apply_key_arm:
  assumes "apply_key cx key v b = Inr b'"
  obtains admits run where "(key, admits, run) \<in> set (key_arms @ limit_arms)" and "admits (b_role b)"
    and "run cx key v b = Inr b'"
  using assms that
  by (fastforce simp: apply_key_def apply_limit_def split: option.splits prod.splits dest: matching_armD)

text \<open>
  What every arm keeps: the values it stores passed their parser. The invariant of a builder says so of
  all of its fields.
\<close>

definition loopback :: "socket_addr \<Rightarrow> bool" where
  "loopback a \<longleftrightarrow> valid_socket a \<and> is_loopback a \<and> port a \<noteq> 0"

definition absolute :: "string \<Rightarrow> bool" where
  "absolute path \<longleftrightarrow> take 1 path = ''/''"

definition limits_ok :: "limits \<Rightarrow> bool" where
  "limits_ok l \<longleftrightarrow>
     lim_request_bytes l \<in> {1..1048576} \<and> lim_page_size l \<in> {1..100} \<and> lim_source_count l \<in> {1..100}
     \<and> lim_channel_count l \<in> {1..20} \<and> lim_source_bytes l \<in> {1..16384} \<and> lim_retry_attempts l \<in> {1..10}
     \<and> lim_shutdown_ms l \<in> {1..130000} \<and> lim_deadline_seconds l \<in> {60..86400}"

definition retention_ok :: "retention_config \<Rightarrow> bool" where
  "retention_ok r \<longleftrightarrow> rc_body_days r \<in> {8..3650} \<and> rc_sweep_seconds r \<in> {60..86400}"

abbreviation holds :: "('a \<Rightarrow> bool) \<Rightarrow> 'a option \<Rightarrow> bool" where
  "holds P v \<equiv> pred_option P v"

definition builder_ok :: "builder \<Rightarrow> bool" where
  "builder_ok b \<longleftrightarrow>
     holds (\<lambda>s. s \<noteq> []) (b_database_url b) \<and> holds (\<lambda>s. s \<noteq> []) (b_secret b) \<and> holds (\<lambda>n. n > 0) (b_api_id b)
     \<and> holds (\<lambda>s. s \<noteq> []) (b_api_hash b) \<and> holds absolute (b_session_file b)
     \<and> holds absolute (b_session_key_file b) \<and> holds (\<lambda>s. s \<noteq> []) (b_bus_endpoint b)
     \<and> holds absolute (b_bus_seed b) \<and> retention_ok (b_retention b)
     \<and> holds (\<lambda>s. s \<noteq> [] \<and> length s \<le> 4096) (b_reader_secret b)
     \<and> holds (\<lambda>n. n \<in> {1..10000}) (b_connect_ms b) \<and> holds (\<lambda>n. n \<in> {1..30000}) (b_request_ms b)
     \<and> holds (\<lambda>n. n \<in> {1..65536}) (b_max_bytes b) \<and> loopback (b_api b) \<and> loopback (b_operator b)
     \<and> limits_ok (b_limits b)"

lemmas value_defs = setting_def and_then_Inr or_error_def nonempty_def bounded_secret_def absolute_path_def
  parse_loopback_address_def parse_positive_def parse_range_def

lemma value_bounds:
  "nonempty key v = Inr a \<Longrightarrow> a \<noteq> []"
  "bounded_secret key v n = Inr a \<Longrightarrow> a \<noteq> [] \<and> length a \<le> n"
  "absolute_path key v = Inr a \<Longrightarrow> absolute a"
  "parse_positive key v = Inr i \<Longrightarrow> i > 0"
  "parse_range limit key v lo hi = Inr m \<Longrightarrow> m \<in> {lo..hi}"
  "parse_loopback_address key v = Inr s \<Longrightarrow> loopback s"
  by (auto simp: value_defs absolute_def loopback_def parse_socket_valid split: option.splits if_splits)

definition arm_keeps :: "(builder \<Rightarrow> bool) \<Rightarrow> arm \<Rightarrow> bool" where
  "arm_keeps I a \<longleftrightarrow> (case a of (_, _, run) \<Rightarrow>
     \<forall>cx key v b b'. run cx key v b = Inr b' \<longrightarrow> I b \<longrightarrow> I b')"

lemma setting_keeps:
  assumes "\<And>cx key v a b. parse cx key v = Inr a \<Longrightarrow> I b \<Longrightarrow> I (store a b)"
  shows "arm_keeps I (key, admits, setting parse store)"
  using assms by (auto simp: arm_keeps_def setting_def and_then_Inr)

lemma key_arms_keep: "list_all (arm_keeps builder_ok) key_arms"
  unfolding key_arms_def list.pred_inject
  by (intro conjI TrueI setting_keeps) (auto simp: builder_ok_def retention_ok_def dest: value_bounds)

lemma limit_arms_keep: "list_all (arm_keeps builder_ok) limit_arms"
  unfolding limit_arms_def limit_arm_def list.pred_inject
  by (intro conjI TrueI setting_keeps) (auto simp: builder_ok_def limits_ok_def dest: value_bounds)

lemma arms_keep_role: "list_all (arm_keeps (\<lambda>b. b_role b = role)) (key_arms @ limit_arms)"
  unfolding key_arms_def limit_arms_def limit_arm_def append.simps list.pred_inject
  by (intro conjI TrueI setting_keeps) simp_all

lemma apply_key_keeps:
  assumes "list_all (arm_keeps I) (key_arms @ limit_arms)" and "apply_key cx key v b = Inr b'" and "I b"
  shows "I b'"
proof -
  from assms(2) obtain admits run where "(key, admits, run) \<in> set (key_arms @ limit_arms)"
    and run: "run cx key v b = Inr b'"
    by (rule apply_key_arm)
  with assms(1) have "arm_keeps I (key, admits, run)" by (simp only: list_all_iff)
  with run assms(3) show ?thesis unfolding arm_keeps_def prod.case by blast
qed

lemma apply_entries_keep:
  assumes "list_all (arm_keeps I) (key_arms @ limit_arms)"
  shows "apply_entries cx entries b = Inr b' \<Longrightarrow> I b \<Longrightarrow> I b'"
proof (induction cx entries b rule: apply_entries.induct)
  case (2 cx key v entries b)
  show ?case
  proof (cases "prefixed key")
    case True
    with 2(3) obtain b1 where one: "apply_key cx key v b = Inr b1" and rest: "apply_entries cx entries b1 = Inr b'"
      by (auto simp: and_then_Inr)
    have "I b1" by (rule apply_key_keeps [OF assms one 2(4)])
    with 2(1) [OF True rest] show ?thesis .
  next
    case False
    with 2(3) have "apply_entries cx entries b = Inr b'" by simp
    then show ?thesis by (rule 2(2) [OF False]) (rule 2(4))
  qed
qed simp

lemma built_ok:
  assumes "apply_entries cx entries (new_builder role) = Inr b"
  shows "builder_ok b" and "b_role b = role"
proof -
  have "builder_ok (new_builder role)"
    by (simp add: builder_ok_def new_builder_def retention_ok_def limits_ok_def loopback_def)
  moreover have "list_all (arm_keeps builder_ok) (key_arms @ limit_arms)"
    using key_arms_keep limit_arms_keep by simp
  ultimately show "builder_ok b" using apply_entries_keep assms by blast
  have "b_role (new_builder role) = role" by (simp add: new_builder_def)
  with apply_entries_keep [OF arms_keep_role assms, of role] show "b_role b = role" by blast
qed

lemma required_Inr: "required v key = Inr a \<longleftrightarrow> v = Some a"
  by (auto simp: required_def or_error_def split: option.split)

lemma loaded_parts:
  assumes "from_environment cx role entries = Inr c"
  shows "c_role c = role \<and> dbc_max_connections (c_database c) = 8 \<and> dbc_acquire_ms (c_database c) = 5000
     \<and> limits_ok (c_limits c) \<and> loopback (c_api c) \<and> loopback (c_operator c)
     \<and> dbc_url (c_database c) \<noteq> [] \<and> c_secret c \<noteq> []
     \<and> (case role of
          Api \<Rightarrow> c_provider c = None \<and> c_bus c = None \<and> c_retention c = None
            \<and> (\<exists>r. c_reader c = Some r \<and> kr_secret r \<noteq> [] \<and> length (kr_secret r) \<le> 4096
                 \<and> 1 \<le> kr_connect_ms r \<and> kr_connect_ms r \<le> kr_request_ms r \<and> kr_request_ms r \<le> 30000
                 \<and> 1 \<le> kr_max_bytes r \<and> kr_max_bytes r \<le> 65536)
        | Worker \<Rightarrow> c_reader c = None
            \<and> (\<exists>p. c_provider c = Some p \<and> pv_api_id p > 0 \<and> pv_api_hash p \<noteq> []
                 \<and> absolute (pv_session_file p) \<and> absolute (pv_session_key_file p))
            \<and> (\<exists>bus. c_bus c = Some bus \<and> bus_endpoint bus \<noteq> [] \<and> holds absolute (bus_seed_path bus))
            \<and> (\<exists>r. c_retention c = Some r \<and> retention_ok r))"
proof -
  from assms obtain b where built: "apply_entries cx entries (new_builder role) = Inr b"
    and finish: "finish_config b = Inr c"
    by (auto simp: from_environment_def and_then_Inr)
  note ok = built_ok [OF built]
  from finish obtain schedule url secret provider bus reader where
    parts: "b_database_url b = Some url" "b_secret b = Some secret" "role_parts b = Inr (provider, bus, reader)"
    and c: "c = \<lparr>c_role = b_role b,
          c_database = \<lparr>dbc_url = url, dbc_max_connections = 8, dbc_acquire_ms = 5000\<rparr>,
          c_api = b_api b, c_operator = b_operator b, c_limits = b_limits b, c_telemetry = b_telemetry b,
          c_provider = provider, c_bus = bus, c_schedule = schedule,
          c_retention = (if b_role b = Worker then Some (b_retention b) else None),
          c_reader = reader, c_secret = secret\<rparr>"
    by (auto simp: finish_config_def and_then_Inr required_Inr)
  show ?thesis
  proof (cases role)
    case Api
    with parts(3) ok(2) obtain r where "reader_of b = Inr r" "provider = None" "bus = None" "reader = Some r"
      by (auto simp: role_parts_def and_then_Inr)
    with Api ok parts(1,2) show ?thesis
      by (auto simp: c builder_ok_def reader_of_def and_then_Inr required_Inr split: if_splits)
  next
    case Worker
    with parts(3) ok(2) obtain p where "provider_of b = Inr p" "bus_of b = Inr (the bus)" "bus \<noteq> None"
        "provider = Some p" "reader = None"
      by (auto simp: role_parts_def and_then_Inr)
    with Worker ok parts(1,2) show ?thesis
      by (auto simp: c builder_ok_def provider_of_def bus_of_def and_then_Inr required_Inr)
  qed
qed

text \<open>
  C30: a configuration that loads is bounded and role-scoped, whatever the environment. Every limit is
  within its finite range, both listeners are loopback sockets with a port, no secret is empty. The API
  role holds the bounded reader policy and nothing of the worker; the worker holds the provider, the
  bus, the retention and perhaps a schedule, and no reader.
\<close>

theorem config_sound:
  assumes "from_environment cx role entries = Inr c"
  shows "c_role c = role \<and> limits_ok (c_limits c) \<and> loopback (c_api c) \<and> loopback (c_operator c)
     \<and> dbc_url (c_database c) \<noteq> [] \<and> c_secret c \<noteq> []
     \<and> (case role of
          Api \<Rightarrow> c_provider c = None \<and> c_bus c = None \<and> c_retention c = None
            \<and> (\<exists>r. c_reader c = Some r \<and> kr_secret r \<noteq> [] \<and> length (kr_secret r) \<le> 4096
                 \<and> 1 \<le> kr_connect_ms r \<and> kr_connect_ms r \<le> kr_request_ms r \<and> kr_request_ms r \<le> 30000
                 \<and> 1 \<le> kr_max_bytes r \<and> kr_max_bytes r \<le> 65536)
        | Worker \<Rightarrow> c_reader c = None
            \<and> (\<exists>p. c_provider c = Some p \<and> pv_api_id p > 0 \<and> pv_api_hash p \<noteq> []
                 \<and> absolute (pv_session_file p) \<and> absolute (pv_session_key_file p))
            \<and> (\<exists>bus. c_bus c = Some bus \<and> bus_endpoint bus \<noteq> [] \<and> holds absolute (bus_seed_path bus))
            \<and> (\<exists>r. c_retention c = Some r \<and> retention_ok r))"
  using loaded_parts [OF assms] by simp

section \<open>What is refused\<close>

definition common_keys :: "string list" where
  "common_keys =
     [''RATATOSKR__DATABASE__URL'', ''RATATOSKR__AUTH__SERVICE_SECRET'', ''RATATOSKR__OPERATOR__LISTEN_ADDRESS'',
      ''RATATOSKR__TELEMETRY__LOG_FORMAT'', ''RATATOSKR__TELEMETRY__LOG_FILTER'',
      ''RATATOSKR__LIMITS__REQUEST_BYTES'', ''RATATOSKR__LIMITS__PAGE_SIZE'', ''RATATOSKR__LIMITS__SOURCE_COUNT'',
      ''RATATOSKR__LIMITS__CHANNEL_COUNT'', ''RATATOSKR__LIMITS__SOURCE_BYTES'',
      ''RATATOSKR__LIMITS__RETRY_ATTEMPTS'', ''RATATOSKR__LIMITS__RUN_DEADLINE_SECONDS'',
      ''RATATOSKR__LIMITS__SHUTDOWN_TIMEOUT_MS'']"

fun role_keys :: "role \<Rightarrow> string list" where
  "role_keys Api =
     [''RATATOSKR__KNOWLEDGE__BASE_URL'', ''RATATOSKR__KNOWLEDGE__RESULT_READER_SERVICE_SECRET'',
      ''RATATOSKR__KNOWLEDGE__CONNECT_TIMEOUT_MS'', ''RATATOSKR__KNOWLEDGE__REQUEST_TIMEOUT_MS'',
      ''RATATOSKR__KNOWLEDGE__MAX_RESPONSE_BYTES'', ''RATATOSKR__API__LISTEN_ADDRESS'']"
| "role_keys Worker =
     [''RATATOSKR__PROVIDER__API_ID'', ''RATATOSKR__PROVIDER__API_HASH'', ''RATATOSKR__PROVIDER__SESSION_FILE'',
      ''RATATOSKR__PROVIDER__SESSION_KEY_FILE'', ''RATATOSKR__BUS__ENDPOINT'', ''RATATOSKR__BUS__NKEY_SEED_PATH'',
      ''RATATOSKR__SCHEDULE__OWNER_USER_ID'', ''RATATOSKR__SCHEDULE__CRON'', ''RATATOSKR__SCHEDULE__ENABLED'',
      ''RATATOSKR__SCHEDULE__OUTPUT_LANGUAGE'', ''RATATOSKR__RETENTION__BODY_DAYS'',
      ''RATATOSKR__RETENTION__SWEEP_INTERVAL_SECONDS'']"

lemma arms_known: "list_all (\<lambda>(key, admits, run). \<forall>role. admits role \<longrightarrow> key \<in> set (common_keys @ role_keys role))
   (key_arms @ limit_arms)"
  unfolding key_arms_def limit_arms_def limit_arm_def append.simps list.pred_inject prod.case
  by (intro conjI TrueI allI impI; simp add: common_keys_def)

lemma apply_entries_known:
  assumes "apply_entries cx entries b = Inr b'" and "b_role b = role" and "(key, v) \<in> set entries"
    and "prefixed key"
  shows "key \<in> set (common_keys @ role_keys role)"
  using assms
proof (induction cx entries b rule: apply_entries.induct)
  case (2 cx k u entries b)
  show ?case
  proof (cases "prefixed k")
    case True
    with 2(3) obtain b1 where one: "apply_key cx k u b = Inr b1" and rest: "apply_entries cx entries b1 = Inr b'"
      by (auto simp: and_then_Inr)
    show ?thesis
    proof (cases "(key, v) \<in> set entries")
      case more: True
      have "b_role b1 = role" by (rule apply_key_keeps [OF arms_keep_role one 2(4)])
      with 2(1) [OF True rest _ more 2(6)] show ?thesis .
    next
      case False
      with 2(5) have "key = k" by simp
      moreover obtain admits run where "(k, admits, run) \<in> set (key_arms @ limit_arms)" and "admits role"
        using one 2(4) by (auto elim: apply_key_arm)
      ultimately show ?thesis using arms_known unfolding list_all_iff by blast
    qed
  next
    case False
    with 2(3,5,6) have "apply_entries cx entries b = Inr b'" "(key, v) \<in> set entries" by auto
    then show ?thesis using 2(2) [OF False] 2(4,6) by blast
  qed
qed simp

definition safe_reasons :: "string list" where
  "safe_reasons =
     [''must be json or pretty'', ''must not be empty'', ''must be a valid log filter directive string'',
      ''must be ru or en'', ''must be true or false'', ''exceeds the finite byte limit'',
      ''must be an absolute path'', ''must be a loopback socket address'', ''must be a loopback HTTP origin'',
      ''must be a positive integer'', ''is outside the finite range'', ''must be a canonical user UUID'',
      ''must be a five-field UTC cron expression'', ''is not recognized for this role'',
      ''is required'', ''must not exceed the request timeout'']"

fun error_reason :: "config_error \<Rightarrow> string" where
  "error_reason (Config_Error key reason) = reason"

fun error_key :: "config_error \<Rightarrow> string" where
  "error_key (Config_Error key reason) = key"

lemma value_errors:
  "parse_log_format key v = Inl e \<Longrightarrow> e = Config_Error key ''must be json or pretty''"
  "nonempty key v = Inl e \<Longrightarrow> e = Config_Error key ''must not be empty''"
  "parse_log_filter cx key v = Inl e
     \<Longrightarrow> e = Config_Error key ''must not be empty'' \<or> e = Config_Error key ''must be a valid log filter directive string''"
  "parse_language key v = Inl e \<Longrightarrow> e = Config_Error key ''must be ru or en''"
  "parse_bool key v = Inl e \<Longrightarrow> e = Config_Error key ''must be true or false''"
  "bounded_secret key v n = Inl e
     \<Longrightarrow> e = Config_Error key ''must not be empty'' \<or> e = Config_Error key ''exceeds the finite byte limit''"
  "absolute_path key v = Inl e \<Longrightarrow> e = Config_Error key ''must be an absolute path''"
  "parse_loopback_address key v = Inl e \<Longrightarrow> e = Config_Error key ''must be a loopback socket address''"
  "loopback_http_base_url cx key v = Inl e \<Longrightarrow> e = Config_Error key ''must be a loopback HTTP origin''"
  "parse_positive key v = Inl e \<Longrightarrow> e = Config_Error key ''must be a positive integer''"
  "parse_range limit key v lo hi = Inl e \<Longrightarrow> e = Config_Error key ''is outside the finite range''"
  "user_value cx key v = Inl e \<Longrightarrow> e = Config_Error key ''must be a canonical user UUID''"
  "cron_value cx key v = Inl e \<Longrightarrow> e = Config_Error key ''must be a five-field UTC cron expression''"
  "required x key = Inl e \<Longrightarrow> e = Config_Error key ''is required''"
  by (auto simp: parse_log_format_def nonempty_def parse_log_filter_def and_then_Inl and_then_Inr parse_language_def
      parse_bool_def bounded_secret_def absolute_path_def parse_loopback_address_def or_error_def
      loopback_http_base_url_def Let_def parse_positive_def parse_range_def user_value_def cron_value_def
      required_def split: if_splits option.splits)

definition arm_safe :: "arm \<Rightarrow> bool" where
  "arm_safe a \<longleftrightarrow> (case a of (_, _, run) \<Rightarrow>
     \<forall>cx key v b e. run cx key v b = Inl e \<longrightarrow> error_key e = key \<and> error_reason e \<in> set safe_reasons)"

lemma setting_safe:
  assumes "\<And>cx key v e. parse cx key v = Inl e \<Longrightarrow> error_key e = key \<and> error_reason e \<in> set safe_reasons"
  shows "arm_safe (key, admits, setting parse store)"
  using assms by (auto simp: arm_safe_def setting_def and_then_Inl)

lemma arms_safe: "list_all arm_safe (key_arms @ limit_arms)"
  unfolding key_arms_def limit_arms_def limit_arm_def append.simps list.pred_inject
  by (intro conjI TrueI setting_safe) (auto simp: safe_reasons_def dest: value_errors)

lemma apply_key_safe:
  assumes "apply_key cx key v b = Inl e"
  shows "error_key e = key \<and> error_reason e \<in> set safe_reasons"
proof (cases "\<exists>admits run. (key, admits, run) \<in> set (key_arms @ limit_arms) \<and> run cx key v b = Inl e")
  case True
  with arms_safe show ?thesis unfolding list_all_iff arm_safe_def by fast
next
  case False
  with assms have "e = Config_Error key ''is not recognized for this role''"
    by (fastforce simp: apply_key_def apply_limit_def split: option.splits prod.splits dest: matching_armD)
  then show ?thesis by (simp add: safe_reasons_def)
qed

lemma apply_entries_safe:
  "apply_entries cx entries b = Inl e
     \<Longrightarrow> error_key e \<in> fst ` set entries \<and> error_reason e \<in> set safe_reasons"
  by (induction cx entries b rule: apply_entries.induct)
    (fastforce simp: and_then_Inl split: if_splits dest: apply_key_safe)+

text \<open>Finishing blames only keys of the role.\<close>

definition blaming :: "string list \<Rightarrow> 'a parsed \<Rightarrow> bool" where
  "blaming ks v \<longleftrightarrow> (\<forall>e. v = Inl e \<longrightarrow> error_key e \<in> set ks \<and> error_reason e \<in> set safe_reasons)"

named_theorems blaming_intros \<open>closure rules of safe errors\<close>

lemma blaming_rules [blaming_intros]:
  "blaming ks (Inr a)"
  "blaming ks v \<Longrightarrow> (\<And>a. blaming ks (k a)) \<Longrightarrow> blaming ks (and_then v k)"
  "blaming ks m \<Longrightarrow> blaming ks n \<Longrightarrow> blaming ks (if c then m else n)"
  "blaming ks m \<Longrightarrow> (\<And>a. blaming ks (k a)) \<Longrightarrow> blaming ks (case z of None \<Rightarrow> m | Some a \<Rightarrow> k a)"
  "key \<in> set ks \<Longrightarrow> blaming ks (required z key)"
  "key \<in> set ks \<Longrightarrow> blaming ks (Inl (Config_Error key ''is required''))"
  "key \<in> set ks \<Longrightarrow> blaming ks (Inl (Config_Error key ''must not exceed the request timeout''))"
  by (auto simp: blaming_def and_then_Inl required_def or_error_def safe_reasons_def split: option.split)

lemma blaming_parts:
  "role_keys Api = ks \<Longrightarrow> blaming ks (reader_of b)"
  "role_keys Worker = ks \<Longrightarrow> blaming ks (provider_of b)"
  "role_keys Worker = ks \<Longrightarrow> blaming ks (bus_of b)"
  by (unfold reader_of_def provider_of_def bus_of_def; intro blaming_intros; force)+

lemma blaming_schedule: "blaming [''RATATOSKR__SCHEDULE__OWNER_USER_ID''] (schedule_of b)"
  unfolding schedule_of_def by (intro blaming_intros) simp

lemma blaming_mono: "blaming ks v \<Longrightarrow> set ks \<subseteq> set ls \<Longrightarrow> blaming ls v"
  by (auto simp: blaming_def)

lemma blaming_role_parts: "blaming (role_keys (b_role b)) (role_parts b)"
  unfolding role_parts_def
  by (cases "b_role b") (simp_all only: role.case, (intro blaming_intros blaming_parts refl)+)

lemma blaming_finish:
  "blaming (''RATATOSKR__SCHEDULE__OWNER_USER_ID'' # common_keys @ role_keys (b_role b)) (finish_config b)"
  unfolding finish_config_def
proof (intro blaming_rules(2))
  let ?ks = "''RATATOSKR__SCHEDULE__OWNER_USER_ID'' # common_keys @ role_keys (b_role b)"
  show "blaming ?ks (schedule_of b)" by (rule blaming_mono [OF blaming_schedule]) simp
  show "blaming ?ks (role_parts b)" by (rule blaming_mono [OF blaming_role_parts]) auto
  show "blaming ?ks (required (b_database_url b) ''RATATOSKR__DATABASE__URL'')"
    "blaming ?ks (required (b_secret b) ''RATATOSKR__AUTH__SERVICE_SECRET'')"
    by (intro blaming_intros; simp add: common_keys_def)+
qed (simp add: blaming_def split: prod.split)

lemma finish_config_safe:
  assumes "finish_config b = Inl e"
  shows "error_key e \<in> set (''RATATOSKR__SCHEDULE__OWNER_USER_ID'' # common_keys @ role_keys (b_role b))
     \<and> error_reason e \<in> set safe_reasons"
  using blaming_finish [of b] assms unfolding blaming_def by blast

text \<open>
  C31: the environment is closed and its errors are safe. A configuration loads only when every
  \<open>RATATOSKR__\<close> key belongs to the role, so that no role accepts the authority of the other one; and
  when it does not load, the error is one of sixteen fixed reasons and names a key, never a value.
\<close>

theorem config_closed:
  "case from_environment cx role entries of
     Inr c \<Rightarrow> set (filter prefixed (map fst entries)) \<subseteq> set (common_keys @ role_keys role)
   | Inl (Config_Error key reason) \<Rightarrow> reason \<in> set safe_reasons
       \<and> (key \<in> fst ` set entries \<or> key \<in> set (common_keys @ role_keys role)
          \<or> key = ''RATATOSKR__SCHEDULE__OWNER_USER_ID'')"
proof (cases "from_environment cx role entries")
  case (Inr c)
  then obtain b where "apply_entries cx entries (new_builder role) = Inr b"
    by (auto simp: from_environment_def and_then_Inr)
  from apply_entries_known [OF this] have "set (filter prefixed (map fst entries)) \<subseteq> set (common_keys @ role_keys role)"
    unfolding new_builder_def by fastforce
  with Inr show ?thesis by simp
next
  case (Inl e)
  obtain key reason where e: "e = Config_Error key reason" by (cases e)
  from Inl consider "apply_entries cx entries (new_builder role) = Inl e"
    | b where "apply_entries cx entries (new_builder role) = Inr b" "finish_config b = Inl e"
    by (auto simp: from_environment_def and_then_Inl)
  then show ?thesis
  proof cases
    case 1
    from apply_entries_safe [OF this] Inl e show ?thesis by simp
  next
    case (2 b)
    from finish_config_safe [OF 2(2)] built_ok(2) [OF 2(1)] Inl e show ?thesis by auto
  qed
qed

text \<open>
  The listener accepts exactly the loopback addresses. The text of every IPv4 socket address parses
  back to its octets and port, and is accepted as a listener exactly when its first octet is 127 and
  its port is not zero.
\<close>

theorem loopback_text_roundtrip:
  assumes "a < 256" "b < 256" "c < 256" "d < 256" and "p < 65536"
  shows "parse_loopback_address key (v4_text a b c d p) =
     (if a = 127 \<and> p \<noteq> 0 then Inr (V4 [a, b, c, d] p)
      else Inl (Config_Error key ''must be a loopback socket address''))"
  using parse_socket_text [OF assms] by (simp add: parse_loopback_address_def or_error_def)

theorem loopback_text_roundtrip_witness:
  "parse_loopback_address ''key'' (v4_text 127 0 0 1 8098) = Inr (V4 [127, 0, 0, 1] 8098)"
  by (subst loopback_text_roundtrip) simp_all

section \<open>An instance\<close>

definition demo_cfg :: config_codec where
  "demo_cfg =
     \<lparr>user_id = (\<lambda>_. Some 1), cron_text = Some, filter_parses = (\<lambda>_. True),
      uri_parse = (\<lambda>s. Some \<lparr>uri_scheme = Some ''http'', uri_authority = Some (drop 7 s), uri_path_query = None\<rparr>)\<rparr>"

definition demo_env :: "(string \<times> string) list" where
  "demo_env =
     [(''PATH'', ''/bin''), (''RATATOSKR__DATABASE__URL'', ''db''), (''RATATOSKR__AUTH__SERVICE_SECRET'', ''secret''),
      (''RATATOSKR__KNOWLEDGE__BASE_URL'', ''http://'' @ v4_text 127 0 0 1 8096),
      (''RATATOSKR__KNOWLEDGE__RESULT_READER_SERVICE_SECRET'', ''reader''),
      (''RATATOSKR__KNOWLEDGE__CONNECT_TIMEOUT_MS'', nat_text 100),
      (''RATATOSKR__KNOWLEDGE__REQUEST_TIMEOUT_MS'', nat_text 200),
      (''RATATOSKR__KNOWLEDGE__MAX_RESPONSE_BYTES'', nat_text 65536),
      (''RATATOSKR__LIMITS__PAGE_SIZE'', nat_text 20)]"

lemma demo_loads:
  "\<exists>c. from_environment demo_cfg Api demo_env = Inr c \<and> lim_page_size (c_limits c) = 20"
proof -
  have "parse_socket (v4_text 127 0 0 1 8096) = Some (V4 [127, 0, 0, 1] 8096)" by (rule parse_socket_text) simp_all
  then show ?thesis
    by (simp add: from_environment_def demo_env_def prefixed_def key_prefix_def apply_key_def apply_limit_def
        matching_arm_def key_arms_def limit_arms_def limit_arm_def new_builder_def setting_def nonempty_def
        loopback_http_base_url_def demo_cfg_def or_error_def bounded_secret_def parse_range_def
        parse_unsigned_nat_text finish_config_def schedule_of_def required_def role_parts_def reader_of_def)
qed

theorem config_sound_witness:
  "\<exists>c r. from_environment demo_cfg Api demo_env = Inr c \<and> c_reader c = Some r \<and> kr_max_bytes r \<le> 65536
     \<and> c_provider c = None"
proof -
  obtain c where loads: "from_environment demo_cfg Api demo_env = Inr c" using demo_loads by blast
  from config_sound [OF this] have "c_provider c = None \<and> (\<exists>r. c_reader c = Some r \<and> kr_max_bytes r \<le> 65536)"
    by auto
  with loads show ?thesis by blast
qed

end
