(* ===== verification/Session.thy ===== *)
theory Session
  imports Config
begin

unbundle bit_operations_syntax

text \<open>
  \<open>src/session.rs\<close>: the provider session is read from two private files and authenticated. The file system
  and the cipher are parameters: \<open>stat\<close> and \<open>contents\<close> answer for a path, \<open>decrypt\<close> takes the key, the
  nonce, the ciphertext and the associated data.
\<close>

record metadata =
  md_is_file :: bool
  md_len :: nat
  md_mode :: "32 word"

definition nonce_bytes :: nat where
  "nonce_bytes = 24"

definition key_bytes :: nat where
  "key_bytes = 32"

definition max_session_bytes :: nat where
  "max_session_bytes = 1048576"

definition associated_data :: string where
  "associated_data = ''ratatoskr-channel-digests-session-v1''"

datatype session_error = Session_Invalid

text \<open>\<open>mode & 0o077 != 0\<close> and \<open>mode & 0o400 == 0\<close>, the masks in decimal.\<close>

definition read_private_file ::
  "(string \<Rightarrow> metadata option) \<Rightarrow> (string \<Rightarrow> string option) \<Rightarrow> string \<Rightarrow> nat \<Rightarrow> session_error + string" where
  "read_private_file stat contents path maximum =
     (case stat path of
        None \<Rightarrow> Inl Session_Invalid
      | Some m \<Rightarrow>
          if \<not> md_is_file m \<or> md_len m = 0 \<or> md_len m > maximum
             \<or> md_mode m AND 63 \<noteq> 0 \<or> md_mode m AND 256 = 0
          then Inl Session_Invalid
          else (case contents path of None \<Rightarrow> Inl Session_Invalid | Some bytes \<Rightarrow> Inr bytes))"

definition load_session ::
  "(string \<Rightarrow> metadata option) \<Rightarrow> (string \<Rightarrow> string option)
     \<Rightarrow> (string \<Rightarrow> string \<Rightarrow> string \<Rightarrow> string \<Rightarrow> string option) \<Rightarrow> provider_config \<Rightarrow> session_error + string" where
  "load_session stat contents decrypt c =
     and_then (read_private_file stat contents (pv_session_key_file c) key_bytes) (\<lambda>key.
     if length key \<noteq> key_bytes then Inl Session_Invalid
     else and_then (read_private_file stat contents (pv_session_file c) max_session_bytes) (\<lambda>encrypted.
       if length encrypted \<le> nonce_bytes then Inl Session_Invalid
       else (case decrypt key (take nonce_bytes encrypted) (drop nonce_bytes encrypted) associated_data of
               None \<Rightarrow> Inl Session_Invalid
             | Some plaintext \<Rightarrow> if plaintext = [] then Inl Session_Invalid else Inr plaintext)))"

section \<open>Private files\<close>

text \<open>The permission bits: others and group are 0 to 5, the owner's read bit is 8.\<close>

definition private_mode :: "32 word \<Rightarrow> bool" where
  "private_mode mode \<longleftrightarrow> list_all (\<lambda>i. \<not> bit mode i) [0..<6] \<and> bit mode 8"

lemma group_mask: "mode AND 63 = 0 \<longleftrightarrow> list_all (\<lambda>i. \<not> bit mode i) [0..<6]" for mode :: "32 word"
proof -
  have "(63 :: 32 word) = mask 6" by (simp add: mask_eq_exp_minus_1)
  then have "mode AND 63 = take_bit 6 mode" by (simp add: take_bit_eq_mask)
  moreover have "take_bit 6 mode = 0 \<longleftrightarrow> (\<forall>i < 6. \<not> bit mode i)"
    by (auto simp: bit_eq_iff bit_take_bit_iff)
  ultimately show ?thesis by (auto simp: list_all_iff)
qed

lemma owner_mask: "mode AND 256 = 0 \<longleftrightarrow> \<not> bit mode 8" for mode :: "32 word"
  using and_exp_eq_0_iff_not_bit [of mode 8] by simp

text \<open>
  C33: the session is loaded only from private files and only when it authenticates. Loading succeeds if and
  only if both files are regular, not empty, within their bounds, readable by their owner and closed to
  everyone else, the key has 32 bytes, and the ciphertext after its 24-byte nonce decrypts to something.
\<close>

theorem session_private:
  "load_session stat contents decrypt c = Inr plain \<longleftrightarrow>
     (\<exists>km sm key encrypted. stat (pv_session_key_file c) = Some km \<and> stat (pv_session_file c) = Some sm
        \<and> md_is_file km \<and> md_len km \<in> {1..32} \<and> private_mode (md_mode km)
        \<and> md_is_file sm \<and> md_len sm \<in> {1..1048576} \<and> private_mode (md_mode sm)
        \<and> contents (pv_session_key_file c) = Some key \<and> length key = 32
        \<and> contents (pv_session_file c) = Some encrypted \<and> length encrypted > 24
        \<and> decrypt key (take 24 encrypted) (drop 24 encrypted) associated_data = Some plain \<and> plain \<noteq> [])"
proof -
  have one: "read_private_file stat contents path maximum = Inr bytes \<longleftrightarrow>
      (\<exists>m. stat path = Some m \<and> md_is_file m \<and> md_len m \<in> {1..maximum} \<and> private_mode (md_mode m)
         \<and> contents path = Some bytes)" for path maximum bytes
    by (auto simp: read_private_file_def private_mode_def group_mask owner_mask split: option.splits if_splits)
  have refuse: "(if b then Inl e else v) = Inr a \<longleftrightarrow> \<not> b \<and> v = Inr a"
    "(case z of None \<Rightarrow> Inl e | Some p \<Rightarrow> k p) = Inr a \<longleftrightarrow> (\<exists>p. z = Some p \<and> k p = Inr a)"
    for b z and e :: session_error and v :: "session_error + string" and a :: string and k :: "string \<Rightarrow> session_error + string"
    by (auto split: option.splits)
  show ?thesis
    by (simp only: load_session_def and_then_Inr one refuse key_bytes_def max_session_bytes_def nonce_bytes_def)
      (auto simp: not_le)
qed

end
