(* ===== verification/Api.thy ===== *)
theory Api
  imports ResultReader Runs
begin

unbundle bit_operations_syntax

text \<open>
  \<open>src/api.rs\<close>: the owner-scoped reads. A request passes the service bearer, then the owner header,
  then its handler, which reads the tables once and, for a finished digest, the recap that Knowledge
  holds. The parsers of the contract crate and the extractors of the web framework are parameters.
\<close>

section \<open>Requests, responses and what the framework decodes\<close>

datatype owned_route = Subscriptions_Route | Manifest_Route string | Results_Route | Result_Route string

datatype route = Owned owned_route | Ready_Route

text \<open>A header value is \<open>None\<close> where it is not visible ASCII.\<close>

record request =
  hr_route :: route
  hr_headers :: "(string \<times> string option) list"
  hr_query :: string

record api_codec =
  owner_header :: string
  run_header :: string
  digest_header :: string
  user_parse :: "string \<Rightarrow> uuid option"
  path_parse :: "string \<Rightarrow> uuid option"
  query_parse :: "string \<Rightarrow> nat option option"
  run_parse :: "string \<Rightarrow> uuid option"
  digest_parse :: "string \<Rightarrow> string option"
  subscription_parse :: "string \<Rightarrow> uuid option"
  result_parse :: "string \<Rightarrow> uuid option"
  username_parse :: "string \<Rightarrow> string option"
  failure_parse :: "string \<Rightarrow> string option"
  created_text :: "instant \<Rightarrow> string"
  created_parse :: "string \<Rightarrow> instant option"

datatype digest_outcome = Digest_Completed | Digest_Partial | Digest_Failed

record digest_subscription_view =
  sv_id :: uuid
  sv_username :: string
  sv_enabled :: bool

record digest_result_summary =
  rs_result :: uuid
  rs_run :: uuid
  rs_outcome :: digest_outcome
  rs_failure :: "string option"
  rs_created :: instant

record digest_result_view =
  rv_result :: uuid
  rv_run :: uuid
  rv_outcome :: digest_outcome
  rv_recap_id :: "uuid option"
  rv_citations :: "nat option"
  rv_digest :: "string option"
  rv_recap :: "(string \<times> json) list option"
  rv_failure :: "string option"

datatype body =
    No_Body | Manifest_Body string | Subscriptions_Body "digest_subscription_view list"
  | Results_Body "digest_result_summary list" | Result_Body digest_result_view | Metrics_Body string

record response =
  re_status :: nat
  re_body :: body
  re_no_store :: bool

record api_state =
  as_secret :: string
  as_page_limit :: nat
  as_read :: "uuid \<Rightarrow> string \<Rightarrow> read_error + projection"

text \<open>A handler always answers; it reads the tables over the connection of its pool.\<close>

type_synonym handler = "(db, unit, response) io"

definition plain :: "nat \<Rightarrow> body \<Rightarrow> response" where
  "plain status content = \<lparr>re_status = status, re_body = content, re_no_store = False\<rparr>"

abbreviation status_only :: "nat \<Rightarrow> response" where
  "status_only status \<equiv> plain status No_Body"

definition fetching :: "(db \<Rightarrow> 'a) \<Rightarrow> (db, unit, db_error + 'a) io" where
  "fetching f = attempt (pooled (query f))"

definition header_text :: "request \<Rightarrow> string \<Rightarrow> string option" where
  "header_text request name = Option.bind (map_of (hr_headers request) name) (\<lambda>v. v)"

section \<open>The service bearer\<close>

definition byte_at :: "8 word list \<Rightarrow> nat \<Rightarrow> 8 word" where
  "byte_at bytes i = (if i < length bytes then bytes ! i else 0)"

definition constant_time_equal :: "8 word list \<Rightarrow> 8 word list \<Rightarrow> bool" where
  "constant_time_equal left right =
     (let difference = fold (\<lambda>i difference. difference OR ucast (byte_at left i XOR byte_at right i))
            [0..<max (length left) (length right)]
            ((of_nat (length left) XOR of_nat (length right)) :: 64 word)
      in difference = 0)"

definition bytes_of :: "string \<Rightarrow> 8 word list" where
  "bytes_of s = map of_char s"

definition bearer_prefix :: string where
  "bearer_prefix = ''Bearer ''"

definition supplied_bearer :: "request \<Rightarrow> string option" where
  "supplied_bearer request =
     Option.bind (header_text request ''authorization'') (\<lambda>value.
       if take (length bearer_prefix) value = bearer_prefix
       then Some (drop (length bearer_prefix) value) else None)"

definition authorize :: "api_state \<Rightarrow> request \<Rightarrow> handler \<Rightarrow> handler" where
  "authorize st request next_handler =
     (if (case supplied_bearer request of
            None \<Rightarrow> False
          | Some value \<Rightarrow> constant_time_equal (bytes_of value) (bytes_of (as_secret st)))
      then next_handler else ret (status_only 401))"

definition request_owner :: "api_codec \<Rightarrow> request \<Rightarrow> uuid option" where
  "request_owner cx request = Option.bind (header_text request (owner_header cx)) (user_parse cx)"

definition require_owner :: "api_codec \<Rightarrow> request \<Rightarrow> (uuid \<Rightarrow> handler) \<Rightarrow> handler" where
  "require_owner cx request next_handler =
     (case request_owner cx request of None \<Rightarrow> ret (status_only 401) | Some owner \<Rightarrow> next_handler owner)"

definition no_store :: "handler \<Rightarrow> handler" where
  "no_store next_handler = bind_io next_handler (\<lambda>response. ret (response\<lparr>re_no_store := True\<rparr>))"

definition ready :: handler where
  "ready = bind_io (fetching (\<lambda>_. ())) (\<lambda>answer.
     ret (status_only (case answer of Inl _ \<Rightarrow> 503 | Inr _ \<Rightarrow> 200)))"

section \<open>Pages\<close>

definition max_requested_page_size :: nat where
  "max_requested_page_size = 100"

definition default_page_size :: nat where
  "default_page_size = 50"

definition i64_limit :: nat where
  "i64_limit = 2 ^ 63 - 1"

definition checked_page_size :: "api_state \<Rightarrow> nat \<Rightarrow> nat + nat" where
  "checked_page_size st page_size =
     (if page_size = 0 \<or> page_size > max_requested_page_size then Inl 400
      else (let clamped = min page_size (as_page_limit st)
            in Inr (if clamped \<le> i64_limit then clamped else i64_limit)))"

text \<open>\<open>Query<PageQuery>\<close> and the check of the handlers: a refused query is a bad request.\<close>

definition page_of :: "api_codec \<Rightarrow> api_state \<Rightarrow> request \<Rightarrow> nat + nat" where
  "page_of cx st request =
     (case query_parse cx (hr_query request) of
        None \<Rightarrow> Inl 400
      | Some asked \<Rightarrow> checked_page_size st (case asked of None \<Rightarrow> default_page_size | Some n \<Rightarrow> n))"

text \<open>\<open>order by ... desc limit n\<close>\<close>

definition latest :: "('r \<Rightarrow> 'k::linorder) \<Rightarrow> nat \<Rightarrow> ('r \<Rightarrow> bool) \<Rightarrow> 'r list \<Rightarrow> 'r list" where
  "latest k n p rows = take n (rev (sort_key k (filter p rows)))"

text \<open>\<open>.collect::<Option<Vec<_>>>()\<close>\<close>

fun all_some :: "('a \<Rightarrow> 'b option) \<Rightarrow> 'a list \<Rightarrow> 'b list option" where
  "all_some f [] = Some []"
| "all_some f (a # as) =
     (case f a of None \<Rightarrow> None | Some b \<Rightarrow> map_option (Cons b) (all_some f as))"

section \<open>Subscriptions\<close>

definition subscription_rows :: "uuid \<Rightarrow> nat \<Rightarrow> db \<Rightarrow> (subscription_row \<times> channel) list" where
  "subscription_rows owner n d =
     latest (\<lambda>(s, c). (sub_first_activated s, sub_id s)) n
       (\<lambda>(s, c). sub_channel s = ch_id c \<and> sub_owner s = owner)
       (List.product (subscriptions d) (channels d))"

definition subscription_view :: "api_codec \<Rightarrow> subscription_row \<times> channel \<Rightarrow> digest_subscription_view option" where
  "subscription_view cx = (\<lambda>(s, c).
     case subscription_parse cx (uuid_text (sub_id s)) of
       None \<Rightarrow> None
     | Some i \<Rightarrow> map_option (\<lambda>name. \<lparr>sv_id = i, sv_username = name, sv_enabled = sub_enabled s\<rparr>)
         (username_parse cx (ch_username c)))"

definition list_subscriptions :: "api_codec \<Rightarrow> api_state \<Rightarrow> request \<Rightarrow> uuid \<Rightarrow> handler" where
  "list_subscriptions cx st request owner =
     (case page_of cx st request of
        Inl status \<Rightarrow> ret (status_only status)
      | Inr n \<Rightarrow>
          bind_io (fetching (subscription_rows owner n)) (\<lambda>rows.
          ret (case rows of
                 Inl _ \<Rightarrow> status_only 503
               | Inr found \<Rightarrow>
                   (case all_some (subscription_view cx) found of
                      Some views \<Rightarrow> plain 200 (Subscriptions_Body views)
                    | None \<Rightarrow> status_only 500))))"

section \<open>The manifest\<close>

definition manifest_text :: "uuid \<Rightarrow> uuid \<Rightarrow> uuid \<Rightarrow> string \<Rightarrow> db \<Rightarrow> string option option" where
  "manifest_text manifest owner run digest d =
     map_option man_text
       (select_one (\<lambda>m. man_id m = manifest \<and> man_owner m = owner \<and> man_run m = run \<and> man_sha256 m = digest)
         (manifests d))"

definition get_manifest :: "api_codec \<Rightarrow> request \<Rightarrow> uuid \<Rightarrow> string \<Rightarrow> handler" where
  "get_manifest cx request owner path =
     (case path_parse cx path of
        None \<Rightarrow> ret (status_only 400)
      | Some manifest \<Rightarrow>
          (case (Option.bind (header_text request (run_header cx)) (run_parse cx),
                 Option.bind (header_text request (digest_header cx)) (digest_parse cx)) of
             (Some run, Some digest) \<Rightarrow>
               bind_io (fetching (manifest_text manifest owner run digest)) (\<lambda>row.
               ret (case row of
                      Inr (Some (Some text)) \<Rightarrow> plain 200 (Manifest_Body text)
                    | Inr (Some None) \<Rightarrow> status_only 410
                    | Inr None \<Rightarrow> status_only 404
                    | Inl _ \<Rightarrow> status_only 503))
           | _ \<Rightarrow> ret (status_only 404)))"

section \<open>Results\<close>

definition outcome_of :: "string \<Rightarrow> digest_outcome option" where
  "outcome_of text =
     (if text = ''completed'' then Some Digest_Completed
      else if text = ''partial'' then Some Digest_Partial
      else if text = ''failed'' then Some Digest_Failed else None)"

text \<open>\<open>failure_class.map(parse).transpose().ok()\<close>: an absent class stays absent.\<close>

definition failure_class_of :: "api_codec \<Rightarrow> string option \<Rightarrow> string option option" where
  "failure_class_of cx failure =
     (case failure of None \<Rightarrow> Some None | Some class \<Rightarrow> map_option Some (failure_parse cx class))"

definition result_rows :: "uuid \<Rightarrow> nat \<Rightarrow> db \<Rightarrow> result_row list" where
  "result_rows owner n d =
     latest (\<lambda>r. (res_created r, res_id r)) n (\<lambda>r. res_owner r = owner) (results d)"

definition result_summary :: "api_codec \<Rightarrow> result_row \<Rightarrow> digest_result_summary option" where
  "result_summary cx r =
     Option.bind (result_parse cx (uuid_text (res_id r))) (\<lambda>i.
     Option.bind (run_parse cx (uuid_text (res_run r))) (\<lambda>run.
     Option.bind (outcome_of (state_as_str (res_outcome r))) (\<lambda>outcome.
     Option.bind (failure_class_of cx (res_failure r)) (\<lambda>failure.
     Option.bind (created_parse cx (created_text cx (res_created r))) (\<lambda>created.
     Some \<lparr>rs_result = i, rs_run = run, rs_outcome = outcome, rs_failure = failure,
           rs_created = created\<rparr>)))))"

definition list_results :: "api_codec \<Rightarrow> api_state \<Rightarrow> request \<Rightarrow> uuid \<Rightarrow> handler" where
  "list_results cx st request owner =
     (case page_of cx st request of
        Inl status \<Rightarrow> ret (status_only status)
      | Inr n \<Rightarrow>
          bind_io (fetching (result_rows owner n)) (\<lambda>rows.
          ret (case rows of
                 Inl _ \<Rightarrow> status_only 503
               | Inr found \<Rightarrow>
                   (case all_some (result_summary cx) found of
                      Some summaries \<Rightarrow> plain 200 (Results_Body summaries)
                    | None \<Rightarrow> status_only 500))))"

definition u16_of :: "int \<Rightarrow> nat option" where
  "u16_of n = (if 0 \<le> n \<and> n < 2 ^ 16 then Some (nat n) else None)"

fun upstream_status :: "read_error \<Rightarrow> nat" where
  "upstream_status Read_Unavailable = 503"
| "upstream_status Read_Invalid = 502"

definition or_status :: "nat \<Rightarrow> 'a option \<Rightarrow> nat + 'a" where
  "or_status status v = (case v of None \<Rightarrow> Inl status | Some a \<Rightarrow> Inr a)"

definition object_members :: "json \<Rightarrow> (string \<times> json) list option" where
  "object_members v = (case v of JObject members \<Rightarrow> Some members | _ \<Rightarrow> None)"

definition result_view ::
  "api_codec \<Rightarrow> (uuid \<Rightarrow> string \<Rightarrow> read_error + projection) \<Rightarrow> result_row \<Rightarrow> nat + digest_result_view" where
  "result_view cx read r =
     and_then (or_status 500 (result_parse cx (uuid_text (res_id r)))) (\<lambda>i.
     and_then (or_status 500 (run_parse cx (uuid_text (res_run r)))) (\<lambda>run.
     and_then (or_status 500 (outcome_of (state_as_str (res_outcome r)))) (\<lambda>outcome.
     if outcome = Digest_Failed
     then and_then (or_status 500 (failure_class_of cx (res_failure r))) (\<lambda>failure.
       Inr \<lparr>rv_result = i, rv_run = run, rv_outcome = outcome, rv_recap_id = None, rv_citations = None,
            rv_digest = None, rv_recap = None, rv_failure = failure\<rparr>)
     else (case (res_recap r, res_digest r) of
             (Some recap, Some digest) \<Rightarrow>
               (case read recap digest of
                  Inl e \<Rightarrow> Inl (upstream_status e)
                | Inr p \<Rightarrow>
                    and_then (or_status 502 (object_members (pj_recap p))) (\<lambda>members.
                    and_then (or_status 500 (u16_of (res_citations r))) (\<lambda>citations.
                    and_then (or_status 502 (digest_parse cx (pj_digest p))) (\<lambda>hex.
                    Inr \<lparr>rv_result = i, rv_run = run, rv_outcome = outcome, rv_recap_id = Some recap,
                         rv_citations = Some citations, rv_digest = Some hex, rv_recap = Some members,
                         rv_failure = None\<rparr>))))
           | _ \<Rightarrow> Inl 502))))"

definition owned_result :: "uuid \<Rightarrow> uuid \<Rightarrow> db \<Rightarrow> result_row option" where
  "owned_result result owner d =
     select_one (\<lambda>r. res_id r = result \<and> res_owner r = owner) (results d)"

definition get_result :: "api_codec \<Rightarrow> api_state \<Rightarrow> uuid \<Rightarrow> string \<Rightarrow> handler" where
  "get_result cx st owner path =
     (case path_parse cx path of
        None \<Rightarrow> ret (status_only 400)
      | Some result \<Rightarrow>
          bind_io (fetching (owned_result result owner)) (\<lambda>row.
          ret (case row of
                 Inl _ \<Rightarrow> status_only 503
               | Inr None \<Rightarrow> status_only 404
               | Inr (Some r) \<Rightarrow>
                   (case result_view cx (as_read st) r of
                      Inr view \<Rightarrow> plain 200 (Result_Body view)
                    | Inl status \<Rightarrow> status_only status))))"

section \<open>The router\<close>

definition owner_scoped :: "api_codec \<Rightarrow> api_state \<Rightarrow> request \<Rightarrow> owned_route \<Rightarrow> uuid \<Rightarrow> handler" where
  "owner_scoped cx st request path owner =
     (case path of
        Subscriptions_Route \<Rightarrow> list_subscriptions cx st request owner
      | Manifest_Route manifest \<Rightarrow> get_manifest cx request owner manifest
      | Results_Route \<Rightarrow> list_results cx st request owner
      | Result_Route result \<Rightarrow> get_result cx st owner result)"

definition serve :: "api_codec \<Rightarrow> api_state \<Rightarrow> request \<Rightarrow> handler" where
  "serve cx st request =
     no_store (authorize st request
       (case hr_route request of
          Ready_Route \<Rightarrow> ready
        | Owned path \<Rightarrow> require_owner cx request (owner_scoped cx st request path)))"

section \<open>The comparison of the bearer\<close>

lemma xor_zero: "a XOR b = (0 :: 'a::len word) \<longleftrightarrow> a = b"
  by (auto simp: bit_eq_iff bit_xor_iff)

lemma fold_or_zero:
  fixes a :: "'a::len word"
  shows "fold (\<lambda>i a. a OR f i) is a = 0 \<longleftrightarrow> a = 0 \<and> (\<forall>i \<in> set is. f i = 0)"
  by (induction "is" arbitrary: a) (auto simp: or_eq_0_iff)

lemma ucast_byte_zero: "(ucast (b :: 8 word) :: 64 word) = 0 \<longleftrightarrow> b = 0"
  by (auto simp: bit_eq_iff bit_ucast_iff) (use bit_imp_le_length [where w = b] in auto)

lemma constant_time_equal_iff:
  assumes "length left < 2 ^ 64" and "length right < 2 ^ 64"
  shows "constant_time_equal left right \<longleftrightarrow> left = right"
proof -
  have "(of_nat (length left) :: 64 word) = of_nat (length right) \<longleftrightarrow> length left = length right"
    using assms by (simp add: word_of_nat_eq_iff take_bit_nat_eq_self)
  then have "constant_time_equal left right \<longleftrightarrow> length left = length right
      \<and> (\<forall>i < max (length left) (length right). byte_at left i = byte_at right i)"
    by (auto simp: constant_time_equal_def fold_or_zero xor_zero ucast_byte_zero)
  then show ?thesis by (auto simp: list_eq_iff_nth_eq byte_at_def)
qed

lemma bytes_of_inj: "bytes_of s = bytes_of t \<longleftrightarrow> s = t"
proof -
  have "(of_char a :: 8 word) = of_char b \<Longrightarrow> a = b" for a b
  proof -
    assume "(of_char a :: 8 word) = of_char b"
    then have "(of_nat (of_char a) :: 8 word) = of_nat (of_char b)" by (simp only: of_nat_of_char)
    then have "take_bit 8 (of_char a :: nat) = take_bit 8 (of_char b)" by (simp add: word_of_nat_eq_iff)
    then have "(of_char a :: nat) = of_char b" by (simp add: take_bit_eq_mod)
    then show "a = b" by (simp add: of_char_eq_iff)
  qed
  then have "inj (of_char :: char \<Rightarrow> 8 word)" by (rule injI)
  then show ?thesis by (simp add: bytes_of_def inj_map_eq_map)
qed

end
