(* ===== verification/History.thy ===== *)
theory History
  imports Scenario
begin

text \<open>
  A second concrete history: the requested run hands its digest over and Knowledge completes it, so the
  database holds a manifest and a result.
\<close>

definition demo_manifest :: canonical_manifest where
  "demo_manifest =
     \<lparr>cn_manifest = 30, cn_owner = 7, cn_run = 5, cn_text = ''manifest'', cn_sha256 = demo_sha256 ''manifest'',
      cn_sources = 1, cn_channels = 1, cn_messages = [(91, 4)]\<rparr>"

definition demo_committed :: db where
  "demo_committed =
     after (transaction Coordinator_Storage (commit_manifest_body 350 203 demo_manifest demo_request))
       demo_accepted []"

definition demo_completed :: db where
  "demo_completed =
     after (transaction Coordinator_Storage
       (settle_completion_body demo 500 202 40 ''completed'' demo_completion 9 False)) demo_committed []"

lemma demo_checked: "checked_recap_request demo demo_manifest ''request'' = Inr demo_request"
  by (simp add: checked_recap_request_def demo_def demo_manifest_def demo_request_def)

lemma demo_completed_reachable: "reachable demo demo_completed"
proof -
  have "step demo demo_accepted demo_committed"
    unfolding demo_committed_def by (rule step.working, rule work.commit_recap [OF demo_checked])
  moreover have "step demo demo_committed demo_completed"
    unfolding demo_completed_def by (rule step.working, rule work.complete)
  ultimately show ?thesis
    using demo_accepted_reachable unfolding reachable_def by (meson rtranclp.rtrancl_into_rtrancl)
qed

lemma demo_accepted_rest:
  "manifests demo_accepted = []" "manifest_sources demo_accepted = []" "results demo_accepted = []"
  "channels demo_accepted = []" "subscriptions demo_accepted = []"
  "map in_subject (inbox demo_accepted) = [run_subject]"
  by (simp_all add: demo_accepted_def after_served effect_of_def run_transaction run_body_def storage_def
      insert_inbox_def open_inbox_def inbox_conflict_def create_commanded_run_def cast_window_def
      demo_run_def create_digest_run_def insert_run_def new_run_def empty_db_def natural_key_def
      set_language_def update_runs_def update_where_def queue_started_def new_report_def caused_by_def
      demo_moment_def insert_outbox_once_def outbox_conflict_def complete_inbox_def)

definition demo_stored :: manifest_row where
  "demo_stored = stored_manifest demo_manifest"

lemma demo_committed_rows:
  "runs demo_committed = [demo_run_row\<lparr>run_state := Waiting_Recap, run_updated := 350\<rparr>]"
  "manifests demo_committed = [demo_stored]" "results demo_committed = []"
  "inbox demo_committed = inbox demo_accepted" "channels demo_committed = []" "subscriptions demo_committed = []"
  "outbox demo_committed = [demo_queued, queued_request 350 203 demo_manifest demo_request]"
  by (simp_all add: demo_committed_def after_served effect_of_def run_transaction commit_manifest_body_def
      stored_def insert_manifest_def manifest_checks_def stored_manifest_def demo_manifest_def
      insert_manifest_sources_def insert_outbox_def outbox_conflict_def queued_request_def
      demo_accepted_rows demo_queued_def queued_report_def update_runs_def update_where_def count_where_def
      open_run_def enter_state_def demo_run_row_def demo_stored_def i32_max_def demo_accepted_rest)

definition demo_result :: result_row where
  "demo_result =
     \<lparr>res_id = 50, res_run = 5, res_manifest = 30, res_owner = 7, res_outcome = Completed, res_recap = Some 9,
      res_digest = Some (replicate 64 (CHR ''b'')), res_citations = 1, res_failure = None, res_created = 500\<rparr>"

lemma demo_completed_rows:
  "manifests demo_completed = [demo_stored]" "results demo_completed = [demo_result]"
  "channels demo_completed = []" "subscriptions demo_completed = []"
proof -
  have hex: "is_sha256_hex (replicate 64 (CHR ''b''))" by code_simp
  have new: "\<not> inbox_conflict 40 completed_subject (uuid_text 50) demo_committed"
    using demo_accepted_inbox demo_accepted_rest(6)
    by (auto simp: inbox_conflict_def demo_committed_rows completed_subject_def run_subject_def)
  show "manifests demo_completed = [demo_stored]" "results demo_completed = [demo_result]"
    "channels demo_completed = []" "subscriptions demo_completed = []"
    using new hex
    by (simp_all add: demo_completed_def after_served effect_of_def run_transaction settle_completion_body_def
        stored_def insert_inbox_def open_inbox_def demo_completion_def insert_completed_result_def
        run_with_manifest_def select_one_def demo_committed_rows demo_run_row_def demo_stored_def
        stored_manifest_def demo_manifest_def insert_result_def result_checks_def completion_outcome_def
        update_runs_def update_where_def count_where_def waiting_run_def enter_state_def report_completion_def
        owns_on_demand_def completion_report_def new_report_def with_result_def caused_by_def and_then_def
        outbox_conflict_def demo_queued_def queued_report_def queued_request_def report_key_inj
        complete_inbox_def demo_result_def)
qed

end
