(* ===== verification/Reads.thy ===== *)
theory Reads
  imports Api History
begin

text \<open>
  What the reads of \<open>src/api.rs\<close> promise: nobody without the bearer reaches the database, an owner's answers
  depend on the owner's rows alone, the claims gate the manifest, and a page holds the newest results.
\<close>

section \<open>One read of the tables\<close>

lemma fetching_run:
  "fetching f w = (Inr (case next_reply (wire w) of (Served, _) \<Rightarrow> Inr (f (tables w)) | _ \<Rightarrow> Inl Unreachable),
     w\<lparr>wire := snd (next_reply (wire w))\<rparr>)"
  by (auto simp: fetching_def attempt_def pooled_def query_def split: prod.split reply.split)

lemma answered_run: "bind_io (fetching f) (\<lambda>v. ret (g v)) w
   = (Inr (g (case next_reply (wire w) of (Served, _) \<Rightarrow> Inr (f (tables w)) | _ \<Rightarrow> Inl Unreachable)),
      w\<lparr>wire := snd (next_reply (wire w))\<rparr>)"
  by (simp add: bind_io_def fetching_run ret_def)

text \<open>A handler that reads once: its answer depends on the tables by one view, and they stay.\<close>

definition reads_only :: "(db \<Rightarrow> 'v) \<Rightarrow> handler \<Rightarrow> bool" where
  "reads_only view m \<longleftrightarrow> (\<forall>d d' ns. view d = view d' \<longrightarrow>
     fst (m \<lparr>tables = d, wire = ns\<rparr>) = fst (m \<lparr>tables = d', wire = ns\<rparr>)
     \<and> tables (snd (m \<lparr>tables = d, wire = ns\<rparr>)) = d \<and> (\<exists>r. fst (m \<lparr>tables = d, wire = ns\<rparr>) = Inr r))"

named_theorems reads_intros \<open>closure rules of single reads\<close>

lemma reads_only_weaken:
  "reads_only view m \<Longrightarrow> (\<And>d d'. wide d = wide d' \<Longrightarrow> view d = view d') \<Longrightarrow> reads_only wide m"
  unfolding reads_only_def by metis

lemma reads_ret [reads_intros]: "reads_only view (ret r)"
  by (simp add: reads_only_def ret_def)

lemma reads_fetching [reads_intros]:
  "(\<And>d d'. view d = view d' \<Longrightarrow> f d = f d') \<Longrightarrow> reads_only view (bind_io (fetching f) (\<lambda>v. ret (g v)))"
  unfolding reads_only_def answered_run by (metis fst_conv snd_conv world.select_convs(1,2) world.update_convs(2))

lemma reads_cases [reads_intros]:
  "reads_only view m \<Longrightarrow> reads_only view n \<Longrightarrow> reads_only view (if b then m else n)"
  "reads_only view m \<Longrightarrow> (\<And>v. reads_only view (k v)) \<Longrightarrow> reads_only view (case z of None \<Rightarrow> m | Some v \<Rightarrow> k v)"
  "(\<And>e. reads_only view (h e)) \<Longrightarrow> (\<And>v. reads_only view (k v)) \<Longrightarrow> reads_only view (case y of Inl e \<Rightarrow> h e | Inr v \<Rightarrow> k v)"
  by (simp_all split: option.split sum.split)

lemma reads_no_store [reads_intros]:
  assumes "reads_only view m"
  shows "reads_only view (no_store m)"
  unfolding reads_only_def
proof (intro allI impI)
  fix d d' ns
  assume "view d = view d'"
  with assms have same: "fst (m \<lparr>tables = d, wire = ns\<rparr>) = fst (m \<lparr>tables = d', wire = ns\<rparr>)"
    and stay: "tables (snd (m \<lparr>tables = d, wire = ns\<rparr>)) = d"
    and "\<exists>r. fst (m \<lparr>tables = d, wire = ns\<rparr>) = Inr r"
    unfolding reads_only_def by blast+
  then obtain r w where w: "m \<lparr>tables = d, wire = ns\<rparr> = (Inr r, w)" by (metis prod.collapse)
  with same obtain w' where "m \<lparr>tables = d', wire = ns\<rparr> = (Inr r, w')" by (metis fst_conv prod.collapse)
  with w stay show "fst (no_store m \<lparr>tables = d, wire = ns\<rparr>) = fst (no_store m \<lparr>tables = d', wire = ns\<rparr>)
      \<and> tables (snd (no_store m \<lparr>tables = d, wire = ns\<rparr>)) = d
      \<and> (\<exists>r. fst (no_store m \<lparr>tables = d, wire = ns\<rparr>) = Inr r)"
    by (simp add: no_store_def bind_io_def ret_def)
qed

section \<open>The rows of one owner\<close>

definition owner_rows :: "uuid \<Rightarrow> db \<Rightarrow> channel list \<times> subscription_row list \<times> manifest_row list \<times> result_row list" where
  "owner_rows owner d =
     (channels d, filter (\<lambda>s. sub_owner s = owner) (subscriptions d),
      filter (\<lambda>m. man_owner m = owner) (manifests d), filter (\<lambda>r. res_owner r = owner) (results d))"

lemma filter_product:
  "filter (\<lambda>(a, b). P a b \<and> Q a) (List.product xs ys) = filter (\<lambda>(a, b). P a b) (List.product (filter Q xs) ys)"
  by (induction xs) (auto simp: filter_map comp_def)

lemma select_one_filter: "select_one (\<lambda>r. P r \<and> Q r) rows = select_one P (filter Q rows)"
  by (induction rows) (simp_all add: select_one_def)

lemma subscription_rows_owned:
  "owner_rows owner d = owner_rows owner d' \<Longrightarrow> subscription_rows owner n d = subscription_rows owner n d'"
  by (simp add: subscription_rows_def latest_def owner_rows_def
      filter_product [where P = "\<lambda>s c. sub_channel s = ch_id c" and Q = "\<lambda>s. sub_owner s = owner"])

lemma manifest_text_owned:
  assumes "owner_rows owner d = owner_rows owner d'"
  shows "manifest_text manifest owner run digest d = manifest_text manifest owner run digest d'"
proof -
  have "manifest_text manifest owner run digest d = map_option man_text
      (select_one (\<lambda>m. man_id m = manifest \<and> man_run m = run \<and> man_sha256 m = digest)
        (filter (\<lambda>m. man_owner m = owner) (manifests d)))" for d
    unfolding manifest_text_def select_one_filter [symmetric] by (rule arg_cong [where f = "map_option man_text"])
      (rule arg_cong [where f = "\<lambda>p. select_one p (manifests d)"], auto)
  with assms show ?thesis by (simp add: owner_rows_def)
qed

lemma result_rows_owned:
  "owner_rows owner d = owner_rows owner d' \<Longrightarrow> result_rows owner n d = result_rows owner n d'"
  by (simp add: result_rows_def latest_def owner_rows_def)

lemma owned_result_owned:
  "owner_rows owner d = owner_rows owner d' \<Longrightarrow> owned_result result owner d = owned_result result owner d'"
  by (simp add: owned_result_def select_one_filter owner_rows_def)

lemma reads_list_subscriptions: "reads_only (owner_rows owner) (list_subscriptions cx st request owner)"
  unfolding list_subscriptions_def by (intro reads_intros subscription_rows_owned)

lemma reads_list_results: "reads_only (owner_rows owner) (list_results cx st request owner)"
  unfolding list_results_def by (intro reads_intros result_rows_owned)

lemma reads_get_manifest: "reads_only (owner_rows owner) (get_manifest cx request owner path)"
  unfolding get_manifest_def prod.case by (intro reads_intros manifest_text_owned)

lemma reads_get_result: "reads_only (owner_rows owner) (get_result cx st owner path)"
  unfolding get_result_def by (intro reads_intros owned_result_owned)

lemma reads_owner_scoped: "reads_only (owner_rows owner) (owner_scoped cx st request path owner)"
  by (cases path) (simp_all add: owner_scoped_def reads_list_subscriptions reads_list_results
      reads_get_manifest reads_get_result)

lemma reads_ready: "reads_only view ready"
  unfolding ready_def by (intro reads_intros) simp

text \<open>
  C11: reads do not cross owners. The answer to a request depends on the channels and the rows of the owner
  its header names, and on nothing else in the database: whatever other owners store, the answer is
  the same, over any connection. No request changes the tables.
\<close>

theorem owners_isolated:
  assumes "\<And>owner. request_owner cx request = Some owner \<Longrightarrow> owner_rows owner d = owner_rows owner d'"
  shows "fst (serve cx st request \<lparr>tables = d, wire = ns\<rparr>) = fst (serve cx st request \<lparr>tables = d', wire = ns\<rparr>)
     \<and> tables (snd (serve cx st request \<lparr>tables = d, wire = ns\<rparr>)) = d"
proof -
  let ?view = "\<lambda>d. map_option (\<lambda>owner. owner_rows owner d) (request_owner cx request)"
  have scoped: "reads_only ?view (require_owner cx request (owner_scoped cx st request path))" for path
  proof (cases "request_owner cx request")
    case (Some owner)
    have "reads_only ?view (owner_scoped cx st request path owner)"
      by (rule reads_only_weaken [OF reads_owner_scoped]) (simp add: Some)
    with Some show ?thesis by (simp add: require_owner_def)
  qed (simp add: require_owner_def reads_ret)
  have "reads_only ?view (serve cx st request)"
    unfolding serve_def authorize_def
    by (cases "hr_route request") (auto intro!: reads_intros reads_ready scoped)
  moreover have "?view d = ?view d'" using assms by (cases "request_owner cx request") simp_all
  ultimately show ?thesis unfolding reads_only_def by blast
qed

section \<open>Access\<close>

lemma authorize_iff:
  assumes "length (as_secret st) < 2 ^ 63" and "\<And>v. supplied_bearer request = Some v \<Longrightarrow> length v < 2 ^ 63"
  shows "authorize st request h =
     (if supplied_bearer request = Some (as_secret st) then h else ret (status_only 401))"
proof (cases "supplied_bearer request")
  case (Some v)
  have "length (bytes_of v) < 2 ^ 64" "length (bytes_of (as_secret st)) < 2 ^ 64"
    using assms(1) assms(2) [OF Some] by (simp_all add: bytes_of_def)
  from constant_time_equal_iff [OF this] Some show ?thesis by (simp add: authorize_def bytes_of_inj)
qed (simp add: authorize_def)

lemma no_store_ret: "no_store (ret r) w = (Inr (r\<lparr>re_no_store := True\<rparr>), w)"
  by (simp add: no_store_def bind_io_def ret_def)

text \<open>
  C26: the bearer is the whole authorization. A request whose bearer is not exactly the service secret, or an
  owner-scoped one without a parsing owner header, is answered 401 with no body and no round trip to
  the database; the constant-time comparison refuses no right bearer and admits no wrong one. Every
  other request reaches its handler, for the owner its header names.
\<close>

theorem access_decided:
  assumes "length (as_secret st) < 2 ^ 63" and "\<And>v. supplied_bearer request = Some v \<Longrightarrow> length v < 2 ^ 63"
  shows "serve cx st request w =
     (if supplied_bearer request \<noteq> Some (as_secret st)
      then (Inr \<lparr>re_status = 401, re_body = No_Body, re_no_store = True\<rparr>, w)
      else (case (hr_route request, request_owner cx request) of
              (Ready_Route, _) \<Rightarrow> no_store ready w
            | (Owned path, None) \<Rightarrow> (Inr \<lparr>re_status = 401, re_body = No_Body, re_no_store = True\<rparr>, w)
            | (Owned path, Some owner) \<Rightarrow> no_store (owner_scoped cx st request path owner) w))"
  by (simp add: serve_def authorize_iff [OF assms] no_store_ret plain_def require_owner_def
      split: route.split option.split)

section \<open>Served requests\<close>

text \<open>A request that passes both layers, over a connection that serves it.\<close>

definition admitted :: "api_codec \<Rightarrow> api_state \<Rightarrow> request \<Rightarrow> uuid \<Rightarrow> bool" where
  "admitted cx st request owner \<longleftrightarrow>
     length (as_secret st) < 2 ^ 63 \<and> supplied_bearer request = Some (as_secret st)
     \<and> request_owner cx request = Some owner"

lemma admitted_serve:
  assumes "admitted cx st request owner" and "hr_route request = Owned path"
  shows "serve cx st request = no_store (owner_scoped cx st request path owner)"
proof -
  have "authorize st request h = h" for h
    using assms(1) by (subst authorize_iff) (auto simp: admitted_def)
  with assms show ?thesis by (simp add: serve_def admitted_def require_owner_def)
qed

lemma answer_no_store: "answer_of (no_store m) d = (case answer_of m d of Inl e \<Rightarrow> Inl e
   | Inr r \<Rightarrow> Inr (r\<lparr>re_no_store := True\<rparr>))"
  by (simp add: answer_of_def no_store_def bind_io_def ret_def split: prod.split sum.split)

lemma answer_fetching: "answer_of (bind_io (fetching f) (\<lambda>v. ret (g v))) d = Inr (g (Inr (f d)))"
  unfolding answer_of_def answered_run by (simp add: healthy_def)

lemma answer_ret: "answer_of (ret r) d = Inr r"
  by (simp add: answer_of_def ret_def)

text \<open>
  C27: the claims gate the manifest. In every reachable state, an admitted request for a manifest gets its
  stored text exactly when the owner, the run and the digest it claims are those of the row and the
  text is still there; it learns that the text was minimized exactly when all of them match; in every
  other case (absent, of another owner, a missing or a wrong claim) the answer is the same empty 404.
\<close>

theorem manifest_claims_gate:
  assumes "reachable x d" and "admitted cx st request owner"
    and "hr_route request = Owned (Manifest_Route path)" and "path_parse cx path = Some manifest"
  shows "let claimed = (\<lambda>m. m \<in> set (manifests d) \<and> man_id m = manifest \<and> man_owner m = owner
        \<and> Option.bind (header_text request (run_header cx)) (run_parse cx) = Some (man_run m)
        \<and> Option.bind (header_text request (digest_header cx)) (digest_parse cx) = Some (man_sha256 m))
     in \<exists>status body. answer_of (serve cx st request) d
           = Inr \<lparr>re_status = status, re_body = body, re_no_store = True\<rparr>
        \<and> (\<forall>text. (status = 200 \<and> body = Manifest_Body text) = (\<exists>m. claimed m \<and> man_text m = Some text))
        \<and> (status = 410 \<and> body = No_Body) = (\<exists>m. claimed m \<and> man_minimized m \<noteq> None)
        \<and> (status = 404 \<and> body = No_Body) = (\<nexists>m. claimed m)"
proof -
  let ?run = "Option.bind (header_text request (run_header cx)) (run_parse cx)"
  let ?digest = "Option.bind (header_text request (digest_header cx)) (digest_parse cx)"
  note served = admitted_serve [OF assms(2,3)]
  have ok: "evidence_ok {} {} d" using reachable_ok(4) [OF assms(1)] .
  show ?thesis
  proof (cases "\<exists>run digest. ?run = Some run \<and> ?digest = Some digest")
    case False
    then have "get_manifest cx request owner path = ret (status_only 404)"
      using assms(4) by (auto simp: get_manifest_def split: option.split)
    with False show ?thesis
      by (auto simp: served owner_scoped_def answer_no_store answer_ret plain_def Let_def)
  next
    case True
    then obtain run digest where claims: "?run = Some run" "?digest = Some digest" by blast
    let ?row = "select_one (\<lambda>m. man_id m = manifest \<and> man_owner m = owner \<and> man_run m = run \<and> man_sha256 m = digest)
      (manifests d)"
    have answer: "answer_of (serve cx st request) d = Inr ((case map_option man_text ?row of
        Some (Some text) \<Rightarrow> plain 200 (Manifest_Body text) | Some None \<Rightarrow> status_only 410
      | None \<Rightarrow> status_only 404)\<lparr>re_no_store := True\<rparr>)"
      using claims assms(4)
      by (simp add: served owner_scoped_def answer_no_store get_manifest_def answer_fetching manifest_text_def)
    show ?thesis
    proof (cases ?row)
      case None
      with answer claims show ?thesis by (auto simp: select_one_None plain_def Let_def)
    next
      case (Some m)
      then have m: "m \<in> set (manifests d)" "man_id m = manifest" "man_owner m = owner" "man_run m = run"
          "man_sha256 m = digest"
        using select_one_Some [OF Some] by auto
      have only: "m' \<in> set (manifests d) \<and> man_id m' = manifest \<and> man_owner m' = owner
          \<and> run = man_run m' \<and> digest = man_sha256 m' \<longleftrightarrow> m' = m" for m'
        using ok m unique_byD [of man_id "manifests d" m' m] by (auto simp: evidence_ok_def)
      have "man_text m = None \<longleftrightarrow> man_minimized m \<noteq> None"
        using ok m(1) by (auto simp: evidence_ok_def list_all_iff manifest_checks_def)
      with answer Some show ?thesis
        unfolding claims option.inject only Let_def by (cases "man_text m") (simp_all add: plain_def)
    qed
  qed
qed

section \<open>Pages and results\<close>

lemma set_latest: "r \<in> set (latest k n p rows) \<Longrightarrow> r \<in> set rows \<and> p r"
  by (auto simp: latest_def dest: in_set_takeD)

lemma length_latest: "length (latest k n p rows) = min n (count_where p rows)"
  by (simp add: latest_def count_where_def min.commute)

lemma latest_order:
  "sorted_wrt (\<lambda>a b. k b \<le> k a) (latest k n p rows)"
  "r \<in> set (latest k n p rows) \<Longrightarrow> q \<in> set rows \<Longrightarrow> p q \<Longrightarrow> q \<notin> set (latest k n p rows) \<Longrightarrow> k q \<le> k r"
proof -
  let ?s = "rev (sort_key k (filter p rows))"
  have "sorted (map k (sort_key k (filter p rows)))" by simp
  then have sorted: "sorted_wrt (\<lambda>a b. k b \<le> k a) (take n ?s @ drop n ?s)"
    by (simp add: sorted_wrt_rev sorted_map)
  then show "sorted_wrt (\<lambda>a b. k b \<le> k a) (latest k n p rows)"
    unfolding latest_def sorted_wrt_append by blast
  assume "r \<in> set (latest k n p rows)" and "q \<in> set rows" "p q" and "q \<notin> set (latest k n p rows)"
  moreover from this have "q \<in> set (take n ?s @ drop n ?s)" by simp
  ultimately show "k q \<le> k r"
    using sorted unfolding latest_def sorted_wrt_append set_append by blast
qed

lemma all_some_map: "(\<And>a. a \<in> set as \<Longrightarrow> f a = Some (g a)) \<Longrightarrow> all_some f as = Some (map g as)"
  by (induction as) simp_all

text \<open>The contract's parsers read back the identities and instants that the service prints.\<close>

definition reads_back :: "api_codec \<Rightarrow> bool" where
  "reads_back cx \<longleftrightarrow>
     (\<forall>u. run_parse cx (uuid_text u) = Some u \<and> result_parse cx (uuid_text u) = Some u)
     \<and> (\<forall>t. created_parse cx (created_text cx t) = Some t)
     \<and> (\<forall>h. is_sha256_hex h \<longrightarrow> digest_parse cx h = Some h)"

fun wire_outcome :: "run_state \<Rightarrow> digest_outcome" where
  "wire_outcome Completed = Digest_Completed"
| "wire_outcome Partial = Digest_Partial"
| "wire_outcome _ = Digest_Failed"

definition summary_of :: "result_row \<Rightarrow> digest_result_summary" where
  "summary_of r = \<lparr>rs_result = res_id r, rs_run = res_run r, rs_outcome = wire_outcome (res_outcome r),
     rs_failure = res_failure r, rs_created = res_created r\<rparr>"

lemma stored_outcome:
  assumes "result_checks r"
  shows "outcome_of (state_as_str (res_outcome r)) = Some (wire_outcome (res_outcome r))"
  using assms by (cases "res_outcome r") (simp_all add: result_checks_def outcome_of_def)

text \<open>
  A page of results is the newest of the owner. In every reachable state, an admitted request for a page
  of at most \<open>n\<close> results gets the summaries of \<open>n\<close> distinct results of its owner, or of all of them when they
  are fewer, newest first, none of them older than one it leaves out, as long as the stored failure
  classes parse.
\<close>

theorem results_page_newest:
  assumes "reachable x d" and "admitted cx st request owner" and "hr_route request = Owned Results_Route"
    and "page_of cx st request = Inr n" and "reads_back cx"
    and "\<And>r c. r \<in> set (results d) \<Longrightarrow> res_failure r = Some c \<Longrightarrow> failure_parse cx c = Some c"
  shows "n \<le> 100 \<and> (\<exists>rows. answer_of (serve cx st request) d
        = Inr \<lparr>re_status = 200, re_body = Results_Body (map summary_of rows), re_no_store = True\<rparr>
     \<and> set rows \<subseteq> set (results d) \<and> list_all (\<lambda>r. res_owner r = owner) rows \<and> unique_by res_run rows
     \<and> length rows = min n (count_where (\<lambda>r. res_owner r = owner) (results d))
     \<and> sorted_wrt (\<lambda>a b. (res_created b, res_id b) \<le> (res_created a, res_id a)) rows
     \<and> (\<forall>r \<in> set rows. \<forall>q \<in> set (results d). res_owner q = owner \<longrightarrow> q \<notin> set rows
          \<longrightarrow> (res_created q, res_id q) \<le> (res_created r, res_id r)))"
proof -
  let ?rows = "result_rows owner n d"
  have ok: "evidence_ok {} {} d" using reachable_ok(4) [OF assms(1)] .
  have rows: "r \<in> set (results d) \<and> res_owner r = owner" if "r \<in> set ?rows" for r
    using that by (auto simp: result_rows_def dest: set_latest)
  have "result_summary cx r = Some (summary_of r)" if "r \<in> set ?rows" for r
    using rows [OF that] ok assms(5,6)
    by (cases "res_failure r")
      (auto simp: result_summary_def reads_back_def evidence_ok_def list_all_iff stored_outcome
        failure_class_of_def summary_of_def)
  then have "all_some (result_summary cx) ?rows = Some (map summary_of ?rows)" by (rule all_some_map)
  then have answer: "answer_of (serve cx st request) d
      = Inr \<lparr>re_status = 200, re_body = Results_Body (map summary_of ?rows), re_no_store = True\<rparr>"
    using assms(4)
    by (simp add: admitted_serve [OF assms(2,3)] owner_scoped_def answer_no_store list_results_def
        answer_fetching plain_def)
  have unique: "unique_by res_run ?rows"
  proof -
    let ?f = "filter (\<lambda>r. res_owner r = owner) (results d)"
    have "unique_by res_run ?f" using ok by (simp add: evidence_ok_def distinct_map_filter)
    moreover have "mset (map res_run (rev (sort_key (\<lambda>r. (res_created r, res_id r)) ?f)))
        = mset (map res_run ?f)" by simp
    then have "unique_by res_run (rev (sort_key (\<lambda>r. (res_created r, res_id r)) ?f)) = unique_by res_run ?f"
      by (rule mset_eq_imp_distinct_iff)
    ultimately have "unique_by res_run (rev (sort_key (\<lambda>r. (res_created r, res_id r)) ?f))" by simp
    then show ?thesis unfolding result_rows_def latest_def take_map [symmetric] by simp
  qed
  have limit: "n \<le> 100"
    using assms(4) by (auto simp: page_of_def checked_page_size_def Let_def max_requested_page_size_def
        split: option.splits if_splits)
  have size: "length ?rows = min n (count_where (\<lambda>r. res_owner r = owner) (results d))"
    by (simp add: result_rows_def length_latest)
  have order: "sorted_wrt (\<lambda>a b. (res_created b, res_id b) \<le> (res_created a, res_id a)) ?rows"
    and newest: "\<forall>r \<in> set ?rows. \<forall>q \<in> set (results d). res_owner q = owner \<longrightarrow> q \<notin> set ?rows
          \<longrightarrow> (res_created q, res_id q) \<le> (res_created r, res_id r)"
    unfolding result_rows_def
    using latest_order [where k = "\<lambda>r. (res_created r, res_id r)" and p = "\<lambda>r. res_owner r = owner"] by blast+
  have owned: "set ?rows \<subseteq> set (results d)" "list_all (\<lambda>r. res_owner r = owner) ?rows"
    using rows by (auto simp: list_all_iff)
  show ?thesis
    by (intro conjI exI [of _ ?rows] limit answer owned unique size order newest)
qed

lemma read_result_linked:
  assumes "read_result send decode reader analysis expected = Inr p"
  shows "pj_digest p = expected" and "is_sha256_hex expected" and "\<exists>members. pj_recap p = JObject members"
proof -
  from assms obtain e where "linked analysis expected e" and "pj_digest p = ke_hex e" "pj_recap p = ke_recap e"
    by (auto simp: read_result_def accept_response_def accept_body_def and_then_Inr
        split: sum.splits option.splits if_splits)
  then show "pj_digest p = expected" and "is_sha256_hex expected" and "\<exists>members. pj_recap p = JObject members"
    by (cases "ke_recap e"; simp add: linked_def)+
qed

lemma result_view_failed:
  assumes "result_checks r" and "reads_back cx" and "res_outcome r = Failed"
    and "\<And>c. res_failure r = Some c \<Longrightarrow> failure_parse cx c = Some c"
  shows "result_view cx read r = Inr \<lparr>rv_result = res_id r, rv_run = res_run r, rv_outcome = Digest_Failed,
     rv_recap_id = None, rv_citations = None, rv_digest = None, rv_recap = None, rv_failure = res_failure r\<rparr>"
  using assms stored_outcome [OF assms(1)]
  by (cases "res_failure r")
    (simp_all add: result_view_def or_status_def reads_back_def failure_class_of_def)

lemma result_view_finished:
  assumes "result_checks r" and "reads_back cx" and "res_outcome r \<noteq> Failed" and "res_citations r < 2 ^ 16"
    and "res_recap r = Some recap" and "res_digest r = Some digest"
  shows "result_view cx (read_result send decode reader) r =
     (case read_result send decode reader recap digest of
        Inl e \<Rightarrow> Inl (upstream_status e)
      | Inr p \<Rightarrow> Inr \<lparr>rv_result = res_id r, rv_run = res_run r, rv_outcome = wire_outcome (res_outcome r),
          rv_recap_id = Some recap, rv_citations = Some (nat (res_citations r)), rv_digest = Some digest,
          rv_recap = object_members (pj_recap p), rv_failure = None\<rparr>)"
proof -
  have outcome: "wire_outcome (res_outcome r) \<noteq> Digest_Failed"
    using assms(1,3) by (cases "res_outcome r") (simp_all add: result_checks_def)
  have cited: "u16_of (res_citations r) = Some (nat (res_citations r))"
    using assms(1,4) by (simp add: u16_of_def result_checks_def)
  show ?thesis
  proof (cases "read_result send decode reader recap digest")
    case (Inl e)
    with assms outcome stored_outcome [OF assms(1)] show ?thesis
      by (simp add: result_view_def or_status_def reads_back_def)
  next
    case (Inr p)
    from read_result_linked [OF Inr] obtain members where "pj_recap p = JObject members" by blast
    with Inr read_result_linked [OF Inr] assms outcome cited stored_outcome [OF assms(1)] show ?thesis
      by (simp add: result_view_def or_status_def reads_back_def object_members_def)
  qed
qed

text \<open>
  C28: a finished digest is served from Knowledge. In every reachable state, an admitted request for a result
  answers 404 exactly when the owner has no such result. A failed result is served from the tables. A
  completed or partial one always holds the analysis and the digest to ask Knowledge for: it is
  served with the recap when the reader accepts what Knowledge sent, and is otherwise 502 or 503.
\<close>

theorem result_served:
  assumes "reachable x d" and "admitted cx st request owner"
    and "hr_route request = Owned (Result_Route path)" and "path_parse cx path = Some result"
    and "reads_back cx" and "as_read st = read_result send decode reader"
    and "\<And>r. r \<in> set (results d) \<Longrightarrow> res_citations r < 2 ^ 16"
    and "\<And>r c. r \<in> set (results d) \<Longrightarrow> res_failure r = Some c \<Longrightarrow> failure_parse cx c = Some c"
  shows "\<exists>status body. answer_of (serve cx st request) d
        = Inr \<lparr>re_status = status, re_body = body, re_no_store = True\<rparr>
     \<and> (case owned_result result owner d of
          None \<Rightarrow> status = 404 \<and> body = No_Body
        | Some r \<Rightarrow>
            if res_outcome r = Failed
            then status = 200 \<and> (\<exists>v. body = Result_Body v \<and> rv_result v = result
              \<and> rv_run v = res_run r \<and> rv_recap v = None \<and> rv_failure v = res_failure r)
            else (\<exists>recap digest. res_recap r = Some recap \<and> res_digest r = Some digest
              \<and> (case read_result send decode reader recap digest of
                   Inl Read_Unavailable \<Rightarrow> status = 503 \<and> body = No_Body
                 | Inl Read_Invalid \<Rightarrow> status = 502 \<and> body = No_Body
                 | Inr p \<Rightarrow> status = 200 \<and> (\<exists>v. body = Result_Body v \<and> rv_result v = result
                     \<and> rv_run v = res_run r \<and> rv_digest v = Some digest
                     \<and> rv_recap v = object_members (pj_recap p)))))"
proof -
  have ok: "evidence_ok {} {} d" using reachable_ok(4) [OF assms(1)] .
  have answer: "answer_of (serve cx st request) d = Inr ((case owned_result result owner d of
      None \<Rightarrow> status_only 404
    | Some r \<Rightarrow> (case result_view cx (read_result send decode reader) r of
        Inr view \<Rightarrow> plain 200 (Result_Body view) | Inl status \<Rightarrow> status_only status))\<lparr>re_no_store := True\<rparr>)"
    unfolding assms(6) [symmetric] using assms(4)
    by (simp add: admitted_serve [OF assms(2,3)] owner_scoped_def answer_no_store get_result_def answer_fetching)
  show ?thesis
  proof (cases "owned_result result owner d")
    case None
    with answer show ?thesis by (simp add: plain_def)
  next
    case (Some r)
    then have r: "r \<in> set (results d)" "res_id r = result"
      using select_one_Some [OF Some [unfolded owned_result_def]] by simp_all
    then have checks: "result_checks r" using ok by (simp add: evidence_ok_def list_all_iff)
    show ?thesis
    proof (cases "res_outcome r = Failed")
      case True
      with answer Some r result_view_failed [OF checks assms(5) True assms(8) [OF r(1)]]
      show ?thesis by (simp add: plain_def)
    next
      case False
      then obtain recap digest where held: "res_recap r = Some recap" "res_digest r = Some digest"
        using checks by (auto simp: result_checks_def)
      note view = result_view_finished [OF checks assms(5) False assms(7) [OF r(1)] held]
      show ?thesis
      proof (cases "read_result send decode reader recap digest")
        case (Inl e)
        with answer Some view held False show ?thesis by (cases e) (simp_all add: plain_def)
      next
        case (Inr p)
        with answer Some view held False r show ?thesis by (simp add: plain_def)
      qed
    qed
  qed
qed

section \<open>An instance\<close>

definition hex_value :: "char \<Rightarrow> nat" where
  "hex_value c = (let n = of_char c in if n < 97 then n - 48 else n - 87)"

definition uuid_of_text :: "string \<Rightarrow> uuid" where
  "uuid_of_text s = of_nat (foldl (\<lambda>n c. n * 16 + hex_value c) 0 (filter (\<lambda>c. c \<noteq> CHR ''-'') s))"

lemma hex_value_char: "n < 16 \<Longrightarrow> hex_value (hex_char n) = n" "n < 16 \<Longrightarrow> hex_char n \<noteq> CHR ''-''"
proof -
  have "list_all (\<lambda>n. hex_value (hex_char n) = n \<and> hex_char n \<noteq> CHR ''-'') [0..<16]" by code_simp
  then show "n < 16 \<Longrightarrow> hex_value (hex_char n) = n" "n < 16 \<Longrightarrow> hex_char n \<noteq> CHR ''-''"
    by (simp_all add: list_all_iff)
qed

lemma hex_read: "foldl (\<lambda>n c. n * 16 + hex_value c) 0 (hex k n) = n mod 16 ^ k"
  by (induction k arbitrary: n) (simp_all add: hex_value_char mod_mult2_eq mult.commute)

lemma hex_no_dash: "list_all (\<lambda>c. c \<noteq> CHR ''-'') (hex k n)"
  by (induction k arbitrary: n) (simp_all add: hex_value_char)

lemma uuid_of_text [simp]: "uuid_of_text (uuid_text u) = u"
proof -
  let ?h = "hex 32 (unat u)" and ?keep = "filter (\<lambda>c. c \<noteq> CHR ''-'')"
  have keep: "?keep (take i (drop j ?h)) = take i (drop j ?h)" "?keep (drop j ?h) = drop j ?h"
      "?keep (take i ?h) = take i ?h" for i j
    using hex_no_dash [of 32 "unat u"]
    by (auto intro!: filter_True dest!: in_set_takeD in_set_dropD simp: list_all_iff)
  have "take 8 ?h @ take 4 (drop 8 ?h) @ take 4 (drop 12 ?h) @ take 4 (drop 16 ?h) @ drop 20 ?h = ?h"
    using append_take_drop_id [of 4 "drop 16 ?h"] append_take_drop_id [of 4 "drop 12 ?h"]
      append_take_drop_id [of 4 "drop 8 ?h"] append_take_drop_id [of 8 ?h] by simp
  then have "?keep (uuid_text u) = ?h" by (simp add: uuid_text_def Let_def keep)
  moreover have "unat u < 16 ^ 32" using unsigned_less [of u] by simp
  then have "unat u mod 16 ^ 32 = unat u" by (rule mod_less)
  ultimately have "uuid_of_text (uuid_text u) = word_of_nat (unat u)"
    unfolding uuid_of_text_def by (simp only: hex_read)
  then show ?thesis by simp
qed

definition demo_api :: api_codec where
  "demo_api =
     \<lparr>owner_header = ''x-owner'', run_header = ''x-run'', digest_header = ''x-digest'',
      user_parse = (\<lambda>s. Some (uuid_of_text s)), path_parse = (\<lambda>s. Some (uuid_of_text s)),
      query_parse = (\<lambda>_. Some None), run_parse = (\<lambda>s. Some (uuid_of_text s)), digest_parse = Some,
      subscription_parse = (\<lambda>s. Some (uuid_of_text s)), result_parse = (\<lambda>s. Some (uuid_of_text s)),
      username_parse = Some, failure_parse = Some, created_text = int_text, created_parse = int_parse\<rparr>"

definition demo_upstream :: "http_get \<Rightarrow> unit + http_response" where
  "demo_upstream = (\<lambda>_. Inr \<lparr>ht_status = 200, ht_content_type = Some ''application/json'', ht_length = None,
     ht_chunks = [Inr ''recap'']\<rparr>)"

definition demo_decode :: "string \<Rightarrow> knowledge_envelope option" where
  "demo_decode s = Some \<lparr>ke_analysis = 9, ke_algorithm = ''sha256'', ke_hex = replicate 64 (CHR ''b''),
     ke_recap = JObject [(s, JNull)]\<rparr>"

definition demo_api_state :: api_state where
  "demo_api_state = \<lparr>as_secret = ''secret'', as_page_limit = 100,
     as_read = read_result demo_upstream demo_decode demo_reader\<rparr>"

definition demo_get :: "string \<Rightarrow> uuid \<Rightarrow> route \<Rightarrow> request" where
  "demo_get bearer owner path =
     \<lparr>hr_route = path,
      hr_headers = [(''authorization'', Some (''Bearer '' @ bearer)), (''x-owner'', Some (uuid_text owner)),
        (''x-run'', Some (uuid_text 5)), (''x-digest'', Some (demo_sha256 ''manifest''))],
      hr_query = []\<rparr>"

lemma demo_bearer: "supplied_bearer (demo_get bearer owner path) = Some bearer"
  by (simp add: supplied_bearer_def header_text_def demo_get_def bearer_prefix_def)

lemma demo_owner: "request_owner demo_api (demo_get bearer owner path) = Some owner"
  by (simp add: request_owner_def header_text_def demo_get_def demo_api_def)

lemma demo_admitted: "admitted demo_api demo_api_state (demo_get ''secret'' owner path) owner"
  by (simp add: admitted_def demo_bearer demo_owner) (simp add: demo_api_state_def)

lemma demo_reads_back: "reads_back demo_api"
  by (simp add: reads_back_def demo_api_def)

theorem access_decided_witness:
  "serve demo_api demo_api_state (demo_get ''wrong'' 7 (Owned Results_Route)) (healthy demo_completed)
     = (Inr \<lparr>re_status = 401, re_body = No_Body, re_no_store = True\<rparr>, healthy demo_completed)"
  by (subst access_decided) (simp_all add: demo_bearer demo_api_state_def)

theorem owners_isolated_witness:
  "fst (serve demo_api demo_api_state (demo_get ''secret'' 8 (Owned Results_Route)) (healthy demo_completed))
     = fst (serve demo_api demo_api_state (demo_get ''secret'' 8 (Owned Results_Route)) (healthy demo_accepted))"
  unfolding healthy_def
  by (rule owners_isolated [THEN conjunct1])
    (auto simp: demo_owner owner_rows_def demo_completed_rows demo_accepted_rest demo_stored_def
      stored_manifest_def demo_manifest_def demo_result_def)

theorem manifest_claims_gate_witness:
  "answer_of (serve demo_api demo_api_state (demo_get ''secret'' 7 (Owned (Manifest_Route (uuid_text 30)))))
     demo_completed = Inr \<lparr>re_status = 200, re_body = Manifest_Body ''manifest'', re_no_store = True\<rparr>"
proof -
  have path: "hr_route (demo_get ''secret'' 7 (Owned (Manifest_Route p))) = Owned (Manifest_Route p)"
    "path_parse demo_api (uuid_text u) = Some u" for p u
    by (simp_all add: demo_get_def demo_api_def)
  have claims: "Option.bind (header_text (demo_get b w p) (run_header demo_api)) (run_parse demo_api) = Some 5"
    "Option.bind (header_text (demo_get b w p) (digest_header demo_api)) (digest_parse demo_api)
       = Some (demo_sha256 ''manifest'')" for b w p
    by (simp_all add: header_text_def demo_get_def demo_api_def)
  have row: "man_id demo_stored = 30" "man_owner demo_stored = 7" "man_run demo_stored = 5"
    "man_sha256 demo_stored = demo_sha256 ''manifest''" "man_text demo_stored = Some ''manifest''"
    by (simp_all add: demo_stored_def stored_manifest_def demo_manifest_def)
  from manifest_claims_gate [OF demo_completed_reachable demo_admitted path(1) path(2) [of 30]]
  obtain status content
    where answer: "answer_of (serve demo_api demo_api_state (demo_get ''secret'' 7
        (Owned (Manifest_Route (uuid_text 30))))) demo_completed
        = Inr \<lparr>re_status = status, re_body = content, re_no_store = True\<rparr>"
      and "\<forall>text. (status = 200 \<and> content = Manifest_Body text) = (text = ''manifest'')"
    unfolding Let_def claims demo_completed_rows by (auto simp: row)
  then have "status = 200 \<and> content = Manifest_Body ''manifest''" by blast
  with answer show ?thesis by simp
qed

theorem results_page_newest_witness:
  "answer_of (serve demo_api demo_api_state (demo_get ''secret'' 7 (Owned Results_Route))) demo_completed
     = Inr \<lparr>re_status = 200, re_body = Results_Body [summary_of demo_result], re_no_store = True\<rparr>"
proof -
  have "page_of demo_api demo_api_state (demo_get ''secret'' 7 (Owned Results_Route)) = Inr 50"
    by (simp add: page_of_def demo_api_def demo_api_state_def default_page_size_def checked_page_size_def
        max_requested_page_size_def i64_limit_def)
  from results_page_newest [OF demo_completed_reachable demo_admitted _ this demo_reads_back]
  obtain rows where rows: "answer_of (serve demo_api demo_api_state (demo_get ''secret'' 7 (Owned Results_Route)))
        demo_completed = Inr \<lparr>re_status = 200, re_body = Results_Body (map summary_of rows), re_no_store = True\<rparr>"
      "set rows \<subseteq> {demo_result}" "length rows = 1"
    by (auto simp: demo_get_def demo_completed_rows demo_result_def count_where_def)
  then show ?thesis by (cases rows) auto
qed

theorem result_served_witness:
  "\<exists>v. answer_of (serve demo_api demo_api_state (demo_get ''secret'' 7 (Owned (Result_Route (uuid_text 50)))))
     demo_completed = Inr \<lparr>re_status = 200, re_body = Result_Body v, re_no_store = True\<rparr>
     \<and> rv_recap v = Some [(''recap'', JNull)]"
proof -
  let ?get = "demo_get ''secret'' 7 (Owned (Result_Route (uuid_text 50)))"
  have path: "hr_route ?get = Owned (Result_Route (uuid_text 50))" "path_parse demo_api (uuid_text 50) = Some 50"
    "as_read demo_api_state = read_result demo_upstream demo_decode demo_reader"
    by (simp_all add: demo_get_def demo_api_def demo_api_state_def)
  have "is_sha256_hex (replicate 64 (CHR ''b''))" and "is_json_type (Some ''application/json'')" by code_simp+
  then have read: "read_result demo_upstream demo_decode demo_reader 9 (replicate 64 (CHR ''b''))
      = Inr \<lparr>pj_analysis = 9, pj_digest = replicate 64 (CHR ''b''), pj_recap = JObject [(''recap'', JNull)]\<rparr>"
    by (simp add: read_result_def demo_upstream_def accept_response_def is_server_error_def demo_reader_def
        accept_body_def demo_decode_def linked_def usize_max_def)
  have "owned_result 50 7 demo_completed = Some demo_result"
    by (simp add: owned_result_def demo_completed_rows select_one_def demo_result_def)
  with result_served [OF demo_completed_reachable demo_admitted path(1,2) demo_reads_back path(3)] read
  show ?thesis
    by (auto simp: demo_completed_rows demo_result_def object_members_def)
qed

end
