(* ===== verification/Outflow.thy ===== *)
theory Outflow
  imports Scenario
begin

text \<open>
  What the outbox holds and what leaves it. Every row that the service queues wraps into an envelope
  that carries it, no row is marked as published that the broker has not stored, and a pass over the
  due rows marks exactly the acknowledged ones.
\<close>

section \<open>The rows that the service queues\<close>

definition good_row :: "externals \<Rightarrow> outbox_row \<Rightarrow> bool" where
  "good_row x r \<longleftrightarrow> good_payload x (out_subject r) (out_payload r) \<and> good_causation (out_causation r)"

text \<open>
  \<open>queued_from x S\<close>: the primary key and the key of the outbox hold, every row is good, and the
  published rows are among \<open>S\<close>.
\<close>

definition queued_from :: "externals \<Rightarrow> outbox_row set \<Rightarrow> db \<Rightarrow> bool" where
  "queued_from x S d \<longleftrightarrow>
     unique_by out_id (outbox d) \<and> unique_by (\<lambda>r. (out_subject r, out_key r)) (outbox d)
     \<and> (\<forall>r \<in> set (outbox d). good_row x r \<and> (out_published r \<noteq> None \<longrightarrow> r \<in> S))"

definition flows :: "externals \<Rightarrow> outbox_row set \<Rightarrow> (db, 'e, 'a) io \<Rightarrow> bool" where
  "flows x S m \<longleftrightarrow> (\<forall>d. queued_from x S d \<longrightarrow> wp m (\<lambda>_. queued_from x S) d)"

lemma queued_from_cong: "outbox d' = outbox d \<Longrightarrow> queued_from x S d' = queued_from x S d"
  by (simp add: queued_from_def)

lemma queued_from_append:
  assumes "queued_from x S d" and "good_row x r" and "out_published r = None"
    and "\<not> outbox_id_taken (out_id r) d" and "\<not> outbox_conflict (out_subject r) (out_key r) d"
    and "outbox d' = outbox d @ [r]"
  shows "queued_from x S d'"
  using assms by (auto simp: queued_from_def outbox_conflict_def)

named_theorems flows_intros \<open>closure rules of programs that keep the outbox\<close>

lemma flows_basic [flows_intros]:
  "flows x S (ret v)" "flows x S (raise e)" "flows x S (guard e b)" "flows x S (ok_or e w)"
  by (auto simp: flows_def intro: wp_intros)

lemma flows_bind_result [flows_intros]:
  "(\<And>v. z = Inr v \<Longrightarrow> flows x S (k v)) \<Longrightarrow> flows x S (bind_io (map_err f (from_result z)) k)"
  "(\<And>v. z = Inr v \<Longrightarrow> flows x S (g v)) \<Longrightarrow> flows x S (bind_io (from_result z) g)"
  unfolding flows_def by (auto intro!: wp_intros)

lemma flows_bind: "flows x S m \<Longrightarrow> (\<And>v. flows x S (k v)) \<Longrightarrow> flows x S (bind_io m k)"
  unfolding flows_def by (metis (no_types, lifting) wp_bind wp_mono)

lemma flows_map_err [flows_intros]: "flows x S m \<Longrightarrow> flows x S (map_err f m)"
  by (auto simp: flows_def intro: wp_map_err)

lemma flows_cases [flows_intros]:
  "(b \<Longrightarrow> flows x S m) \<Longrightarrow> (\<not> b \<Longrightarrow> flows x S n) \<Longrightarrow> flows x S (if b then m else n)"
  "flows x S m \<Longrightarrow> (\<And>v. flows x S (k v)) \<Longrightarrow> flows x S (case z of None \<Rightarrow> m | Some v \<Rightarrow> k v)"
  "(\<And>v w. flows x S (h v w)) \<Longrightarrow> flows x S (case y of (v, w) \<Rightarrow> h v w)"
  by (simp_all split: option.split prod.split)

lemma flows_for_each [flows_intros]: "(\<And>v. flows x S (f v)) \<Longrightarrow> flows x S (for_each f vs)"
  by (auto simp: flows_def intro: wp_for_each)

lemma flows_frame:
  assumes "\<And>d v d'. q d = Inr (v, d') \<Longrightarrow> outbox d' = outbox d"
  shows "flows x S (stmt q)" and "flows x S (catch_raised (stmt q))"
proof -
  have "queued_from x S d'" if "queued_from x S d" "q d = Inr (v, d')" for d v d'
    using queued_from_cong [OF assms [OF that(2)]] that(1) by simp
  then show "flows x S (stmt q)" and "flows x S (catch_raised (stmt q))"
    by (auto simp: flows_def intro!: wp_stmt wp_catch_stmt)
qed

text \<open>The statements that leave the outbox alone.\<close>

lemma insert_run_outbox: "insert_run r d = Inr (b, d') \<Longrightarrow> outbox d' = outbox d"
  by (auto simp: insert_run_def split: if_splits)

lemma create_digest_run_outbox:
  "create_digest_run now run owner operation trigger key start end d = Inr (i, d') \<Longrightarrow> outbox d' = outbox d"
  by (erule create_digest_run_cases) simp_all

lemma insert_result_outbox: "insert_result r d = Inr (b, d') \<Longrightarrow> outbox d' = outbox d"
  by (auto simp: insert_result_def split: if_splits)

lemma flows_statements [flows_intros]:
  "flows x S (stmt (query f))" "flows x S (stmt (reading g))"
  "flows x S (stmt (insert_inbox i))" "flows x S (stmt (complete_inbox now message))"
  "flows x S (stmt (update_runs p h))" "flows x S (stmt (insert_manifest m))"
  "flows x S (stmt (insert_manifest_sources j held))"
  by (rule flows_frame; auto simp: reading_def insert_inbox_def complete_inbox_def update_runs_def
      insert_manifest_def insert_manifest_sources_def Let_def split: sum.splits if_splits)+

lemma flows_rows [flows_intros]:
  "flows x S (catch_raised (stmt (set_subscription fs fc owner username enabled t)))"
  "flows x S (stmt (create_commanded_run y now command))"
  "flows x S (stmt (insert_scheduled_run y now fresh owner operation key window language))"
  "flows x S (stmt (insert_completed_result now evt analysis outcome))"
  "flows x S (stmt (insert_failed_result now fresh flt manifest cls))"
proof -
  show "flows x S (catch_raised (stmt (set_subscription fs fc owner username enabled t)))"
  proof (rule flows_frame(2))
    fix d v d'
    assume "set_subscription fs fc owner username enabled t d = Inr (v, d')"
    from arg_cong [OF set_subscription_frame [OF this], of outbox] show "outbox d' = outbox d" by simp
  qed
  show "flows x S (stmt (create_commanded_run y now command))"
    by (rule flows_frame)
      (auto simp: create_commanded_run_def split: option.splits dest: create_digest_run_outbox)
  show "flows x S (stmt (insert_scheduled_run y now fresh owner operation key window language))"
    by (rule flows_frame)
      (auto simp: insert_scheduled_run_def split: option.splits dest!: insert_run_outbox)
  show "flows x S (stmt (insert_completed_result now evt analysis outcome))"
    by (rule flows_frame)
      (auto simp: insert_completed_result_def split: option.splits sum.splits dest!: insert_result_outbox)
  show "flows x S (stmt (insert_failed_result now fresh flt manifest cls))"
    by (rule flows_frame) (auto simp: insert_failed_result_def dest!: insert_result_outbox)
qed

text \<open>The statements that queue a row.\<close>

lemma flows_enqueue:
  assumes caused: "good_causation (rr_causation row)"
  shows "flows x S (enqueue x now fresh row)"
  unfolding flows_def
proof (intro allI impI)
  fix d
  let ?r = "queued_report now fresh row"
  assume from_S: "queued_from x S d"
  have "wp (stmt (insert_outbox_once ?r)) (\<lambda>_. queued_from x S) d" if "valid_report x (rr_report row)"
  proof (rule wp_stmt)
    have "good_row x ?r" using caused that by (simp add: good_row_def good_payload_def queued_report_def)
    moreover have "out_published ?r = None" by (simp add: queued_report_def)
    moreover fix u d'
    assume "insert_outbox_once ?r d = Inr (u, d')"
    ultimately show "queued_from x S d'"
      using from_S by (auto simp: insert_outbox_once_def split: if_splits intro: queued_from_append)
  qed
  then show "wp (enqueue x now fresh row) (\<lambda>_. queued_from x S) d"
    unfolding enqueue_def by (intro wp_bind wp_guard wp_map_err)
qed

lemma flows_request:
  assumes "checked_recap_request x m raw = Inr request"
  shows "flows x S (stmt (insert_outbox (queued_request now fresh m request)))"
  unfolding flows_def
proof (intro allI impI wp_stmt)
  fix d u d'
  let ?r = "queued_request now fresh m request"
  assume "queued_from x S d" and "insert_outbox ?r d = Inr (u, d')"
  moreover have "good_row x ?r"
    using assms by (auto simp: checked_recap_request_def good_row_def good_payload_def good_causation_def
        queued_request_def split: option.splits if_splits)
  moreover have "out_published ?r = None" by (simp add: queued_request_def)
  ultimately show "queued_from x S d'"
    by (auto simp: insert_outbox_def split: if_splits intro: queued_from_append)
qed

text \<open>A registration may replace the one row of its key: the row loses its mark.\<close>

lemma queued_from_requeue:
  assumes from_S: "queued_from x S d" and new: "good_row x r" "out_causation r = None"
    and "out_published r = None" and free: "out_id r \<notin> out_id ` set (filter (\<lambda>q. \<not> same_key r q) (outbox d))"
  shows "queued_from x S (d\<lparr>outbox := update_where (same_key r) (requeue r) (outbox d)\<rparr>)"
proof -
  let ?rows = "outbox d"
  let ?new = "update_where (same_key r) (requeue r) ?rows"
  have keys: "map (\<lambda>q. (out_subject q, out_key q)) ?new = map (\<lambda>q. (out_subject q, out_key q)) ?rows"
    by (rule map_update_where) (simp add: requeue_def)
  have ids: "unique_by out_id ?rows" and uniq: "unique_by (\<lambda>q. (out_subject q, out_key q)) ?rows"
    using from_S by (simp_all add: queued_from_def)
  have "unique_by out_id ?new"
  proof (cases "\<exists>q \<in> set ?rows. same_key r q")
    case True
    then obtain q where q: "q \<in> set ?rows" "same_key r q" by blast
    have "same_key r s \<longleftrightarrow> (out_subject s, out_key s) = (out_subject q, out_key q)" for s
      using q(2) by (auto simp: same_key_def)
    from update_where_key_split [OF uniq q(1) this, of "requeue r"]
    obtain xs ys where rows: "?rows = xs @ q # ys" and renewed: "?new = xs @ requeue r q # ys" .
    have others: "\<not> same_key r s" if "s \<in> set xs \<union> set ys" for s
      using uniq that q(2) unfolding rows by (auto simp: same_key_def rev_image_eqI)
    then have "out_id r \<notin> out_id ` set xs \<union> out_id ` set ys"
      using free unfolding rows by auto
    with ids have "unique_by out_id (xs @ requeue r q # ys)"
      unfolding rows by (auto simp: requeue_def)
    with renewed show ?thesis by simp
  next
    case False
    then have "?new = ?rows" by (intro update_where_none) blast
    with ids show ?thesis by simp
  qed
  moreover have "good_row x q \<and> (out_published q \<noteq> None \<longrightarrow> q \<in> S)" if "q \<in> set ?new" for q
    using that
  proof (cases rule: in_update_whereE)
    case (1 s)
    moreover have "good_row x s" using from_S 1(1) by (simp add: queued_from_def)
    ultimately show ?thesis
      using new by (auto simp: requeue_def good_row_def same_key_def)
  next
    case 2
    with from_S show ?thesis by (simp add: queued_from_def)
  qed
  ultimately show ?thesis using uniq keys by (simp add: queued_from_def)
qed

lemma flows_registration:
  assumes "registration x schedule = Inr payload"
  shows "flows x S (stmt (upsert_outbox (queued_registration now fresh key owner payload)))"
  unfolding flows_def
proof (intro allI impI wp_stmt)
  fix d u d'
  let ?r = "queued_registration now fresh key owner payload"
  assume from_S: "queued_from x S d" and run: "upsert_outbox ?r d = Inr (u, d')"
  have good: "good_row x ?r" "out_causation ?r = None" "out_published ?r = None"
    using assms by (auto simp: registration_def good_row_def good_payload_def good_causation_def
        queued_registration_def split: if_splits)
  show "queued_from x S d'"
  proof (cases "list_ex (same_key ?r) (outbox d)")
    case True
    with run from_S good show ?thesis
      by (auto simp: upsert_outbox_def split: if_splits intro!: queued_from_requeue)
  next
    case False
    then have "\<not> outbox_conflict (out_subject ?r) (out_key ?r) d"
      by (auto simp: outbox_conflict_def list_ex_iff same_key_def)
    moreover from False have "filter (\<lambda>q. \<not> same_key ?r q) (outbox d) = outbox d"
      by (auto simp: list_ex_iff filter_id_conv)
    ultimately show ?thesis
      using run from_S good False
      by (auto simp: upsert_outbox_def split: if_splits intro: queued_from_append)
  qed
qed

section \<open>Every transaction keeps the outbox\<close>

lemma flows_wrapped [flows_intros]:
  "flows x S m \<Longrightarrow> flows x S (storage m)" "flows x S n \<Longrightarrow> flows x S (stored n)"
  "flows x S (on_demand_operation run owner)"
  by (simp_all add: storage_def stored_def on_demand_operation_def flows_intros)

lemma good_causation_simps [simp]:
  "good_causation None" "good_causation (Some (command_reference u))"
  "good_causation (Some (CHR ''e'' # CHR ''v'' # CHR ''e'' # CHR ''n'' # CHR ''t'' # CHR '':'' # uuid_text u))"
  by (auto simp: good_causation_def)

lemma flows_report_owned:
  assumes "\<And>operation row. built operation = Inr row \<Longrightarrow> good_causation (rr_causation row)"
  shows "flows x S (report_owned x now fresh run owner built)"
  unfolding report_owned_def
  by (intro flows_bind_result flows_cases(2) flows_bind flows_intros flows_enqueue) (use assms in blast)

lemmas flows_steps = flows_bind_result flows_bind flows_intros flows_enqueue flows_report_owned

lemma keeps_outbox_transaction: "flows x S body \<Longrightarrow> preserves (queued_from x S) (transaction u body)"
  by (rule preserves_transaction) (auto simp: flows_def elim: wp_mono)

lemma outbox_of_intake:
  "preserves (queued_from x S) (reject x c r)"
  "preserves (queued_from x S) (transaction u (subscription_body x c message payload command))"
  "preserves (queued_from x S) (transaction u (run_body x c message payload requested))"
  unfolding reject_def reject_body_def subscription_body_def run_body_def queue_started_def set_language_def
  by (intro keeps_outbox_transaction flows_steps; auto simp: report_builders rejection_report_def)+

lemma outbox_of_runs:
  "preserves (queued_from x S) (complete_empty_run x now fresh run owner)"
  "preserves (queued_from x S) (fail_run x now fresh run owner failure)"
  "preserves (queued_from x S) (begin_acquisition x now fresh pn)"
  unfolding complete_empty_run_def fail_run_def begin_acquisition_def begin_body_def
  by (intro keeps_outbox_transaction flows_steps; auto simp: report_builders failed_run_report_def)+

lemma outbox_of_coordinator:
  "preserves (queued_from x S)
     (transaction u (settle_completion_body x now fresh message payload evt analysis incomplete))"
  "preserves (queued_from x S)
     (transaction u (settle_failure_body x now fresh_result fresh message payload flt manifest))"
  "preserves (queued_from x S) (transaction u (accept_occurrence_body x now fresh fresh_runs oc))"
  unfolding settle_completion_body_def settle_failure_body_def accept_occurrence_body_def Let_def
    report_completion_def report_recap_failure_def fan_out_def fan_out_owner_def
  by (intro keeps_outbox_transaction flows_steps;
      auto simp: completion_report_Inr recap_failure_report_def report_builders)+

lemma outbox_of_recap:
  assumes "checked_recap_request x m raw = Inr request"
  shows "preserves (queued_from x S) (transaction u (commit_manifest_body now fresh m request))"
  unfolding commit_manifest_body_def
  by (intro keeps_outbox_transaction flows_steps flows_request [OF assms])

lemma outbox_of_registration:
  assumes "registration x schedule = Inr payload"
  shows "preserves (queued_from x S) (transaction u (registration_body now fresh key owner payload))"
  unfolding registration_body_def
  by (intro keeps_outbox_transaction flows_steps flows_registration [OF assms])

lemma outbox_of_reaper: "preserves (queued_from x S) (reap_once x deadline now locked fresh_reports tick)"
proof -
  have "flows x S (stmt (\<lambda>d. case pg_parse x (jiff_text x tick) of None \<Rightarrow> Inl Violation
         | Some t \<Rightarrow> reap now (t - deadline) locked d))"
    by (rule flows_frame) (auto simp: reap_def Let_def split: option.splits)
  then show ?thesis
    unfolding reap_once_def reap_body_def report_reaped_def
    by (intro keeps_outbox_transaction flows_steps; auto simp: report_builders deadline_report_def)
qed

lemma outbox_of_pooled:
  assumes "\<And>d v d'. q d = Inr (v, d') \<Longrightarrow> outbox d' = outbox d"
  shows "preserves (queued_from x S) (pooled q)"
  by (rule preserves_pooled) (use assms queued_from_cong in metis)

lemma outbox_of_acquisition:
  "preserves (queued_from x S) (record_acquisition run incomplete)"
  "preserves (queued_from x S) (append y fresh ob)"
  "preserves (queued_from x S) (withdraw_missing now channel proved present deleted)"
  "preserves (queued_from x S) (pooled (upsert_lease l))"
  "preserves (queued_from x S) (minimize_before y now locked before limit)"
  "preserves (queued_from x S) (minimize_manifests_before y now locked before limit)"
  unfolding record_acquisition_def append_def withdraw_missing_def minimize_before_def
    minimize_manifests_before_def
  by (intro preserves_map_err outbox_of_pooled;
      auto simp: update_runs_Inr withdraw_def minimize_bodies_def minimize_manifests_def upsert_lease_def
        Let_def elim!: append_revision_cases split: option.splits)+

lemma work_outbox: "work x a b \<Longrightarrow> queued_from x S a \<Longrightarrow> queued_from x S b"
  by (induction rule: work.induct)
    (blast intro: preserves_step outbox_of_intake outbox_of_runs outbox_of_coordinator outbox_of_recap
      outbox_of_registration outbox_of_reaper outbox_of_acquisition)+

section \<open>Publishing keeps the rows\<close>

definition queue_ok :: "externals \<Rightarrow> db \<Rightarrow> bool" where
  "queue_ok x = queued_from x UNIV"

lemma queue_ok_within: "queue_ok x d \<Longrightarrow> queued_from x (set (outbox d)) d"
  by (simp add: queue_ok_def queued_from_def)

lemma queue_ok_moved:
  assumes "queue_ok x d"
    and "\<And>r. out_id (f r) = out_id r \<and> out_subject (f r) = out_subject r \<and> out_key (f r) = out_key r
        \<and> out_payload (f r) = out_payload r \<and> out_causation (f r) = out_causation r"
  shows "queue_ok x (d\<lparr>outbox := update_where p f (outbox d)\<rparr>)"
proof -
  have "good_row x (f r) = good_row x r" for r using assms(2) [of r] by (simp add: good_row_def)
  moreover have "map out_id (update_where p f rows) = map out_id rows"
    and "map (\<lambda>r. (out_subject r, out_key r)) (update_where p f rows) = map (\<lambda>r. (out_subject r, out_key r)) rows"
    for rows by (rule map_update_where, simp add: assms(2))+
  ultimately show ?thesis
    using assms(1) by (auto simp: queue_ok_def queued_from_def set_update_where)
qed

lemma queue_ok_published:
  "queue_ok x d \<Longrightarrow> queue_ok x (d\<lparr>outbox := update_where p (published_row now) (outbox d)\<rparr>)"
  "queue_ok x d \<Longrightarrow> queue_ok x (d\<lparr>outbox := update_where p (backed_off_row now) (outbox d)\<rparr>)"
  by (rule queue_ok_moved; simp add: published_row_def backed_off_row_def)+

lemma queue_ok_publish:
  "preserves (queue_ok x) (pooled (mark_published i now))" "preserves (queue_ok x) (pooled (back_off i now))"
  by (rule preserves_pooled; auto simp: mark_published_def back_off_def intro: queue_ok_published)+

lemma step_queue_ok: "step x a b \<Longrightarrow> queue_ok x a \<Longrightarrow> queue_ok x b"
  by (induction rule: step.induct)
    (auto simp: queue_ok_def intro: work_outbox preserves_step queue_ok_publish [unfolded queue_ok_def])

lemma reachable_queue_ok: "reachable x d \<Longrightarrow> queue_ok x d"
proof (erule reachable_invariant)
  show "queue_ok x empty_db" by (simp add: queue_ok_def queued_from_def empty_db_def)
qed (rule step_queue_ok)

lemma wraps_queued:
  assumes "queue_ok x d" and "codec_ok x cd" and "r \<in> set (outbox d)"
  shows "\<exists>m. wrap_outbox_row x cd (unpublished_of (out_created r) r) = Inr m
     \<and> carries cd (unpublished_of (out_created r) r) m"
proof -
  have "good_row x r" using assms(1,3) by (simp add: queue_ok_def queued_from_def)
  then show ?thesis
    using good_row_wraps [OF assms(2), of "unpublished_of (out_created r) r"]
    by (auto simp: good_row_def unpublished_of_def)
qed

text \<open>
  C14: everything that the service queues can be published. In every reachable state each row of the
  outbox wraps into an envelope of its class, and the envelope that its consumer parses carries the
  row: its identity, contract type, instant, cause, owner and payload.
\<close>

theorem queued_rows_publishable:
  assumes "reachable x d" and "codec_ok x cd" and "r \<in> set (outbox d)"
  shows "\<exists>m. wrap_outbox_row x cd (unpublished_of (out_created r) r) = Inr m
     \<and> carries cd (unpublished_of (out_created r) r) m"
  using reachable_queue_ok [OF assms(1)] assms(2,3) by (rule wraps_queued)

section \<open>Published rows and the broker\<close>

text \<open>The message of a row, as the loop of \<open>publish_outbox\<close> builds it.\<close>

definition wraps_to :: "externals \<Rightarrow> 'b codec \<Rightarrow> outbox_row \<Rightarrow> 'b outbound \<Rightarrow> bool" where
  "wraps_to x cd r m \<longleftrightarrow>
     (case jiff_parse x (micros_text cd (out_created r)) of
        None \<Rightarrow> False
      | Some created \<Rightarrow> wrap_outbox_row x cd (unpublished_of created r) = Inr m)"

text \<open>
  The service together with its broker, in steps: any work on the tables, a row of the outbox handed
  to the broker as the message it wraps to, a row marked whose message the broker holds, and a row
  backed off. A row is handed over as it stands in the outbox; it may be marked by then, since two passes
  can have read it. A pass reads its rows first, but what a row carries changes only when a registration
  replaces it, and a worker registers its schedule before its bus task starts.
\<close>

inductive bus_step :: "externals \<Rightarrow> 'b codec \<Rightarrow> db \<times> 'b broker \<Rightarrow> db \<times> 'b broker \<Rightarrow> bool"
  for x :: externals and cd :: "'b codec" where
  service: "work x a b \<Longrightarrow> bus_step x cd (a, br) (b, br)"
| hand_over: "r \<in> set (outbox d) \<Longrightarrow> wraps_to x cd r m \<Longrightarrow> bus_step x cd (d, br) (d, deliver m br)"
| mark: "r \<in> set (outbox d) \<Longrightarrow> wraps_to x cd r m \<Longrightarrow> m \<in> set (broker_log br)
    \<Longrightarrow> bus_step x cd (d, br) (after (pooled (mark_published (out_id r) now)) d ns, br)"
| retry: "r \<in> set (outbox d)
    \<Longrightarrow> bus_step x cd (d, br) (after (pooled (back_off (out_id r) now)) d ns, br)"

abbreviation bus_steps :: "externals \<Rightarrow> 'b codec \<Rightarrow> db \<times> 'b broker \<Rightarrow> db \<times> 'b broker \<Rightarrow> bool" where
  "bus_steps x cd \<equiv> (bus_step x cd)\<^sup>*\<^sup>*"

definition held :: "externals \<Rightarrow> 'b codec \<Rightarrow> db \<times> 'b broker \<Rightarrow> bool" where
  "held x cd s \<longleftrightarrow> (\<forall>r \<in> set (outbox (fst s)).
     out_published r \<noteq> None \<longrightarrow> (\<exists>m \<in> set (broker_log (snd s)). wraps_to x cd r m))"

text \<open>What a row carries to its consumer; marking and backing off leave it as it is.\<close>

abbreviation contents :: "outbox_row \<Rightarrow> unpublished" where
  "contents r \<equiv> unpublished_of (out_created r) r"

lemma wraps_to_contents: "contents q = contents r \<Longrightarrow> wraps_to x cd q m = wraps_to x cd r m"
  by (simp add: wraps_to_def unpublished_of_def split: option.split)

lemma contents_moved [simp]:
  "contents (published_row now r) = contents r" "contents (backed_off_row now r) = contents r"
  by (simp_all add: published_row_def backed_off_row_def unpublished_of_def)

lemma after_moved:
  "after (pooled (mark_published i now)) d ns \<in> {d, d\<lparr>outbox := update_where (awaiting_publish i) (published_row now) (outbox d)\<rparr>}"
  "after (pooled (back_off i now)) d ns \<in> {d, d\<lparr>outbox := update_where (awaiting_publish i) (backed_off_row now) (outbox d)\<rparr>}"
  by (auto simp: after_def pooled_def mark_published_def back_off_def split: prod.split reply.split)

lemma contents_kept:
  "map contents (outbox (after (pooled (mark_published i now)) d ns)) = map contents (outbox d)"
  "map contents (outbox (after (pooled (back_off i now)) d ns)) = map contents (outbox d)"
proof -
  have "map contents (update_where p (published_row now) rows) = map contents rows"
    and "map contents (update_where p (backed_off_row now) rows) = map contents rows" for p rows
    by (rule map_update_where, simp)+
  then show "map contents (outbox (after (pooled (mark_published i now)) d ns)) = map contents (outbox d)"
    and "map contents (outbox (after (pooled (back_off i now)) d ns)) = map contents (outbox d)"
    using after_moved [of i now d ns] by auto
qed

lemma deliver_log: "set (broker_log b) \<subseteq> set (broker_log (deliver m b))"
  by (auto simp: deliver_def Let_def split: prod.split)

lemma held_moved:
  assumes "held x cd (d, br)"
    and "\<And>r. r \<in> set (outbox d) \<Longrightarrow> p r \<Longrightarrow> contents (f r) = contents r
        \<and> (out_published (f r) = out_published r \<or> (\<exists>m \<in> set (broker_log br). wraps_to x cd r m))"
  shows "held x cd (d\<lparr>outbox := update_where p f (outbox d)\<rparr>, br)"
  unfolding held_def fst_conv snd_conv
proof (intro ballI impI)
  fix r'
  assume r': "r' \<in> set (outbox (d\<lparr>outbox := update_where p f (outbox d)\<rparr>))" and marked: "out_published r' \<noteq> None"
  have old: "\<exists>m \<in> set (broker_log br). wraps_to x cd r m" if "r \<in> set (outbox d)" "out_published r \<noteq> None" for r
    using assms(1) that by (simp add: held_def)
  from r' have "r' \<in> set (update_where p f (outbox d))" by simp
  then show "\<exists>m \<in> set (broker_log br). wraps_to x cd r' m"
  proof (cases rule: in_update_whereE)
    case (1 r)
    then have same: "wraps_to x cd r' m = wraps_to x cd r m" for m
      using assms(2) [of r] by (intro wraps_to_contents) simp
    from 1 marked assms(2) [of r] old [of r] show ?thesis unfolding same by auto
  next
    case 2
    with old marked show ?thesis by blast
  qed
qed

lemma held_publish:
  assumes ok: "queue_ok x d" and held: "held x cd (d, br)"
    and r: "r \<in> set (outbox d)" "wraps_to x cd r m" "m \<in> set (broker_log br)"
  shows "held x cd (after (pooled (mark_published (out_id r) now)) d ns, br)"
proof -
  have "unique_by out_id (outbox d)" using ok by (simp add: queue_ok_def queued_from_def)
  then have only: "q = r" if "q \<in> set (outbox d)" "awaiting_publish (out_id r) q" for q
    using that r(1) unique_byD by (fastforce simp: awaiting_publish_def)
  have "held x cd (d\<lparr>outbox := update_where (awaiting_publish (out_id r)) (published_row now) (outbox d)\<rparr>, br)"
    by (rule held_moved [OF held]) (use only r(2,3) in auto)
  with after_moved(1) [of "out_id r" now d ns] held show ?thesis by auto
qed

lemma held_back_off:
  assumes "held x cd (d, br)"
  shows "held x cd (after (pooled (back_off i now)) d ns, br)"
proof -
  have "held x cd (d\<lparr>outbox := update_where (awaiting_publish i) (backed_off_row now) (outbox d)\<rparr>, br)"
    by (rule held_moved [OF assms]) (simp, simp add: backed_off_row_def)
  with after_moved(2) [of i now d ns] assms show ?thesis by auto
qed

lemma bus_step_held:
  "bus_step x cd s t \<Longrightarrow> queue_ok x (fst s) \<and> held x cd s \<Longrightarrow> queue_ok x (fst t) \<and> held x cd t"
proof (induction rule: bus_step.induct)
  case (service a b br)
  then have "queued_from x (set (outbox a)) b" and ok: "queue_ok x b"
    using work_outbox queue_ok_within step_queue_ok [OF step.working] by auto
  with service show ?case by (auto simp: held_def queued_from_def)
next
  case (hand_over r d m br)
  then have "held x cd (d, deliver m br)" using deliver_log [of br m] unfolding held_def by fastforce
  with hand_over show ?case by simp
next
  case (mark r d m br now ns)
  then show ?case using held_publish [of x d cd br r m now ns] preserves_step [OF queue_ok_publish(1)] by simp
next
  case (retry r d br now ns)
  then show ?case using held_back_off [of x cd d br] preserves_step [OF queue_ok_publish(2)] by simp
qed

lemma bus_steps_held:
  "bus_steps x cd s t \<Longrightarrow> queue_ok x (fst s) \<and> held x cd s \<Longrightarrow> queue_ok x (fst t) \<and> held x cd t"
  by (induction rule: rtranclp_induct) (simp_all add: bus_step_held)

section \<open>A pass is a sequence of these steps\<close>

lemma ends_on_pool:
  assumes "\<And>ns. J (after (pooled q) (fst s) ns, snd s)"
  shows "ends (on_pool q) (\<lambda>_. J) J s"
  unfolding ends_def
proof (intro allI impI)
  fix w :: "(db \<times> 'a broker) world"
  assume w: "tables w = s"
  obtain r w' where run: "map_err (\<lambda>_. Bus_Unavailable) (pooled q) \<lparr>tables = fst s, wire = wire w\<rparr> = (r, w')"
    by force
  then have "tables w' = after (pooled q) (fst s) (wire w)"
    by (auto simp: after_def map_err_def split: prod.splits sum.splits)
  with run w assms [of "wire w"] show "case on_pool q w of (Inl e, w') \<Rightarrow> J (tables w') | (Inr v, w') \<Rightarrow> J (tables w')"
    by (cases r) (simp_all add: on_pool_def on_tables_def)
qed

lemma ends_publish:
  assumes "J (fst s, deliver m (snd s))"
  shows "ends (attempt (publish_message m))
     (\<lambda>v t. J t \<and> (\<forall>u. v = Inr u \<longrightarrow> m \<in> set (broker_log (snd t)))) J s"
proof -
  have "m \<in> set (broker_log (deliver m b))"
    if "fst (next_publish (broker_replies b)) = Acknowledged" for b :: "'a broker"
    using that by (auto simp: deliver_def Let_def stores_def split: prod.split)
  with assms show ?thesis
    by (auto simp: ends_def attempt_def publish_message_def Let_def split: prod.split publish_reply.splits)
qed

text \<open>
  What holds in the course of a pass: the state was reached in steps from the one it began in, and the
  outbox has all that its rows carry.
\<close>

definition passing ::
  "externals \<Rightarrow> 'b codec \<Rightarrow> unpublished set \<Rightarrow> db \<times> 'b broker \<Rightarrow> db \<times> 'b broker \<Rightarrow> bool" where
  "passing x cd C a s \<longleftrightarrow> bus_steps x cd a s \<and> C \<subseteq> set (map contents (outbox (fst s)))"

lemma passing_step:
  assumes "passing x cd C a s" and "bus_step x cd s t" and "map contents (outbox (fst t)) = map contents (outbox (fst s))"
  shows "passing x cd C a t"
  using assms unfolding passing_def by (auto intro: rtranclp.rtrancl_into_rtrancl)

lemma passing_row:
  assumes "passing x cd C a s" and "contents r \<in> C" and "wraps_to x cd r m"
  obtains q where "q \<in> set (outbox (fst s))" and "out_id q = out_id r" and "wraps_to x cd q m"
proof -
  from assms(1,2) obtain q where q: "q \<in> set (outbox (fst s))" "contents q = contents r"
    by (auto simp: passing_def)
  from q(2) have "out_id q = out_id r" by (simp add: unpublished_of_def)
  with q assms(3) wraps_to_contents [OF q(2)] that show thesis by blast
qed

lemma passing_sent:
  assumes "passing x cd C a s" and "contents r \<in> C" and "wraps_to x cd r m"
  shows "passing x cd C a (fst s, deliver m (snd s))"
proof -
  from passing_row [OF assms] obtain q where "q \<in> set (outbox (fst s))" "wraps_to x cd q m" .
  from bus_step.hand_over [OF this, of "snd s"] show ?thesis
    by (intro passing_step [OF assms(1)]) simp_all
qed

lemma passing_finished:
  assumes "passing x cd C a s" and "contents r \<in> C" and "wraps_to x cd r m"
  shows "m \<in> set (broker_log (snd s))
      \<Longrightarrow> passing x cd C a (after (pooled (mark_published (out_id r) now)) (fst s) ns, snd s)"
    and "passing x cd C a (after (pooled (back_off (out_id r) now)) (fst s) ns, snd s)"
proof -
  from passing_row [OF assms] obtain q
    where q: "q \<in> set (outbox (fst s))" "out_id q = out_id r" "wraps_to x cd q m" .
  show "passing x cd C a (after (pooled (mark_published (out_id r) now)) (fst s) ns, snd s)"
    if "m \<in> set (broker_log (snd s))"
    using bus_step.mark [OF q(1,3) that, of now ns]
    by (intro passing_step [OF assms(1)]) (simp_all add: q(2) contents_kept del: map_eq_conv)
  show "passing x cd C a (after (pooled (back_off (out_id r) now)) (fst s) ns, snd s)"
    using bus_step.retry [OF q(1), of x cd "snd s" now ns]
    by (intro passing_step [OF assms(1)]) (simp_all add: q(2) contents_kept del: map_eq_conv)
qed

text \<open>One row: it is handed over, then marked or backed off.\<close>

lemma ends_row:
  assumes m: "wraps_to x cd r m" and r: "contents r \<in> C" and s: "passing x cd C a s"
    and rest: "\<And>b t. passing x cd C a t \<Longrightarrow> ends (k b) (\<lambda>_. passing x cd C a) (passing x cd C a) t"
  shows "ends (bind_io (attempt (publish_message m)) (\<lambda>outcome. case outcome of
      Inr _ \<Rightarrow> bind_io (on_pool (mark_published (out_id r) now)) (\<lambda>_. k refused)
    | Inl _ \<Rightarrow> bind_io (on_pool (back_off (out_id r) now)) (\<lambda>_. k True)))
    (\<lambda>_. passing x cd C a) (passing x cd C a) s"
proof -
  let ?J = "passing x cd C a"
  have finish: "ends (bind_io (on_pool q) (\<lambda>_. k b)) (\<lambda>_. ?J) ?J t"
    if "\<And>ns. ?J (after (pooled q) (fst t) ns, snd t)" for q :: "(db, unit) statement" and t b
    by (rule ends_bind, rule ends_mono [OF ends_on_pool [where J = ?J]]) (use that rest in auto)
  show ?thesis
  proof (rule ends_bind, rule ends_mono [OF ends_publish [where J = ?J, OF passing_sent [OF s r m]]])
    fix outcome :: "bus_error + unit" and t
    assume t: "?J t \<and> (\<forall>u. outcome = Inr u \<longrightarrow> m \<in> set (broker_log (snd t)))"
    then show "ends (case outcome of
          Inl e \<Rightarrow> bind_io (on_pool (back_off (out_id r) now)) (\<lambda>_. k True)
        | Inr u \<Rightarrow> bind_io (on_pool (mark_published (out_id r) now)) (\<lambda>_. k refused)) (\<lambda>_. ?J) ?J t"
      by (cases outcome) (auto intro: finish passing_finished [OF _ r m])
  qed
qed

lemma ends_publish_rows:
  "passing x cd C a s \<Longrightarrow> contents ` set rows \<subseteq> C
     \<Longrightarrow> ends (publish_rows x cd clock rows refused) (\<lambda>_. passing x cd C a) (passing x cd C a) s"
proof (induction rows arbitrary: s refused)
  case (Cons r rows)
  show ?case
    unfolding publish_rows.simps
    by (intro ends_row [where k = "publish_rows x cd clock rows"] ends_bind ends_ok_or ends_from_result)
      (use Cons in \<open>simp_all add: wraps_to_def\<close>)
qed (simp add: ends_ret)

lemma ends_fetched: "J s \<Longrightarrow> ends (on_pool (query f)) (\<lambda>v t. t = s \<and> v = f (fst s)) J s"
  by (cases s)
    (auto simp: ends_def on_pool_def on_tables_def map_err_def pooled_def query_def split: prod.splits reply.splits)

lemma ends_weaken:
  assumes "ends m (\<lambda>_. K) K s" and "\<And>t. K t \<Longrightarrow> J t"
  shows "ends m (\<lambda>_. J) J s"
  using assms unfolding ends_def by (fastforce split: prod.splits sum.splits)

lemma publish_outbox_steps:
  "bus_steps x cd s (tables (snd (publish_outbox x cd now clock \<lparr>tables = s, wire = ns\<rparr>)))"
proof -
  let ?J = "bus_steps x cd s" and ?rows = "due_rows now (fst s)"
  have "set ?rows \<subseteq> set (outbox (fst s))" by (auto simp: due_rows_def dest: in_oldestD)
  then have "passing x cd (contents ` set ?rows) s s" by (auto simp: passing_def)
  from ends_publish_rows [OF this order_refl]
  have rows: "ends (publish_rows x cd clock ?rows False) (\<lambda>_. ?J) ?J s"
    by (rule ends_weaken) (simp add: passing_def)
  have "ends (publish_outbox x cd now clock) (\<lambda>_. ?J) ?J s"
    unfolding publish_outbox_def
    by (rule ends_bind, rule ends_mono [OF ends_fetched [where J = ?J]])
      (auto intro!: ends_bind ends_mono [OF rows] ends_guard)
  then show ?thesis
    by (cases "publish_outbox x cd now clock \<lparr>tables = s, wire = ns\<rparr>")
      (auto simp: ends_def dest!: spec [of _ "\<lparr>tables = s, wire = ns\<rparr>"] split: sum.splits)
qed

text \<open>
  C12: a row is marked as published only when the broker holds it. Starting with an empty database, with
  any interleaving of the service's work, and however the broker and the connection fail in between, the
  broker has stored, for every published row, the message that this row wraps to, and the envelope that its
  consumer parses carries the row: identity, contract type, instant, cause, owner and payload. A whole pass
  over the outbox, which hands over only messages of its rows, is a sequence of the steps that are
  interleaved.
\<close>

theorem published_only_held:
  assumes "codec_ok x cd" and "bus_steps x cd (empty_db, b) s"
  shows "(\<forall>r \<in> set (outbox (fst s)). out_published r \<noteq> None \<longrightarrow>
       (\<exists>m \<in> set (broker_log (snd s)).
          wrap_outbox_row x cd (unpublished_of (out_created r) r) = Inr m
        \<and> carries cd (unpublished_of (out_created r) r) m))
     \<and> bus_steps x cd s (tables (snd (publish_outbox x cd now clock \<lparr>tables = s, wire = ns\<rparr>)))"
proof
  have "queue_ok x (fst (empty_db, b)) \<and> held x cd (empty_db, b)"
    by (simp add: held_def queue_ok_def queued_from_def empty_db_def)
  with bus_steps_held [OF assms(2)] have ok: "queue_ok x (fst s)" and held: "held x cd s" by blast+
  show "\<forall>r \<in> set (outbox (fst s)). out_published r \<noteq> None \<longrightarrow>
       (\<exists>m \<in> set (broker_log (snd s)).
          wrap_outbox_row x cd (unpublished_of (out_created r) r) = Inr m
        \<and> carries cd (unpublished_of (out_created r) r) m)"
  proof (intro ballI impI)
    fix r
    assume r: "r \<in> set (outbox (fst s))" "out_published r \<noteq> None"
    with held obtain m where m: "m \<in> set (broker_log (snd s))" "wraps_to x cd r m" by (auto simp: held_def)
    from m(2) have "wrap_outbox_row x cd (contents r) = Inr m"
      by (simp add: wraps_to_def codec_okD(10) [OF assms(1)])
    with wraps_queued [OF ok assms(1) r(1)] m(1)
    show "\<exists>m \<in> set (broker_log (snd s)). wrap_outbox_row x cd (contents r) = Inr m \<and> carries cd (contents r) m"
      by auto
  qed
qed (rule publish_outbox_steps)

section \<open>A pass over a healthy connection\<close>

definition replied :: "publish_reply \<Rightarrow> instant \<Rightarrow> outbox_row \<Rightarrow> outbox_row" where
  "replied p now r = (if p = Acknowledged then published_row now r else backed_off_row now r)"

definition settled :: "(uuid \<Rightarrow> instant) \<Rightarrow> (outbox_row \<times> publish_reply) list \<Rightarrow> outbox_row \<Rightarrow> outbox_row" where
  "settled clock outcomes r =
     (case map_of outcomes r of None \<Rightarrow> r | Some p \<Rightarrow> replied p (clock (out_id r)) r)"

text \<open>The replies that the broker gives to the next rows, and the messages that it stores.\<close>

fun outcomes_of :: "outbox_row list \<Rightarrow> publish_reply list \<Rightarrow> (outbox_row \<times> publish_reply) list" where
  "outcomes_of [] replies = []"
| "outcomes_of (r # rows) replies =
     (r, fst (next_publish replies)) # outcomes_of rows (snd (next_publish replies))"

definition message_of :: "externals \<Rightarrow> 'b codec \<Rightarrow> outbox_row \<Rightarrow> 'b outbound" where
  "message_of x cd r = projr (wrap_outbox_row x cd (unpublished_of (out_created r) r))"

definition answered :: "externals \<Rightarrow> 'b codec \<Rightarrow> outbox_row list \<Rightarrow> 'b broker \<Rightarrow> 'b broker" where
  "answered x cd rows b =
     \<lparr>broker_log = broker_log b @ map (message_of x cd \<circ> fst) (filter (stores \<circ> snd) (outcomes_of rows (broker_replies b))),
      broker_replies = drop (length rows) (broker_replies b)\<rparr>"

lemma wraps_message:
  assumes "queue_ok x d" and "codec_ok x cd" and "r \<in> set (outbox d)"
  shows "wrap_outbox_row x cd (unpublished_of (out_created r) r) = Inr (message_of x cd r)"
proof -
  obtain m where "wrap_outbox_row x cd (unpublished_of (out_created r) r) = Inr m"
    using wraps_queued [OF assms] by blast
  then show ?thesis by (simp add: message_of_def)
qed

lemma answered_simps:
  "answered x cd [] b = b"
  "answered x cd (r # rows) b = answered x cd rows (deliver (message_of x cd r) b)"
  by (cases b; cases "broker_replies b"; simp add: answered_def deliver_def)+

lemma outcomes_of_rows: "map fst (outcomes_of rows replies) = rows"
  by (induction rows arbitrary: replies) simp_all

lemma reply_on_row:
  assumes "unique_by out_id (outbox d)" and "r \<in> set (outbox d)" and "out_published r = None"
  shows "update_where (awaiting_publish (out_id r)) f (outbox d) = map (\<lambda>q. if q = r then f q else q) (outbox d)"
  using assms by (auto simp: update_where_def awaiting_publish_def dest: unique_byD [OF assms(1)])

lemma on_pool_read: "on_pool (query f) (healthy (d, b)) = (Inr (f d), healthy (d, b))"
  by (simp add: on_pool_def on_tables_def healthy_def map_err_def pooled_def)

lemma publish_rows_run:
  assumes "unique_by out_id (outbox d)" and "unique_by out_id rows"
    and "\<And>r. r \<in> set rows \<Longrightarrow> r \<in> set (outbox d) \<and> out_published r = None
        \<and> wrap_outbox_row x cd (unpublished_of (out_created r) r) = Inr (message_of x cd r)"
    and "codec_ok x cd"
  shows "publish_rows x cd clock rows refused (healthy (d, b)) =
     (Inr (refused \<or> \<not> list_all (\<lambda>(r, p). p = Acknowledged) (outcomes_of rows (broker_replies b))),
      healthy (d\<lparr>outbox := map (settled clock (outcomes_of rows (broker_replies b))) (outbox d)\<rparr>, answered x cd rows b))"
  using assms(1-3)
proof (induction rows arbitrary: d b refused)
  case Nil
  then show ?case by (simp add: answered_simps settled_def [abs_def])
next
  case (Cons r rows)
  let ?p = "fst (next_publish (broker_replies b))" and ?m = "message_of x cd r"
  let ?t = "clock (out_id r)" and ?b = "deliver (message_of x cd r) b"
  let ?f = "\<lambda>q. if q = r then replied ?p ?t q else q"
  let ?d = "d\<lparr>outbox := map ?f (outbox d)\<rparr>"
  have r: "r \<in> set (outbox d)" "out_published r = None"
    and wrap: "wrap_outbox_row x cd (unpublished_of (out_created r) r) = Inr ?m"
    using Cons.prems(3) [of r] by simp_all
  have replies: "broker_replies ?b = snd (next_publish (broker_replies b))"
    by (simp add: deliver_def split: prod.split)
  have same: "out_id (?f q) = out_id q" for q by (simp add: replied_def published_row_def backed_off_row_def)
  have ids: "unique_by out_id (outbox ?d)" using Cons.prems(1) by (simp add: same o_def)
  have other: "out_id r \<notin> out_id ` set rows" and rows: "unique_by out_id rows"
    using Cons.prems(2) by simp_all
  have next_rows: "q \<in> set (outbox ?d) \<and> out_published q = None
      \<and> wrap_outbox_row x cd (unpublished_of (out_created q) q) = Inr (message_of x cd q)"
    if "q \<in> set rows" for q
    using Cons.prems(3) [of q] that other by force
  note IH = Cons.IH [OF ids rows next_rows]
  have first: "publish_rows x cd clock (r # rows) refused (healthy (d, b)) =
      publish_rows x cd clock rows (refused \<or> ?p \<noteq> Acknowledged) (healthy (?d, ?b))"
    using codec_okD(10) [OF assms(4)] wrap
    by (cases ?p) (simp_all add: attempt_def publish_message_def on_pool_def on_tables_def healthy_def
        map_err_def pooled_def mark_published_def back_off_def reply_on_row [OF Cons.prems(1) r] replied_def
        bind_io_def ok_or_def from_result_def ret_def Let_def cong: if_cong)
  have settle: "settled clock (outcomes_of rows (broker_replies ?b)) (?f q) = settled clock (outcomes_of (r # rows) (broker_replies b)) q"
    if "q \<in> set (outbox d)" for q
  proof (cases "q = r")
    case True
    have "replied ?p ?t r \<notin> set rows"
      using other same [of r] by (auto intro: rev_image_eqI)
    then have "map_of (outcomes_of rows (broker_replies ?b)) (replied ?p ?t r) = None"
      by (simp add: map_of_eq_None_iff outcomes_of_rows flip: set_map)
    with True show ?thesis by (simp add: settled_def)
  qed (simp add: settled_def replies)
  have whole: "map (settled clock (outcomes_of rows (broker_replies ?b))) (outbox ?d)
      = map (settled clock (outcomes_of (r # rows) (broker_replies b))) (outbox d)"
    using settle by simp
  have all: "list_all (\<lambda>(r, p). p = Acknowledged) (outcomes_of (r # rows) (broker_replies b))
      \<longleftrightarrow> ?p = Acknowledged \<and> list_all (\<lambda>(r, p). p = Acknowledged) (outcomes_of rows (broker_replies ?b))"
    by (simp add: replies)
  have "publish_rows x cd clock (r # rows) refused (healthy (d, b)) =
     (Inr ((refused \<or> ?p \<noteq> Acknowledged) \<or> \<not> list_all (\<lambda>(r, p). p = Acknowledged) (outcomes_of rows (broker_replies ?b))),
      healthy (?d\<lparr>outbox := map (settled clock (outcomes_of rows (broker_replies ?b))) (outbox ?d)\<rparr>, answered x cd rows ?b))"
    using first IH [of "refused \<or> ?p \<noteq> Acknowledged" ?b] by (rule trans)
  then show ?case unfolding whole all answered_simps(2) by auto
qed

definition all_acknowledged :: "(outbox_row \<times> publish_reply) list \<Rightarrow> bool" where
  "all_acknowledged = list_all (\<lambda>(r, p). p = Acknowledged)"

lemma settled_all_acknowledged:
  assumes unique: "unique_by out_id rows" and batch: "set batch \<subseteq> set rows"
    and acked: "all_acknowledged (outcomes_of batch replies)"
  shows "map (settled clock (outcomes_of batch replies)) rows
    = update_where (named out_id batch) (\<lambda>r. published_row (clock (out_id r)) r) rows"
  unfolding update_where_def
proof (rule map_cong [OF refl])
  fix r
  assume "r \<in> set rows"
  then have in_batch: "named out_id batch r \<longleftrightarrow> r \<in> set batch" by (rule named_iff [OF unique batch])
  let ?os = "outcomes_of batch replies"
  have known: "r \<in> set batch \<longleftrightarrow> r \<in> fst ` set ?os"
    by (simp add: outcomes_of_rows flip: set_map)
  have reply: "p = Acknowledged" if "map_of ?os r = Some p" for p
    using acked map_of_SomeD [OF that] by (auto simp: all_acknowledged_def list_all_iff)
  show "settled clock ?os r = (if named out_id batch r then published_row (clock (out_id r)) r else r)"
  proof (cases "map_of ?os r")
    case None
    then have "r \<notin> set batch" by (simp add: known map_of_eq_None_iff)
    with None in_batch show ?thesis by (simp add: settled_def)
  next
    case (Some p)
    then have "r \<in> set batch" by (metis known map_of_eq_None_iff option.simps(3))
    with Some reply [OF Some] in_batch show ?thesis by (simp add: settled_def replied_def)
  qed
qed

lemma settled_reply:
  assumes "unique_by out_id batch" and "(r, p) \<in> set (outcomes_of batch replies)"
  shows "settled clock (outcomes_of batch replies) r = replied p (clock (out_id r)) r"
proof -
  have "distinct (map fst (outcomes_of batch replies))"
    using unique_by_distinct [OF assms(1)] by (simp add: outcomes_of_rows)
  then have "map_of (outcomes_of batch replies) r = Some p" using assms(2) by simp
  then show ?thesis by (simp add: settled_def)
qed

lemma settled_rest: "r \<notin> set batch \<Longrightarrow> settled clock (outcomes_of batch replies) r = r"
proof -
  assume "r \<notin> set batch"
  then have "map_of (outcomes_of batch replies) r = None"
    by (simp add: map_of_eq_None_iff outcomes_of_rows flip: set_map)
  then show ?thesis by (simp add: settled_def)
qed

text \<open>
  C13: a pass over the outbox takes the 32 oldest due rows, or all when they are fewer; the rest waits for
  a later pass. It asks the broker for each row of the batch, and no refusal keeps another one from going
  out: the rows of the batch that the broker stores are appended to what it holds, in their order. A
  row that the broker acknowledges is marked; any other is backed off, also one that the broker stored and
  whose acknowledgement was lost. The pass fails exactly when a row was not acknowledged, and when all
  are, the backlog of due rows shrinks by 32, or to nothing.
\<close>

theorem publish_pass:
  assumes "reachable x d" and "codec_ok x cd"
  shows "let batch = due_rows now d; outcomes = outcomes_of batch (broker_replies b);
       d' = d\<lparr>outbox := map (settled clock outcomes) (outbox d)\<rparr>
     in publish_outbox x cd now clock (healthy (d, b)) =
         (if all_acknowledged outcomes then Inr () else Inl Bus_Unacknowledged,
          healthy (d', answered x cd batch b))
       \<and> length batch = min 32 (count_where (due_row now) (outbox d)) \<and> map fst outcomes = batch
       \<and> (\<forall>r \<in> set batch. r \<in> set (outbox d) \<and> due_row now r
            \<and> (\<forall>q \<in> set (outbox d). due_row now q \<longrightarrow> q \<notin> set batch
                 \<longrightarrow> (out_created r, out_id r) \<le> (out_created q, out_id q)))
       \<and> (\<forall>(r, p) \<in> set outcomes. settled clock outcomes r =
            (if p = Acknowledged then published_row (clock (out_id r)) r
             else backed_off_row (clock (out_id r)) r))
       \<and> (\<forall>r \<in> set (outbox d). r \<notin> set batch \<longrightarrow> settled clock outcomes r = r)
       \<and> (all_acknowledged outcomes \<longrightarrow>
            count_where (due_row now) (outbox d') = count_where (due_row now) (outbox d) - 32)"
proof -
  let ?rows = "due_rows now d" and ?k = "\<lambda>r. (out_created r, out_id r)"
  let ?os = "outcomes_of ?rows (broker_replies b)"
  have unique: "unique_by out_id (outbox d)"
    using reachable_queue_ok [OF assms(1)] by (simp add: queue_ok_def queued_from_def)
  then have distinct: "unique_by out_id ?rows" unfolding due_rows_def by (rule distinct_oldest)
  have rows: "r \<in> set (outbox d) \<and> due_row now r" if "r \<in> set ?rows" for r
    using that by (auto simp: due_rows_def dest!: in_oldestD)
  have wrap: "wrap_outbox_row x cd (unpublished_of (out_created r) r) = Inr (message_of x cd r)"
    if "r \<in> set ?rows" for r
    using wraps_message [OF reachable_queue_ok [OF assms(1)] assms(2)] rows [OF that] by blast
  have "publish_rows x cd clock ?rows False (healthy (d, b)) = (Inr (\<not> all_acknowledged ?os),
      healthy (d\<lparr>outbox := map (settled clock ?os) (outbox d)\<rparr>, answered x cd ?rows b))"
    using publish_rows_run [OF unique distinct _ assms(2), of clock False b] rows wrap
    by (simp add: all_acknowledged_def due_row_def)
  then have run: "publish_outbox x cd now clock (healthy (d, b)) =
      (if all_acknowledged ?os then Inr () else Inl Bus_Unacknowledged,
       healthy (d\<lparr>outbox := map (settled clock ?os) (outbox d)\<rparr>, answered x cd ?rows b))"
    by (simp add: publish_outbox_def on_pool_read)
  have older: "?k r \<le> ?k q" if "r \<in> set ?rows" "q \<in> set (outbox d)" "due_row now q" "q \<notin> set ?rows" for r q
    using that unfolding due_rows_def by (rule oldest_first)
  have reply: "settled clock ?os r = (if p = Acknowledged then published_row (clock (out_id r)) r
      else backed_off_row (clock (out_id r)) r)" if "(r, p) \<in> set ?os" for r p
    using settled_reply [OF distinct that] by (simp add: replied_def)
  have within: "set ?rows \<subseteq> set (outbox d)" using rows by blast
  have backlog: "count_where (due_row now) (map (settled clock ?os) (outbox d)) = count_where (due_row now) (outbox d) - 32"
    if "all_acknowledged ?os"
    by (subst settled_all_acknowledged [OF unique within that], unfold due_rows_def,
        rule backlog_after_batch [OF unique]) (simp add: due_row_def published_row_def)
  show ?thesis
    unfolding Let_def
    using run rows older reply settled_rest backlog
    by (intro conjI ballI) (auto simp: outcomes_of_rows due_rows_def simp del: map_map)
qed

section \<open>A concrete pass\<close>

text \<open>Envelopes that are their own serialization.\<close>

definition demo_codec :: "(command_envelope + event_envelope) codec" where
  "demo_codec =
     \<lparr>as_report = (\<lambda>p. case p of Report_Payload r \<Rightarrow> Some r | _ \<Rightarrow> None),
      as_recap = (\<lambda>p. case p of Recap_Payload r \<Rightarrow> Some r | _ \<Rightarrow> None),
      as_registration = (\<lambda>p. case p of Registration_Payload r \<Rightarrow> Some r | _ \<Rightarrow> None),
      payload_entries = (\<lambda>_. Some []), producer_parses = (\<lambda>_. True),
      encode_command = (\<lambda>e. Some (Inl e)), encode_event = (\<lambda>e. Some (Inr e)),
      decode_command = (\<lambda>b. case b of Inl e \<Rightarrow> Some e | Inr _ \<Rightarrow> None),
      decode_event = (\<lambda>b. case b of Inr e \<Rightarrow> Some e | Inl _ \<Rightarrow> None),
      micros_text = int_text,
      as_subscription = (\<lambda>_. Some (''user:7'', Some ''follow'')),
      as_run = (\<lambda>_. Some (''user:7'', Some ''digest'')), as_occurrence = (\<lambda>_. None),
      as_completed = (\<lambda>_. Some (''user:7'', Some ''completed'')),
      as_failed = (\<lambda>_. Some (''user:7'', Some ''failed'')),
      entity_kind = (\<lambda>_. ''operation''), entity_uuid = (\<lambda>_. Some 72)\<rparr>"

lemma demo_codec_ok: "codec_ok demo demo_codec"
  by (simp add: codec_ok_def demo_codec_def)

theorem queued_rows_publishable_witness:
  "\<exists>m. wrap_outbox_row demo demo_codec (unpublished_of 300 demo_queued) = Inr m \<and> om_id m = 200"
proof -
  have "demo_queued \<in> set (outbox demo_accepted)" by (simp add: demo_accepted_rows)
  from queued_rows_publishable [OF demo_accepted_reachable demo_codec_ok this]
  show ?thesis by (auto simp: carries_def unpublished_of_def demo_queued_def queued_report_def)
qed

definition demo_broker :: "(command_envelope + event_envelope) broker" where
  "demo_broker = \<lparr>broker_log = [], broker_replies = [Denied]\<rparr>"

theorem publish_pass_witness:
  "\<exists>w. publish_outbox demo demo_codec 300 (\<lambda>_. 300) (healthy (demo_accepted, demo_broker))
       = (Inl Bus_Unacknowledged, w)
     \<and> outbox (fst (tables w)) = [backed_off_row 300 demo_queued]"
proof -
  have due: "due_rows 300 demo_accepted = [demo_queued]"
    by (simp add: due_rows_def oldest_def demo_accepted_rows due_row_def demo_queued_def queued_report_def)
  then have "outcomes_of (due_rows 300 demo_accepted) (broker_replies demo_broker) = [(demo_queued, Denied)]"
    by (simp add: demo_broker_def)
  with publish_pass [OF demo_accepted_reachable demo_codec_ok, of 300 demo_broker "\<lambda>_. 300"]
  show ?thesis
    by (simp add: Let_def all_acknowledged_def settled_def replied_def demo_accepted_rows)
qed

theorem published_only_held_witness:
  "\<exists>m. wrap_outbox_row demo demo_codec (unpublished_of 300 demo_queued) = Inr m
     \<and> carries demo_codec (unpublished_of 300 demo_queued) m
     \<and> (\<exists>b. broker_log b = [m] \<and> bus_steps demo demo_codec (empty_db, \<lparr>broker_log = [], broker_replies = []\<rparr>)
          (after (pooled (mark_published 200 400)) demo_accepted [], b))"
proof -
  let ?m = "message_of demo demo_codec demo_queued" and ?e = "\<lparr>broker_log = [], broker_replies = []\<rparr>"
  have created: "out_created demo_queued = 300" and id: "out_id demo_queued = 200"
    by (simp_all add: demo_queued_def queued_report_def)
  have queued: "demo_queued \<in> set (outbox demo_accepted)" by (simp add: demo_accepted_rows)
  have wrap: "wrap_outbox_row demo demo_codec (unpublished_of 300 demo_queued) = Inr ?m"
    using wraps_message [OF reachable_queue_ok [OF demo_accepted_reachable] demo_codec_ok queued] by (simp add: created)
  then have wraps: "wraps_to demo demo_codec demo_queued ?m"
    using codec_okD(10) [OF demo_codec_ok, of 300] by (simp add: wraps_to_def created)
  have log: "broker_log (deliver ?m ?e) = [?m]" by (simp add: deliver_def stores_def)
  let ?published = "after (pooled (mark_published 200 400)) demo_accepted []"
  have one: "bus_step demo demo_codec (empty_db, ?e) (demo_accepted, ?e)"
    unfolding demo_accepted_def by (rule bus_step.service, rule work.request_run)
  have two: "bus_step demo demo_codec (demo_accepted, ?e) (demo_accepted, deliver ?m ?e)"
    by (rule bus_step.hand_over [OF queued wraps])
  have three: "bus_step demo demo_codec (demo_accepted, deliver ?m ?e) (?published, deliver ?m ?e)"
    using bus_step.mark [OF queued wraps, of "deliver ?m ?e" 400 "[]"] by (simp add: log id)
  have all: "bus_steps demo demo_codec (empty_db, ?e) (?published, deliver ?m ?e)"
    using one two three by (meson converse_rtranclp_into_rtranclp r_into_rtranclp)
  have "published_row 400 demo_queued \<in> set (outbox ?published)"
    by (simp add: after_served effect_of_def mark_published_def demo_accepted_rows update_where_def
        awaiting_publish_def id) (simp add: demo_queued_def queued_report_def)
  moreover have "contents (published_row 400 demo_queued) = unpublished_of 300 demo_queued" by (simp add: created)
  moreover have "out_published (published_row 400 demo_queued) \<noteq> None" by (simp add: published_row_def)
  ultimately have "carries demo_codec (unpublished_of 300 demo_queued) ?m"
    using published_only_held [OF demo_codec_ok all] wrap by (fastforce simp: log)
  with wrap log all show ?thesis by blast
qed

end
