(* ===== verification/Delivery.thy ===== *)
theory Delivery
  imports Outflow
begin

text \<open>
  The consuming half of \<open>src/bus.rs\<close>: one delivered message is decoded, checked against its subject,
  producer, type and tenant, handed to the transaction of its kind, and answered. A message that is
  acknowledged needs no second delivery, and one that is terminated or refused has changed nothing.
\<close>

section \<open>Subjects and answers\<close>

definition subscription_delivery :: string where
  "subscription_delivery = ''cmd.channel_digest.subscription.set_requested.v1''"

definition run_delivery :: string where
  "run_delivery = ''cmd.channel_digest.run.requested.v1''"

definition schedule_delivery :: string where
  "schedule_delivery = ''cmd.channel_digest.schedule.occurrence_requested.v1''"

definition platform_producer :: string where
  "platform_producer = ''ratatoskr-platform''"

definition completed_delivery :: string where
  "completed_delivery = ''evt.knowledge.channel_digest_recap.completed.v1''"

definition failed_delivery :: string where
  "failed_delivery = ''evt.knowledge.channel_digest_recap.failed.v1''"

definition knowledge_producer :: string where
  "knowledge_producer = ''ratatoskr-knowledge''"

datatype disposition = Ack | Term | Nak

fun intake_disposition :: "intake_error \<Rightarrow> disposition" where
  "intake_disposition Intake_Invalid = Term"
| "intake_disposition Intake_Storage = Nak"

fun coordinator_disposition :: "coordinator_error \<Rightarrow> disposition" where
  "coordinator_disposition Linkage_Invalid = Term"
| "coordinator_disposition Coordinator_Storage = Nak"

text \<open>The \<open>match result\<close> that ends a handler: a success is acknowledged.\<close>

definition disposed :: "('e \<Rightarrow> disposition) \<Rightarrow> (db, 'e, 'a) io \<Rightarrow> (db, bus_error, disposition) io" where
  "disposed f m w = (case m w of (Inl e, w') \<Rightarrow> (Inr (f e), w') | (Inr _, w') \<Rightarrow> (Inr Ack, w'))"

text \<open>What one delivery draws: the clock, the identities of its rows and of the runs it creates.\<close>

record delivery =
  dl_moment :: circumstances
  dl_result :: uuid
  dl_runs :: "nat \<Rightarrow> uuid"

section \<open>Handling a message\<close>

text \<open>\<open>payload_as\<close>, the tenant check and the serialization, shared by the four owned payloads.\<close>

definition owned_bytes ::
  "(string \<times> string option) option \<Rightarrow> string option
     \<Rightarrow> (db, bus_error, disposition) io \<Rightarrow> (string \<Rightarrow> (db, bus_error, disposition) io)
     \<Rightarrow> (db, bus_error, disposition) io" where
  "owned_bytes decoded tenant unreadable apply_to =
     (case decoded of
        None \<Rightarrow> unreadable
      | Some (owner, bytes) \<Rightarrow>
          if tenant \<noteq> Some owner then ret Term
          else (case bytes of None \<Rightarrow> ret Term | Some payload \<Rightarrow> apply_to payload))"

definition occurrence_authority :: "externals \<Rightarrow> 'b codec \<Rightarrow> command_envelope \<Rightarrow> (uuid \<times> uuid) option" where
  "occurrence_authority x cd e =
     (if entity_kind cd (ce_correlation e) = ''operation''
      then (case entity_uuid cd (ce_correlation e) of
              None \<Rightarrow> None
            | Some operation \<Rightarrow> map_option (\<lambda>t. (operation, tenant_user x t)) (ce_tenant e))
      else None)"

definition handle_occurrence ::
  "externals \<Rightarrow> 'b codec \<Rightarrow> language \<Rightarrow> delivery \<Rightarrow> command_envelope \<Rightarrow> (db, bus_error, disposition) io" where
  "handle_occurrence x cd language dl e =
     (if ce_type e \<noteq> occurrence_subject then ret Term
      else (case as_occurrence cd (ce_payload e) of
              None \<Rightarrow> ret Term
            | Some command \<Rightarrow>
                if \<not> op_valid command \<or> ce_aggregate e \<noteq> op_ref command then ret Term
                else (case (op_bytes command, occurrence_authority x cd e) of
                        (Some payload, Some (operation, owner)) \<Rightarrow>
                          disposed coordinator_disposition
                            (accept_occurrence x (at (dl_moment dl)) (fresh_report (dl_moment dl)) (dl_runs dl)
                              \<lparr>oc_message = ce_id e, oc_payload = payload, oc_key = op_ref command,
                               oc_previous = op_previous command, oc_due = op_due command,
                               oc_operation = operation, oc_owner = owner, oc_language = language\<rparr>)
                      | _ \<Rightarrow> ret Term)))"

definition refuse_unreadable ::
  "externals \<Rightarrow> delivery \<Rightarrow> command_envelope \<Rightarrow> command_kind \<Rightarrow> (db, bus_error, disposition) io" where
  "refuse_unreadable x dl e kind =
     (case ce_tenant e of
        None \<Rightarrow> ret Term
      | Some tenant \<Rightarrow>
          disposed intake_disposition
            (reject_unreadable x (dl_moment dl) (ce_id e) kind tenant (ce_payload e)))"

definition handle_command ::
  "externals \<Rightarrow> 'b codec \<Rightarrow> language \<Rightarrow> delivery \<Rightarrow> string \<Rightarrow> 'b \<Rightarrow> (db, bus_error, disposition) io" where
  "handle_command x cd language dl subject bytes =
     (case decode_command cd bytes of
        None \<Rightarrow> ret Term
      | Some e \<Rightarrow>
          if ce_producer e \<noteq> platform_producer then ret Term
          else if subject = schedule_delivery then handle_occurrence x cd language dl e
          else if subject = subscription_delivery
          then (if ce_type e \<noteq> subscription_subject then ret Term
                else owned_bytes (as_subscription cd (ce_payload e)) (ce_tenant e)
                  (refuse_unreadable x dl e Subscription_Command) (\<lambda>payload.
                  disposed intake_disposition (accept_subscription x (dl_moment dl) (ce_id e) payload)))
          else if subject = run_delivery
          then (if ce_type e \<noteq> run_subject then ret Term
                else owned_bytes (as_run cd (ce_payload e)) (ce_tenant e)
                  (refuse_unreadable x dl e Run_Command) (\<lambda>payload.
                  disposed intake_disposition (accept_run x (dl_moment dl) (ce_id e) payload)))
          else ret Term)"

definition handle_event ::
  "externals \<Rightarrow> 'b codec \<Rightarrow> delivery \<Rightarrow> string \<Rightarrow> 'b \<Rightarrow> (db, bus_error, disposition) io" where
  "handle_event x cd dl subject bytes =
     (case decode_event cd bytes of
        None \<Rightarrow> ret Term
      | Some e \<Rightarrow>
          if ee_producer e \<noteq> knowledge_producer then ret Term
          else if subject = completed_delivery
          then (if ee_type e \<noteq> completed_subject then ret Term
                else owned_bytes (as_completed cd (ee_payload e)) (ee_tenant e) (ret Term) (\<lambda>payload.
                  disposed coordinator_disposition
                    (settle_completion x (at (dl_moment dl)) (fresh_report (dl_moment dl)) (ee_id e) payload)))
          else if subject = failed_delivery
          then (if ee_type e \<noteq> failed_subject then ret Term
                else owned_bytes (as_failed cd (ee_payload e)) (ee_tenant e) (ret Term) (\<lambda>payload.
                  disposed coordinator_disposition
                    (settle_failure x (at (dl_moment dl)) (dl_result dl) (fresh_report (dl_moment dl))
                      (ee_id e) payload)))
          else ret Term)"

definition handle ::
  "externals \<Rightarrow> 'b codec \<Rightarrow> language \<Rightarrow> delivery \<Rightarrow> string \<Rightarrow> 'b \<Rightarrow> (db, bus_error, disposition) io" where
  "handle x cd language dl subject bytes =
     (if subject \<in> {subscription_delivery, run_delivery, schedule_delivery}
      then handle_command x cd language dl subject bytes
      else if subject \<in> {completed_delivery, failed_delivery}
      then handle_event x cd dl subject bytes
      else ret Term)"

section \<open>Answering it\<close>

datatype ack_kind = Ack_Kind | Term_Kind | Nak_Kind int

fun ack_of :: "disposition \<Rightarrow> ack_kind" where
  "ack_of Ack = Ack_Kind"
| "ack_of Term = Term_Kind"
| "ack_of Nak = Nak_Kind (seconds 2)"

text \<open>
  \<open>process_delivery\<close>: \<open>pulled\<close> is what the consumer yields, and \<open>answered\<close> tells whether the broker takes
  the answer of that kind. The outbox goes out before the answer.
\<close>

definition process_delivery ::
  "externals \<Rightarrow> 'b codec \<Rightarrow> language \<Rightarrow> delivery \<Rightarrow> instant \<Rightarrow> (uuid \<Rightarrow> instant)
     \<Rightarrow> (unit + string \<times> 'b) option \<Rightarrow> (ack_kind \<Rightarrow> bool) \<Rightarrow> ('b, unit) bus" where
  "process_delivery x cd language dl now clock pulled taken =
     (case pulled of
        Some (Inr (subject, bytes)) \<Rightarrow>
          bind_io (on_tables (handle x cd language dl subject bytes)) (\<lambda>answer.
          bind_io (publish_outbox x cd now clock) (\<lambda>_.
          guard Bus_Unavailable (taken (ack_of answer))))
      | _ \<Rightarrow> raise Bus_Unavailable)"

section \<open>The consumers\<close>

text \<open>The configuration of a durable, as the broker reports it, and the one the worker accepts.\<close>

datatype ack_policy = Ack_Explicit | Ack_Other

datatype deliver_policy = Deliver_All | Deliver_Other

record consumer_config =
  co_durable :: "string option"
  co_filter :: string
  co_ack_policy :: ack_policy
  co_ack_wait :: int
  co_deliver_subject :: "string option"
  co_deliver_policy :: deliver_policy

definition ack_wait :: int where
  "ack_wait = seconds 30"

definition exact_consumer ::
  "(string \<Rightarrow> string \<Rightarrow> consumer_config option) \<Rightarrow> string \<Rightarrow> string \<Rightarrow> string \<Rightarrow> bus_error + consumer_config" where
  "exact_consumer fetch stream durable subject =
     (case fetch durable stream of
        None \<Rightarrow> Inl Bus_Unavailable
      | Some config \<Rightarrow>
          if co_durable config \<noteq> Some durable \<or> co_filter config \<noteq> subject
             \<or> co_ack_policy config \<noteq> Ack_Explicit \<or> co_ack_wait config \<noteq> ack_wait
             \<or> co_deliver_subject config \<noteq> None \<or> co_deliver_policy config \<noteq> Deliver_All
          then Inl Bus_Unavailable else Inr config)"

definition verify_consumers ::
  "(string \<Rightarrow> string \<Rightarrow> consumer_config option) \<Rightarrow> bus_error + consumer_config list" where
  "verify_consumers fetch =
     collect_results (\<lambda>(stream, durable, subject). exact_consumer fetch stream durable subject)
       [(''ratatoskr_commands'', ''ratatoskr_channel_digest_subscriptions'', subscription_delivery),
        (''ratatoskr_commands'', ''ratatoskr_channel_digest_runs'', run_delivery),
        (''ratatoskr_commands'', ''ratatoskr_channel_digest_schedule_occurrences'', schedule_delivery),
        (''ratatoskr_events'', ''ratatoskr_channel_digest_recap_completed'', completed_delivery),
        (''ratatoskr_events'', ''ratatoskr_channel_digest_recap_failed'', failed_delivery)]"

section \<open>What an answer means\<close>

text \<open>
  The contract of an answering handler: acknowledged means that no further delivery of the message
  changes anything, terminated means that nothing was changed, and whatever the answer the tables
  either stay or hold the whole effect.
\<close>

definition answers_soundly :: "('c \<Rightarrow> (db, bus_error, disposition) io) \<Rightarrow> bool" where
  "answers_soundly h \<longleftrightarrow>
     (\<forall>c d ns. \<exists>a w'. h c \<lparr>tables = d, wire = ns\<rparr> = (Inr a, w')
        \<and> tables w' \<in> {d, effect_of (h c) d}
        \<and> (a = Term \<longrightarrow> tables w' = d)
        \<and> (a = Ack \<longrightarrow> (\<forall>c' ns'. tables (snd (h c' \<lparr>tables = tables w', wire = ns'\<rparr>)) = tables w')))"

named_theorems answer_intros \<open>closure rules of sound answers\<close>

lemma answers_term [answer_intros]: "answers_soundly (\<lambda>c. ret Term)"
  by (simp add: answers_soundly_def ret_def)

lemma answers_if [answer_intros]:
  "answers_soundly h \<Longrightarrow> answers_soundly k \<Longrightarrow> answers_soundly (\<lambda>c. if b then h c else k c)"
  by (cases b) simp_all

lemma answers_option [answer_intros]:
  "answers_soundly h \<Longrightarrow> (\<And>v. answers_soundly (k v))
     \<Longrightarrow> answers_soundly (\<lambda>c. case z of None \<Rightarrow> h c | Some v \<Rightarrow> k v c)"
  by (cases z) simp_all

lemma answers_pair [answer_intros]:
  "(\<And>v w. answers_soundly (k v w)) \<Longrightarrow> answers_soundly (\<lambda>c. case y of (v, w) \<Rightarrow> k v w c)"
  by (cases y) simp

lemma answers_owned_bytes [answer_intros]:
  "answers_soundly h \<Longrightarrow> (\<And>bytes. answers_soundly (\<lambda>c. k c bytes))
     \<Longrightarrow> answers_soundly (\<lambda>c. owned_bytes decoded tenant (h c) (k c))"
  unfolding owned_bytes_def by (intro answer_intros)

lemma answers_at:
  assumes "answers_soundly h"
  shows "answers_soundly (\<lambda>c. h (f c))"
  using assms unfolding answers_soundly_def by meson

text \<open>
  The interface the handlers rely on: a replay-guarded transaction whose success settles the message
  for good, and whose final errors come before any effect.
\<close>

locale settled_replies = replay_guarded handle_one evidence
  for handle_one :: "'c \<Rightarrow> (db, 'e, 'a) io" and evidence :: "db \<Rightarrow> bool" +
  fixes answer :: "'e \<Rightarrow> disposition"
  assumes errors_retry_or_end: "answer e \<noteq> Ack"
    and final_undone: "undone (\<lambda>e. answer e = Term) (handle_one c)"
    and success_settles: "handle_one c w = (Inr v, w')
      \<Longrightarrow> effect_of (handle_one c') (tables w') = tables w'"
begin

lemma settled_for_good:
  assumes "handle_one c w = (Inr v, w')"
  shows "tables (snd (handle_one c' \<lparr>tables = tables w', wire = ns\<rparr>)) = tables w'"
  using success_settles [OF assms, of c'] delivery_cases [of c' "tables w'" ns] by auto

lemma tables_disposed: "tables (snd (disposed f (handle_one c) w)) = tables (snd (handle_one c w))"
  by (simp add: disposed_def split: prod.split sum.split)

lemma sound: "answers_soundly (\<lambda>c. disposed answer (handle_one c))"
  unfolding answers_soundly_def
proof (intro allI)
  fix c :: 'c and d :: db and ns
  let ?w = "\<lparr>tables = d, wire = ns\<rparr>"
  obtain r w' where run: "handle_one c ?w = (r, w')" by force
  have after: "tables w' \<in> {d, effect_of (disposed answer (handle_one c)) d}"
    using delivery_cases [of c d ns] run
    by (simp add: effect_of_def tables_disposed)
  show "\<exists>a w'. disposed answer (handle_one c) ?w = (Inr a, w')
      \<and> tables w' \<in> {d, effect_of (disposed answer (handle_one c)) d} \<and> (a = Term \<longrightarrow> tables w' = d)
      \<and> (a = Ack \<longrightarrow> (\<forall>c' ns'. tables (snd (disposed answer (handle_one c')
            \<lparr>tables = tables w', wire = ns'\<rparr>)) = tables w'))"
  proof (cases r)
    case (Inl e)
    with final_undone [of c] run have "answer e = Term \<longrightarrow> tables w' = d" by (auto simp: undone_def)
    with Inl run after errors_retry_or_end [of e] show ?thesis by (auto simp: disposed_def)
  next
    case (Inr v)
    with run settled_for_good [of c ?w v w']
    have "\<forall>c' ns'. tables (snd (disposed answer (handle_one c')
        \<lparr>tables = tables w', wire = ns'\<rparr>)) = tables w'"
      by (simp add: tables_disposed)
    with Inr run after show ?thesis by (auto simp: disposed_def)
  qed
qed

end

subsection \<open>The commands\<close>

lemma settled_repliesI:
  assumes "\<And>c. crash_safe (h c)"
    and "\<And>c d. effect_of (h c) d = d \<or> E (effect_of (h c) d)"
    and "\<And>c d. E d \<Longrightarrow> effect_of (h c) d = d"
    and "\<And>e. answer e \<noteq> Ack"
    and "\<And>c. undone (\<lambda>e. answer e = Term) (h c)"
    and settles: "\<And>c d. wp (h c) (\<lambda>_. K) d"
    and quiet: "\<And>c d. K d \<Longrightarrow> effect_of (h c) d = d"
  shows "settled_replies h E answer"
proof (unfold_locales, goal_cases)
  case (6 c w v w' c')
  from wpD [OF settles 6] show ?case by (rule quiet)
qed (use assms in blast)+

lemma wp_reject: "wp (reject x c r) (\<lambda>_ d'. rejection_recorded r d') d"
  unfolding reject_def reject_body_def rejection_recorded_def
  by (intro wp_transaction wp_intros) (simp_all add: rejection_report_def report_builders)

lemma undone_reject [undone_intros]: "undone (\<lambda>e. intake_disposition e = Term) (reject x c r)"
  unfolding reject_def by (intro undone_intros) simp

definition unreadable_recorded :: "uuid \<Rightarrow> command_kind \<Rightarrow> db \<Rightarrow> bool" where
  "unreadable_recorded message kind = inbox_conflict message (kind_subject kind) (''invalid:'' @ uuid_text message)"

lemma reject_recorded:
  assumes "rejection_recorded r = K"
  shows "wp (reject x c r) (\<lambda>_. K) d"
    and "effect_of (reject x c r) d = d \<or> K (effect_of (reject x c r) d)"
  using wp_reject [of x c r d] reject_effect [of x c r d] by (simp_all add: assms)

lemma wp_reject_unreadable:
  "wp (reject_unreadable x c message kind tenant payload) (\<lambda>_ d'. unreadable_recorded message kind d') d"
  unfolding reject_unreadable_def
  by (intro wp_intros reject_recorded) (simp add: fun_eq_iff rejection_recorded_def unreadable_recorded_def)

lemma reject_unreadable_effect:
  "effect_of (reject_unreadable x c message kind tenant payload) d = d
     \<or> unreadable_recorded message kind (effect_of (reject_unreadable x c message kind tenant payload) d)"
  by (simp add: reject_unreadable_def effect_of_binds split: option.split)
    (intro allI impI reject_recorded(2), simp add: fun_eq_iff rejection_recorded_def unreadable_recorded_def)

lemma reject_unreadable_again:
  "unreadable_recorded message kind d
     \<Longrightarrow> effect_of (reject_unreadable x c message kind tenant payload) d = d"
  by (auto simp: reject_unreadable_def effect_of_binds rejection_recorded_def unreadable_recorded_def
      intro!: reject_again split: option.split)

lemma undone_reject_unreadable:
  "undone (\<lambda>e. intake_disposition e = Term) (reject_unreadable x c message kind tenant payload)"
  unfolding reject_unreadable_def by (intro undone_intros)

lemma intake_errors: "intake_disposition e \<noteq> Ack"
  by (cases e) simp_all

interpretation unreadable_reply:
  settled_replies "\<lambda>c. reject_unreadable x c message kind tenant payload"
    "unreadable_recorded message kind" intake_disposition
  for x message kind tenant payload
  by (rule settled_repliesI [OF crash_safe_reject_unreadable reject_unreadable_effect
        reject_unreadable_again intake_errors undone_reject_unreadable wp_reject_unreadable
        reject_unreadable_again])

lemma wp_accept_subscription:
  "wp (accept_subscription x c message payload) (\<lambda>_ d'. subscription_handled x message payload d') d"
  unfolding accept_subscription_def subscription_body_def subscription_handled_def
  by (intro wp_intros wp_or_else wp_transaction wp_set_subscription;
      simp add: report_builders reject_recorded [OF subscription_rejection_recorded])

lemma undone_accept_subscription:
  "undone (\<lambda>e. intake_disposition e = Term) (accept_subscription x c message payload)"
  unfolding accept_subscription_def
  by (intro undone_intros steady_subscription_body hands_over_subscription) simp

interpretation subscription_reply:
  settled_replies "\<lambda>c. accept_subscription x c message payload"
    "subscription_handled x message payload" intake_disposition
  for x message payload
  by (rule settled_repliesI [OF crash_safe_accept_subscription accept_subscription_effect
        accept_subscription_again intake_errors undone_accept_subscription wp_accept_subscription
        accept_subscription_again])

lemma wp_accept_run:
  "wp (accept_run x c message payload) (\<lambda>_ d'. run_handled x message payload d') d"
  unfolding accept_run_def run_body_def run_handled_def queue_started_def set_language_def
  by (intro wp_intros wp_or_else wp_transaction wp_create_commanded_run;
      simp add: report_builders reject_recorded [OF run_rejection_recorded])

lemma undone_accept_run:
  "undone (\<lambda>e. intake_disposition e = Term) (accept_run x c message payload)"
  unfolding accept_run_def
  by (intro undone_intros steady_run_body hands_over_run) simp

interpretation run_reply:
  settled_replies "\<lambda>c. accept_run x c message payload" "run_handled x message payload" intake_disposition
  for x message payload
  by (rule settled_repliesI [OF crash_safe_accept_run accept_run_effect accept_run_again intake_errors
        undone_accept_run wp_accept_run accept_run_again])

subsection \<open>The occurrences and the Knowledge facts\<close>

lemma coordinator_errors: "coordinator_disposition e \<noteq> Ack"
  by (cases e) simp_all

lemma undone_stored [undone_intros]: "silent m \<Longrightarrow> silent (stored m)"
  by (simp add: stored_def silent_map_err)

lemma wp_accept_occurrence:
  "wp (accept_occurrence x now fresh fresh_runs oc) (\<lambda>_. occurrence_handled oc) d"
  unfolding accept_occurrence_def accept_occurrence_body_def
  by (intro wp_intros wp_transaction wp_fan_out_then [where I = "occurrence_handled oc"])
    (simp_all add: occurrence_handled_def report_builders)

lemma undone_accept_occurrence:
  "undone (\<lambda>e. coordinator_disposition e = Term) (accept_occurrence x now fresh fresh_runs oc)"
  unfolding accept_occurrence_def by (intro undone_intros) simp

interpretation occurrence_reply:
  settled_replies "\<lambda>c. accept_occurrence x (fst c) (fst (snd c)) (snd (snd c)) oc"
    "occurrence_handled oc" coordinator_disposition
  for x oc
  by (rule settled_repliesI [OF crash_safe_accept_occurrence accept_occurrence_effect
        accept_occurrence_again coordinator_errors undone_accept_occurrence wp_accept_occurrence
        accept_occurrence_again])

text \<open>A fact is also settled by the stored result, and a failure by the failed run.\<close>

definition completion_closed :: "externals \<Rightarrow> uuid \<Rightarrow> string \<Rightarrow> db \<Rightarrow> bool" where
  "completion_closed x message payload d \<longleftrightarrow>
     completion_handled x message payload d
     \<or> (\<exists>evt l. decode_completion x payload = Some evt \<and> result_linkage (cf_result evt) d = Inr (Some l))"

definition failure_closed :: "externals \<Rightarrow> uuid \<Rightarrow> string \<Rightarrow> db \<Rightarrow> bool" where
  "failure_closed x message payload d \<longleftrightarrow>
     failure_handled x message payload d
     \<or> (\<exists>evt r m. decode_failure x payload = Some evt
          \<and> owned_run_with_manifest (ff_run evt) (ff_owner evt) d = Some (r, m) \<and> run_state r = Failed)"

lemma wp_settle_completion:
  "wp (settle_completion x now fresh message payload) (\<lambda>_. completion_closed x message payload) d"
  unfolding settle_completion_def settle_completion_body_def stored_def Let_def
  by (intro wp_intros wp_transaction wp_read wp_pooled_reading)
    (simp_all add: completion_closed_def completion_handled_def)

lemma completion_closed_quiet:
  "completion_closed x message payload d \<Longrightarrow> effect_of (settle_completion x now fresh message payload) d = d"
  using settle_completion_again [of x message payload d now fresh]
  by (auto simp: completion_closed_def settle_completion_def effect_of_binds stored_def
      split: option.split)

lemma undone_settle_completion:
  "undone (\<lambda>e. coordinator_disposition e = Term) (settle_completion x now fresh message payload)"
  unfolding settle_completion_def by (intro undone_intros) simp

interpretation completion_reply:
  settled_replies "\<lambda>c. settle_completion x (fst c) (snd c) message payload"
    "completion_handled x message payload" coordinator_disposition
  for x message payload
  by (rule settled_repliesI [OF crash_safe_settle_completion settle_completion_effect
        settle_completion_again coordinator_errors undone_settle_completion wp_settle_completion
        completion_closed_quiet])

lemma wp_settle_failure:
  "wp (settle_failure x now fresh_result fresh message payload) (\<lambda>_. failure_closed x message payload) d"
  unfolding settle_failure_def settle_failure_body_def stored_def Let_def
  by (intro wp_intros wp_transaction wp_read)
    (auto simp: failure_closed_def failure_handled_def)

lemma failure_closed_quiet:
  "failure_closed x message payload d
     \<Longrightarrow> effect_of (settle_failure x now fresh_result fresh message payload) d = d"
  using settle_failure_again [of x message payload d now fresh_result fresh]
  by (auto simp: failure_closed_def settle_failure_def effect_of_binds stored_def split: option.split)

lemma undone_settle_failure:
  "undone (\<lambda>e. coordinator_disposition e = Term) (settle_failure x now fresh_result fresh message payload)"
  unfolding settle_failure_def by (intro undone_intros) simp

interpretation failure_reply:
  settled_replies "\<lambda>c. settle_failure x (fst c) (fst (snd c)) (snd (snd c)) message payload"
    "failure_handled x message payload" coordinator_disposition
  for x message payload
  by (rule settled_repliesI [OF crash_safe_settle_failure settle_failure_effect
        settle_failure_again coordinator_errors undone_settle_failure wp_settle_failure
        failure_closed_quiet])

subsection \<open>The dispatch\<close>

lemma handler_answers [answer_intros]:
  "answers_soundly (\<lambda>dl. disposed intake_disposition (accept_subscription x (dl_moment dl) message payload))"
  "answers_soundly (\<lambda>dl. disposed intake_disposition (accept_run x (dl_moment dl) message payload))"
  "answers_soundly (\<lambda>dl. disposed intake_disposition
     (reject_unreadable x (dl_moment dl) message kind tenant entries))"
  "answers_soundly (\<lambda>dl. disposed coordinator_disposition
     (accept_occurrence x (at (dl_moment dl)) (fresh_report (dl_moment dl)) (dl_runs dl) oc))"
  "answers_soundly (\<lambda>dl. disposed coordinator_disposition
     (settle_completion x (at (dl_moment dl)) (fresh_report (dl_moment dl)) message payload))"
  "answers_soundly (\<lambda>dl. disposed coordinator_disposition
     (settle_failure x (at (dl_moment dl)) (dl_result dl) (fresh_report (dl_moment dl)) message payload))"
  using answers_at [OF subscription_reply.sound, where f = dl_moment]
    answers_at [OF run_reply.sound, where f = dl_moment]
    answers_at [OF unreadable_reply.sound, where f = dl_moment]
    answers_at [OF occurrence_reply.sound, where
      f = "\<lambda>dl. (at (dl_moment dl), fresh_report (dl_moment dl), dl_runs dl)"]
    answers_at [OF completion_reply.sound, where
      f = "\<lambda>dl. (at (dl_moment dl), fresh_report (dl_moment dl))"]
    answers_at [OF failure_reply.sound, where
      f = "\<lambda>dl. (at (dl_moment dl), dl_result dl, fresh_report (dl_moment dl))"]
  by simp_all

lemma answers_refuse_unreadable [answer_intros]: "answers_soundly (\<lambda>dl. refuse_unreadable x dl e kind)"
  unfolding refuse_unreadable_def by (intro answer_intros)

lemma answers_occurrence [answer_intros]: "answers_soundly (\<lambda>dl. handle_occurrence x cd language dl e)"
  unfolding handle_occurrence_def prod.case by (intro answer_intros)

lemma answers_handle: "answers_soundly (\<lambda>dl. handle x cd language dl subject bytes)"
  unfolding handle_def handle_command_def handle_event_def by (intro answer_intros)

text \<open>
  C10: the answer to a delivered message is truthful, whatever the message, the tables and the faults of the
  connection. The handler always answers. The tables either stay or hold the whole effect of the
  message. A message answered \<open>Term\<close> changed nothing; once a message is answered \<open>Ack\<close>, no later
  delivery of it changes anything, whatever its circumstances and its faults.
\<close>

theorem delivery_answers:
  "\<exists>a w'. handle x cd language dl subject bytes \<lparr>tables = d, wire = ns\<rparr> = (Inr a, w')
     \<and> tables w' \<in> {d, effect_of (handle x cd language dl subject bytes) d}
     \<and> (case a of
          Ack \<Rightarrow> (\<forall>dl' ns'. tables (snd (handle x cd language dl' subject bytes
              \<lparr>tables = tables w', wire = ns'\<rparr>)) = tables w')
        | Term \<Rightarrow> tables w' = d
        | Nak \<Rightarrow> True)"
proof -
  from answers_handle [of x cd language subject bytes] obtain a w' where
    "handle x cd language dl subject bytes \<lparr>tables = d, wire = ns\<rparr> = (Inr a, w')"
    "tables w' \<in> {d, effect_of (handle x cd language dl subject bytes) d}"
    "a = Term \<longrightarrow> tables w' = d"
    "a = Ack \<longrightarrow> (\<forall>dl' ns'. tables (snd (handle x cd language dl' subject bytes
        \<lparr>tables = tables w', wire = ns'\<rparr>)) = tables w')"
    unfolding answers_soundly_def by meson
  then show ?thesis by (cases a) auto
qed

text \<open>What a message must carry before anything is done for it.\<close>

definition owned_by :: "string option \<Rightarrow> (string \<times> string option) option \<Rightarrow> bool" where
  "owned_by tenant decoded \<longleftrightarrow> tenant \<noteq> None \<and> pred_option (\<lambda>(owner, _). tenant = Some owner) decoded"

fun command_authority :: "'b codec \<Rightarrow> string \<Rightarrow> command_envelope option \<Rightarrow> bool" where
  "command_authority cd subject None \<longleftrightarrow> False"
| "command_authority cd subject (Some e) \<longleftrightarrow>
     ce_producer e = platform_producer
     \<and> (subject = subscription_delivery \<and> ce_type e = subscription_subject
          \<and> owned_by (ce_tenant e) (as_subscription cd (ce_payload e))
        \<or> subject = run_delivery \<and> ce_type e = run_subject
          \<and> owned_by (ce_tenant e) (as_run cd (ce_payload e))
        \<or> subject = schedule_delivery \<and> ce_type e = occurrence_subject \<and> ce_tenant e \<noteq> None
          \<and> entity_kind cd (ce_correlation e) = ''operation'')"

fun event_authority :: "'b codec \<Rightarrow> string \<Rightarrow> event_envelope option \<Rightarrow> bool" where
  "event_authority cd subject None \<longleftrightarrow> False"
| "event_authority cd subject (Some e) \<longleftrightarrow>
     ee_producer e = knowledge_producer
     \<and> (subject = completed_delivery \<and> ee_type e = completed_subject
          \<and> as_completed cd (ee_payload e) \<noteq> None
          \<and> owned_by (ee_tenant e) (as_completed cd (ee_payload e))
        \<or> subject = failed_delivery \<and> ee_type e = failed_subject
          \<and> as_failed cd (ee_payload e) \<noteq> None
          \<and> owned_by (ee_tenant e) (as_failed cd (ee_payload e)))"

lemma fact_unowned:
  "decoded = None \<or> \<not> owned_by tenant decoded
     \<Longrightarrow> owned_bytes decoded tenant (ret Term) apply_to w = (Inr Term, w)"
  by (cases decoded) (auto simp: owned_bytes_def owned_by_def ret_def)

lemma command_unowned:
  "\<not> owned_by (ce_tenant e) decoded
     \<Longrightarrow> owned_bytes decoded (ce_tenant e) (refuse_unreadable x dl e kind) apply_to w = (Inr Term, w)"
  by (cases decoded) (auto simp: owned_bytes_def owned_by_def refuse_unreadable_def ret_def)

lemma handle_occurrence_unowned:
  assumes "ce_type e \<noteq> occurrence_subject \<or> ce_tenant e = None
      \<or> entity_kind cd (ce_correlation e) \<noteq> ''operation''"
  shows "handle_occurrence x cd language dl e w = (Inr Term, w)"
proof -
  have "ce_type e = occurrence_subject \<Longrightarrow> occurrence_authority x cd e = None"
    using assms by (auto simp: occurrence_authority_def split: option.split)
  then show ?thesis by (auto simp: handle_occurrence_def ret_def split: option.split)
qed

lemma terminates_if:
  "(b \<Longrightarrow> m w = r) \<Longrightarrow> (\<not> b \<Longrightarrow> n w = r) \<Longrightarrow> (if b then m else n) w = r"
  by simp

lemma handle_command_unowned:
  assumes "\<not> command_authority cd subject (decode_command cd bytes)"
  shows "handle_command x cd language dl subject bytes w = (Inr Term, w)"
proof (cases "decode_command cd bytes")
  case None
  then show ?thesis by (simp add: handle_command_def ret_def)
next
  case (Some e)
  with assms show ?thesis
    unfolding handle_command_def Some option.case
    by (intro terminates_if command_unowned handle_occurrence_unowned) (auto simp: ret_def)
qed

lemma handle_event_unowned:
  assumes "\<not> event_authority cd subject (decode_event cd bytes)"
  shows "handle_event x cd dl subject bytes w = (Inr Term, w)"
proof (cases "decode_event cd bytes")
  case None
  then show ?thesis by (simp add: handle_event_def ret_def)
next
  case (Some e)
  with assms show ?thesis
    unfolding handle_event_def Some option.case
    by (intro terminates_if fact_unowned) (auto simp: ret_def)
qed

text \<open>
  C15: the service acts only on owned messages. Unless a message is a command envelope of the platform or
  an event envelope of Knowledge, of the type of its subject, whose tenant is the owner its payload
  names (for an occurrence, with an operation as its correlation), it is terminated, with no round
  trip to the database.
\<close>

theorem foreign_message_terminated:
  assumes "\<not> command_authority cd subject (decode_command cd bytes)"
    and "\<not> event_authority cd subject (decode_event cd bytes)"
  shows "handle x cd language dl subject bytes w = (Inr Term, w)"
  using assms by (simp add: handle_def handle_command_unowned handle_event_unowned ret_def)

definition demo_foreign :: command_envelope where
  "demo_foreign =
     \<lparr>ce_id = 1, ce_type = subscription_subject, ce_issued = 300, ce_producer = platform_producer,
      ce_aggregate = ''operation:72'', ce_correlation = ''operation:72'', ce_causation = None,
      ce_tenant = Some ''user:8'', ce_payload = []\<rparr>"

theorem foreign_message_terminated_witness:
  "handle demo demo_codec En \<lparr>dl_moment = demo_moment, dl_result = 9, dl_runs = (\<lambda>_. 9)\<rparr>
     subscription_delivery (Inl demo_foreign) (healthy empty_db) = (Inr Term, healthy empty_db)"
  by (rule foreign_message_terminated) 
    (simp_all add: demo_codec_def demo_foreign_def owned_by_def subscription_delivery_def run_delivery_def
      schedule_delivery_def)

end
