(* ===== verification/Readiness.thy ===== *)
theory Readiness
  imports Main
begin

text \<open>
  The readiness of the worker (\<open>Lifecycle\<close>, \<open>WorkerReadiness\<close>, \<open>supervise_provider\<close> and the drain of
  \<open>src/runtime.rs\<close>, \<open>supervise_bus\<close> and \<open>consume_once\<close> of \<open>src/bus.rs\<close>): three tasks share three flags and the
  drain signal, and every load and store is a step of its own. Their interleavings are sequentially
  consistent.
\<close>

section \<open>The shared flags\<close>

record shared =
  sh_bus :: bool
  sh_provider :: bool
  sh_ready :: bool
  sh_drain :: bool

datatype flag = Bus_Flag | Provider_Flag

text \<open>
  The progress of one \<open>set_bus\<close> or \<open>set_provider\<close>: the store, then \<open>refresh\<close>, whose conjunction reads the
  provider only when the bus is ready, then the store of the result.
\<close>

datatype setter = Store bool | Load_Bus | Load_Provider | Set_Ready bool

fun store_flag :: "flag \<Rightarrow> bool \<Rightarrow> shared \<Rightarrow> shared" where
  "store_flag Bus_Flag v s = s\<lparr>sh_bus := v\<rparr>"
| "store_flag Provider_Flag v s = s\<lparr>sh_provider := v\<rparr>"

fun set_step :: "flag \<Rightarrow> setter \<Rightarrow> shared \<Rightarrow> setter option \<times> shared" where
  "set_step f (Store v) s = (Some Load_Bus, store_flag f v s)"
| "set_step f Load_Bus s = (Some (if sh_bus s then Load_Provider else Set_Ready False), s)"
| "set_step f Load_Provider s = (Some (Set_Ready (sh_provider s)), s)"
| "set_step f (Set_Ready v) s = (None, s\<lparr>sh_ready := v\<rparr>)"

section \<open>The bus task\<close>

datatype bus_pc =
    Bus_Top | Bus_Connecting | Bus_Up setter | Bus_Serving | Bus_Down setter | Bus_Check | Bus_Waiting | Bus_Ended

text \<open>
  \<open>consume_once\<close> is \<open>Bus_Connecting\<close> up to its first publishing pass, \<open>Bus_Up\<close> while it sets readiness and
  \<open>Bus_Serving\<close> in its loop, whose biased select takes the drain first.
\<close>

fun bus_next :: "bus_pc \<Rightarrow> shared \<Rightarrow> (bus_pc \<times> shared) list" where
  "bus_next Bus_Top s = [(if sh_drain s then Bus_Ended else Bus_Connecting, s)]"
| "bus_next Bus_Connecting s = [(Bus_Up (Store True), s), (Bus_Down (Store False), s)]"
| "bus_next (Bus_Up k) s =
     (case set_step Bus_Flag k s of (None, s') \<Rightarrow> [(Bus_Serving, s')] | (Some k', s') \<Rightarrow> [(Bus_Up k', s')])"
| "bus_next Bus_Serving s =
     (if sh_drain s then [(Bus_Down (Store False), s)] else [(Bus_Serving, s), (Bus_Down (Store False), s)])"
| "bus_next (Bus_Down k) s =
     (case set_step Bus_Flag k s of (None, s') \<Rightarrow> [(Bus_Check, s')] | (Some k', s') \<Rightarrow> [(Bus_Down k', s')])"
| "bus_next Bus_Check s = [(if sh_drain s then Bus_Ended else Bus_Waiting, s)]"
| "bus_next Bus_Waiting s = [(Bus_Top, s)]"
| "bus_next Bus_Ended s = []"

section \<open>The provider task\<close>

datatype provider_pc =
    Pv_Top | Pv_Connecting | Pv_Up setter | Pv_Serving | Pv_Down setter | Pv_Failed setter | Pv_Waiting | Pv_Ended

fun provider_next :: "provider_pc \<Rightarrow> shared \<Rightarrow> (provider_pc \<times> shared) list" where
  "provider_next Pv_Top s = [(if sh_drain s then Pv_Ended else Pv_Connecting, s)]"
| "provider_next Pv_Connecting s = [(Pv_Up (Store True), s), (Pv_Failed (Store False), s)]"
| "provider_next (Pv_Up k) s =
     (case set_step Provider_Flag k s of (None, s') \<Rightarrow> [(Pv_Serving, s')] | (Some k', s') \<Rightarrow> [(Pv_Up k', s')])"
| "provider_next Pv_Serving s = (if sh_drain s then [(Pv_Down (Store False), s)] else [(Pv_Serving, s)])"
| "provider_next (Pv_Down k) s =
     (case set_step Provider_Flag k s of (None, s') \<Rightarrow> [(Pv_Top, s')] | (Some k', s') \<Rightarrow> [(Pv_Down k', s')])"
| "provider_next (Pv_Failed k) s =
     (case set_step Provider_Flag k s of (None, s') \<Rightarrow> [(Pv_Waiting, s')] | (Some k', s') \<Rightarrow> [(Pv_Failed k', s')])"
| "provider_next Pv_Waiting s = [(Pv_Top, s)]"
| "provider_next Pv_Ended s = []"

section \<open>The process\<close>

text \<open>The main task waits for the signal, begins the drain, then sends it to the others.\<close>

datatype main_pc = Main_Waiting | Main_Withdrawn | Main_Joining

fun main_next :: "main_pc \<Rightarrow> shared \<Rightarrow> (main_pc \<times> shared) list" where
  "main_next Main_Waiting s = [(Main_Withdrawn, s\<lparr>sh_ready := False\<rparr>)]"
| "main_next Main_Withdrawn s = [(Main_Joining, s\<lparr>sh_drain := True\<rparr>)]"
| "main_next Main_Joining s = []"

record process =
  ps_bus :: bus_pc
  ps_provider :: provider_pc
  ps_main :: main_pc
  ps_shared :: shared

definition started :: process where
  "started =
     \<lparr>ps_bus = Bus_Top, ps_provider = Pv_Top, ps_main = Main_Waiting,
      ps_shared = \<lparr>sh_bus = False, sh_provider = False, sh_ready = False, sh_drain = False\<rparr>\<rparr>"

inductive pstep :: "process \<Rightarrow> process \<Rightarrow> bool" where
  bus: "(pc, s) \<in> set (bus_next (ps_bus p) (ps_shared p)) \<Longrightarrow> pstep p (p\<lparr>ps_bus := pc, ps_shared := s\<rparr>)"
| provider: "(pc, s) \<in> set (provider_next (ps_provider p) (ps_shared p))
     \<Longrightarrow> pstep p (p\<lparr>ps_provider := pc, ps_shared := s\<rparr>)"
| main: "(pc, s) \<in> set (main_next (ps_main p) (ps_shared p)) \<Longrightarrow> pstep p (p\<lparr>ps_main := pc, ps_shared := s\<rparr>)"

inductive_cases pstepE: "pstep p q"

abbreviation psteps :: "process \<Rightarrow> process \<Rightarrow> bool" where
  "psteps \<equiv> pstep\<^sup>*\<^sup>*"

text \<open>\<open>GET /ready\<close> of the operator plane.\<close>

definition operator_ready :: "shared \<Rightarrow> nat" where
  "operator_ready s = (if sh_ready s then 200 else 503)"

section \<open>What the flags mean\<close>

text \<open>
  A task is up from the store that announces it to the last store of its withdrawal; while it is not,
  its own flag is false.
\<close>

fun bus_up :: "bus_pc \<Rightarrow> bool" where
  "bus_up (Bus_Up k) \<longleftrightarrow> k \<noteq> Store True"
| "bus_up Bus_Serving \<longleftrightarrow> True"
| "bus_up (Bus_Down k) \<longleftrightarrow> True"
| "bus_up _ \<longleftrightarrow> False"

fun provider_up :: "provider_pc \<Rightarrow> bool" where
  "provider_up (Pv_Up k) \<longleftrightarrow> k \<noteq> Store True"
| "provider_up Pv_Serving \<longleftrightarrow> True"
| "provider_up (Pv_Down k) \<longleftrightarrow> True"
| "provider_up (Pv_Failed k) \<longleftrightarrow> True"
| "provider_up _ \<longleftrightarrow> False"

text \<open>A withdrawal only ever stores false.\<close>

fun bus_withdraws :: "bus_pc \<Rightarrow> shared \<Rightarrow> bool" where
  "bus_withdraws (Bus_Down (Store v)) s \<longleftrightarrow> \<not> v"
| "bus_withdraws (Bus_Down Load_Bus) s \<longleftrightarrow> \<not> sh_bus s"
| "bus_withdraws (Bus_Down Load_Provider) s \<longleftrightarrow> False"
| "bus_withdraws (Bus_Down (Set_Ready v)) s \<longleftrightarrow> \<not> v"
| "bus_withdraws (Bus_Up (Store v)) s \<longleftrightarrow> v"
| "bus_withdraws _ s \<longleftrightarrow> True"

fun provider_withdraws :: "provider_pc \<Rightarrow> shared \<Rightarrow> bool" where
  "provider_withdraws (Pv_Down (Store v)) s \<longleftrightarrow> \<not> v"
| "provider_withdraws (Pv_Down (Set_Ready v)) s \<longleftrightarrow> \<not> v"
| "provider_withdraws (Pv_Down _) s \<longleftrightarrow> \<not> sh_provider s"
| "provider_withdraws (Pv_Failed (Store v)) s \<longleftrightarrow> \<not> v"
| "provider_withdraws (Pv_Failed (Set_Ready v)) s \<longleftrightarrow> \<not> v"
| "provider_withdraws (Pv_Failed _) s \<longleftrightarrow> \<not> sh_provider s"
| "provider_withdraws (Pv_Up (Store v)) s \<longleftrightarrow> v"
| "provider_withdraws _ s \<longleftrightarrow> True"

definition flags_ok :: "process \<Rightarrow> bool" where
  "flags_ok p \<longleftrightarrow>
     bus_withdraws (ps_bus p) (ps_shared p) \<and> provider_withdraws (ps_provider p) (ps_shared p)
     \<and> (sh_drain (ps_shared p) = (ps_main p = Main_Joining))
     \<and> (ps_bus p = Bus_Ended \<longrightarrow> sh_drain (ps_shared p)) \<and> (ps_provider p = Pv_Ended \<longrightarrow> sh_drain (ps_shared p))
     \<and> (sh_ready (ps_shared p) \<longrightarrow> bus_up (ps_bus p) \<or> provider_up (ps_provider p))"

lemma flags_ok_started: "flags_ok started"
  by (simp add: flags_ok_def started_def)

lemma bus_next_keeps:
  assumes "(pc, s') \<in> set (bus_next b s)" and "bus_withdraws b s"
  shows "bus_withdraws pc s'" and "sh_provider s' = sh_provider s" and "sh_drain s' = sh_drain s"
    and "pc = Bus_Ended \<longrightarrow> sh_drain s"
    and "sh_ready s' \<longrightarrow> bus_up pc \<or> sh_ready s \<and> \<not> bus_up b"
  using assms
  by (cases b; cases "case b of Bus_Up k \<Rightarrow> k | Bus_Down k \<Rightarrow> k | _ \<Rightarrow> Load_Bus"; auto split: if_splits)+

lemma provider_next_keeps:
  assumes "(pc, s') \<in> set (provider_next b s)" and "provider_withdraws b s"
  shows "provider_withdraws pc s'" and "sh_bus s' = sh_bus s" and "sh_drain s' = sh_drain s"
    and "pc = Pv_Ended \<longrightarrow> sh_drain s"
    and "sh_ready s' \<longrightarrow> provider_up pc \<or> sh_ready s \<and> \<not> provider_up b"
  using assms
  by (cases b; cases "case b of Pv_Up k \<Rightarrow> k | Pv_Down k \<Rightarrow> k | Pv_Failed k \<Rightarrow> k | _ \<Rightarrow> Load_Bus";
      auto split: if_splits)+

text \<open>The invariant of one task reads only its own flag.\<close>

lemma withdraws_cong:
  "sh_bus s = sh_bus s' \<Longrightarrow> bus_withdraws b s = bus_withdraws b s'"
  "sh_provider s = sh_provider s' \<Longrightarrow> provider_withdraws q s = provider_withdraws q s'"
  by (cases "(b, s)" rule: bus_withdraws.cases; simp) (cases "(q, s)" rule: provider_withdraws.cases; simp)

lemma flags_ok_step:
  assumes "pstep p q" and "flags_ok p"
  shows "flags_ok q"
  using assms(1)
proof (cases rule: pstep.cases)
  case (bus pc s)
  have "bus_withdraws (ps_bus p) (ps_shared p)" using assms(2) by (simp add: flags_ok_def)
  note keeps = bus_next_keeps [OF bus(2) this]
  from assms(2) keeps show ?thesis
    unfolding bus(1) flags_ok_def using withdraws_cong(2) [of s "ps_shared p" "ps_provider p"] by auto
next
  case (provider pc s)
  have "provider_withdraws (ps_provider p) (ps_shared p)" using assms(2) by (simp add: flags_ok_def)
  note keeps = provider_next_keeps [OF provider(2) this]
  from assms(2) keeps show ?thesis
    unfolding provider(1) flags_ok_def using withdraws_cong(1) [of s "ps_shared p" "ps_bus p"] by auto
next
  case (main pc s)
  have "sh_bus s = sh_bus (ps_shared p)" "sh_provider s = sh_provider (ps_shared p)"
    "sh_ready s \<longrightarrow> sh_ready (ps_shared p)" "sh_drain (ps_shared p) \<longrightarrow> sh_drain s"
    "sh_drain s = (pc = Main_Joining)"
    using main(2) assms(2) by (cases "ps_main p"; auto simp: flags_ok_def)+
  with assms(2) show ?thesis
    unfolding main(1) flags_ok_def
    using withdraws_cong(1) [of s "ps_shared p" "ps_bus p"] withdraws_cong(2) [of s "ps_shared p" "ps_provider p"]
    by auto
qed

lemma flags_ok_reachable: "psteps started p \<Longrightarrow> flags_ok p"
  by (induction rule: rtranclp_induct) (auto intro: flags_ok_started flags_ok_step)

text \<open>
  C35: a drained worker is not ready. Under every interleaving of the bus task, the provider task and the
  shutdown, once both tasks have ended the operator is told that the worker is not ready, and a task ends only after the drain
  was sent.
\<close>

theorem drained_not_ready:
  assumes "psteps started p" and "ps_bus p = Bus_Ended" and "ps_provider p = Pv_Ended"
  shows "operator_ready (ps_shared p) = 503 \<and> ps_main p = Main_Joining"
  using flags_ok_reachable [OF assms(1)] assms(2,3) by (auto simp: flags_ok_def operator_ready_def)

section \<open>The drain ends\<close>

fun set_left :: "setter \<Rightarrow> nat" where
  "set_left (Store v) = 4" | "set_left Load_Bus = 3" | "set_left Load_Provider = 2" | "set_left (Set_Ready v) = 1"

fun bus_left :: "bus_pc \<Rightarrow> nat" where
  "bus_left Bus_Ended = 0" | "bus_left Bus_Top = 1" | "bus_left Bus_Check = 1" | "bus_left Bus_Waiting = 2"
| "bus_left (Bus_Down k) = 1 + set_left k" | "bus_left Bus_Serving = 6"
| "bus_left (Bus_Up k) = 6 + set_left k" | "bus_left Bus_Connecting = 11"

fun provider_left :: "provider_pc \<Rightarrow> nat" where
  "provider_left Pv_Ended = 0" | "provider_left Pv_Top = 1" | "provider_left Pv_Waiting = 2"
| "provider_left (Pv_Down k) = 1 + set_left k" | "provider_left (Pv_Failed k) = 2 + set_left k"
| "provider_left Pv_Serving = 6" | "provider_left (Pv_Up k) = 6 + set_left k" | "provider_left Pv_Connecting = 11"

definition steps_left :: "process \<Rightarrow> nat" where
  "steps_left p = bus_left (ps_bus p) + provider_left (ps_provider p)"

lemma bus_drains: "(pc, s') \<in> set (bus_next b s) \<Longrightarrow> sh_drain s \<Longrightarrow> bus_left pc < bus_left b"
  by (cases b; cases "case b of Bus_Up k \<Rightarrow> k | Bus_Down k \<Rightarrow> k | _ \<Rightarrow> Load_Bus"; auto)

lemma provider_drains: "(pc, s') \<in> set (provider_next b s) \<Longrightarrow> sh_drain s \<Longrightarrow> provider_left pc < provider_left b"
  by (cases b; cases "case b of Pv_Up k \<Rightarrow> k | Pv_Down k \<Rightarrow> k | Pv_Failed k \<Rightarrow> k | _ \<Rightarrow> Load_Bus"; auto)

lemma drain_decreases:
  assumes "pstep p q" and "flags_ok p" and "ps_main p = Main_Joining"
  shows "steps_left q < steps_left p" and "ps_main q = Main_Joining"
proof -
  have drain: "sh_drain (ps_shared p)" using assms(2,3) by (simp add: flags_ok_def)
  from assms(1) show "steps_left q < steps_left p" and "ps_main q = Main_Joining"
    using assms(3) bus_drains [OF _ drain] provider_drains [OF _ drain]
    by (cases rule: pstepE; auto simp: steps_left_def)+
qed

lemma next_exists: "b \<noteq> Bus_Ended \<Longrightarrow> bus_next b s \<noteq> []"
  and provider_next_exists: "q \<noteq> Pv_Ended \<Longrightarrow> provider_next q s \<noteq> []"
  by (cases b; simp split: prod.split option.split) (cases q; simp split: prod.split option.split)

lemma steps_left_bound: "steps_left p \<le> 22"
proof -
  have k: "set_left k \<le> 4" for k by (cases k) simp_all
  have "bus_left b \<le> 11" for b
    using k [of "case b of Bus_Up k \<Rightarrow> k | Bus_Down k \<Rightarrow> k | _ \<Rightarrow> Load_Bus"] by (cases b) simp_all
  moreover have "provider_left q \<le> 11" for q
    using k [of "case q of Pv_Up k \<Rightarrow> k | Pv_Down k \<Rightarrow> k | Pv_Failed k \<Rightarrow> k | _ \<Rightarrow> Load_Bus"] by (cases q) simp_all
  ultimately show ?thesis using add_mono [of "bus_left (ps_bus p)" 11 "provider_left (ps_provider p)" 11]
    by (simp add: steps_left_def)
qed

text \<open>
  C34: the drain ends. From any state the worker reaches, once the drain is sent, at most 22 further steps
  of the two tasks are possible, whatever their order, and the process stops only when both have ended.
\<close>

theorem drain_ends:
  assumes "psteps started p" and "ps_main p = Main_Joining" and "(pstep ^^ n) p q"
  shows "n \<le> 22 \<and> ((\<nexists>q'. pstep q q') = (ps_bus q = Bus_Ended \<and> ps_provider q = Pv_Ended))"
proof -
  have *: "flags_ok q \<and> ps_main q = Main_Joining \<and> n + steps_left q \<le> steps_left p"
    using assms(3)
  proof (induction n arbitrary: q)
    case 0
    with assms(2) flags_ok_reachable [OF assms(1)] show ?case by simp
  next
    case (Suc n)
    then obtain r where "(pstep ^^ n) p r" and last: "pstep r q" by auto
    with Suc.IH have r: "flags_ok r" "ps_main r = Main_Joining" "n + steps_left r \<le> steps_left p" by blast+
    from drain_decreases [OF last r(1,2)] flags_ok_step [OF last r(1)] r(3) show ?case by simp
  qed
  have "(\<exists>q'. pstep q q') \<longleftrightarrow> ps_bus q \<noteq> Bus_Ended \<or> ps_provider q \<noteq> Pv_Ended"
  proof
    assume "\<exists>q'. pstep q q'"
    then obtain q' where "pstep q q'" ..
    then show "ps_bus q \<noteq> Bus_Ended \<or> ps_provider q \<noteq> Pv_Ended"
      by (cases rule: pstepE) (use * in auto)
  next
    assume "ps_bus q \<noteq> Bus_Ended \<or> ps_provider q \<noteq> Pv_Ended"
    then show "\<exists>q'. pstep q q'"
      using next_exists [of "ps_bus q" "ps_shared q"] provider_next_exists [of "ps_provider q" "ps_shared q"]
      by (metis list.set_intros(1) neq_Nil_conv pstep.bus pstep.provider surj_pair)
  qed
  moreover have "n \<le> 22" using * steps_left_bound [of p] by linarith
  ultimately show ?thesis by blast
qed

section \<open>Schedules\<close>

text \<open>A schedule picks the task of every step and, where the task has one, its choice.\<close>

datatype pick = Bus_Picks nat | Provider_Picks nat | Main_Picks

fun run_pick :: "pick \<Rightarrow> process \<Rightarrow> process option" where
  "run_pick (Bus_Picks i) p =
     (let next = bus_next (ps_bus p) (ps_shared p)
      in if i < length next then Some (p\<lparr>ps_bus := fst (next ! i), ps_shared := snd (next ! i)\<rparr>) else None)"
| "run_pick (Provider_Picks i) p =
     (let next = provider_next (ps_provider p) (ps_shared p)
      in if i < length next then Some (p\<lparr>ps_provider := fst (next ! i), ps_shared := snd (next ! i)\<rparr>) else None)"
| "run_pick Main_Picks p =
     (case main_next (ps_main p) (ps_shared p) of
        [] \<Rightarrow> None
      | (pc, s) # _ \<Rightarrow> Some (p\<lparr>ps_main := pc, ps_shared := s\<rparr>))"

fun run_schedule :: "pick list \<Rightarrow> process \<Rightarrow> process option" where
  "run_schedule [] p = Some p"
| "run_schedule (c # cs) p = Option.bind (run_pick c p) (run_schedule cs)"

lemma run_pick_step:
  assumes "run_pick c p = Some q"
  shows "pstep p q"
proof (cases c)
  case (Bus_Picks i)
  let ?n = "bus_next (ps_bus p) (ps_shared p)"
  from assms Bus_Picks have "(fst (?n ! i), snd (?n ! i)) \<in> set ?n"
    and "q = p\<lparr>ps_bus := fst (?n ! i), ps_shared := snd (?n ! i)\<rparr>"
    by (auto simp: Let_def split: if_splits)
  then show ?thesis by (simp only: pstep.bus)
next
  case (Provider_Picks i)
  let ?n = "provider_next (ps_provider p) (ps_shared p)"
  from assms Provider_Picks have "(fst (?n ! i), snd (?n ! i)) \<in> set ?n"
    and "q = p\<lparr>ps_provider := fst (?n ! i), ps_shared := snd (?n ! i)\<rparr>"
    by (auto simp: Let_def split: if_splits)
  then show ?thesis by (simp only: pstep.provider)
next
  case Main_Picks
  with assms show ?thesis by (cases "ps_main p") (auto intro!: pstep.main)
qed

lemma run_schedule_steps: "run_schedule cs p = Some q \<Longrightarrow> (pstep ^^ length cs) p q"
proof (induction cs arbitrary: p)
  case (Cons c cs)
  then obtain r where "run_pick c p = Some r" and "run_schedule cs r = Some q" by (auto simp: bind_eq_Some_conv)
  with Cons.IH run_pick_step have "pstep p r" and "(pstep ^^ length cs) r q" by blast+
  then have "(pstep ^^ Suc (length cs)) p q" by (rule relpowp_Suc_I2)
  then show ?case by simp
qed simp

lemma run_schedule_psteps: "run_schedule cs p = Some q \<Longrightarrow> psteps p q"
  using run_schedule_steps relpowp_imp_rtranclp by metis

definition settled_worker :: process where
  "settled_worker =
     \<lparr>ps_bus = Bus_Serving, ps_provider = Pv_Serving, ps_main = Main_Waiting,
      ps_shared = \<lparr>sh_bus = True, sh_provider = True, sh_ready = False, sh_drain = False\<rparr>\<rparr>"

lemma settled_reached: "psteps started settled_worker"
proof -
  have "run_schedule
      [Bus_Picks 0, Provider_Picks 0, Provider_Picks 0, Provider_Picks 0, Provider_Picks 0, Bus_Picks 0, Bus_Picks 0,
       Bus_Picks 0, Bus_Picks 0, Bus_Picks 0, Provider_Picks 0] started = Some settled_worker"
    by (simp add: started_def settled_worker_def)
  then show ?thesis by (rule run_schedule_psteps)
qed

text \<open>
  C36: an update of the readiness can be lost for good. The two tasks refresh without excluding each other:
  when the provider reads the bus flag before the bus task stores it, and stores its own result last, the
  worker serves with both dependencies ready and reports that it is not, and nothing corrects it
  before the bus connection fails or the process is shut down.
\<close>

theorem readiness_update_lost:
  "psteps started settled_worker \<and> sh_bus (ps_shared settled_worker) \<and> sh_provider (ps_shared settled_worker)
     \<and> operator_ready (ps_shared settled_worker) = 503
     \<and> {q. pstep settled_worker q} \<subseteq> {settled_worker} \<union> {q. ps_bus q = Bus_Down (Store False)}
         \<union> {q. ps_main q = Main_Withdrawn}"
proof -
  have "q = settled_worker \<or> ps_bus q = Bus_Down (Store False) \<or> ps_main q = Main_Withdrawn"
    if "pstep settled_worker q" for q
    using that by (cases rule: pstepE) (auto simp: settled_worker_def)
  then show ?thesis using settled_reached by (auto simp: settled_worker_def operator_ready_def)
qed

text \<open>
  The withdrawal at the start of the drain does not last either: tasks that were still connecting set the
  readiness again after the drain was sent.
\<close>

lemma ready_during_drain:
  "\<exists>p. psteps started p \<and> ps_main p = Main_Joining \<and> operator_ready (ps_shared p) = 200"
proof -
  let ?p = "\<lparr>ps_bus = Bus_Serving, ps_provider = Pv_Up Load_Bus, ps_main = Main_Joining,
      ps_shared = \<lparr>sh_bus = True, sh_provider = True, sh_ready = True, sh_drain = True\<rparr>\<rparr>"
  have "run_schedule
      [Bus_Picks 0, Provider_Picks 0, Main_Picks, Main_Picks, Provider_Picks 0, Provider_Picks 0, Bus_Picks 0,
       Bus_Picks 0, Bus_Picks 0, Bus_Picks 0, Bus_Picks 0] started = Some ?p"
    by (simp add: started_def)
  then have "psteps started ?p" by (rule run_schedule_psteps)
  then show ?thesis by (intro exI [of _ ?p]) (simp add: operator_ready_def)
qed

definition drained_worker :: process where
  "drained_worker =
     \<lparr>ps_bus = Bus_Ended, ps_provider = Pv_Ended, ps_main = Main_Joining,
      ps_shared = \<lparr>sh_bus = False, sh_provider = False, sh_ready = False, sh_drain = True\<rparr>\<rparr>"

definition draining_worker :: process where
  "draining_worker = settled_worker\<lparr>ps_main := Main_Joining,
     ps_shared := (ps_shared settled_worker)\<lparr>sh_drain := True\<rparr>\<rparr>"

lemma draining_reached: "psteps started draining_worker"
proof -
  have "run_schedule [Main_Picks, Main_Picks] settled_worker = Some draining_worker"
    by (simp add: settled_worker_def draining_worker_def)
  with settled_reached show ?thesis by (meson run_schedule_psteps rtranclp_trans)
qed

lemma drains_schedule:
  "run_schedule [Bus_Picks 0, Bus_Picks 0, Bus_Picks 0, Bus_Picks 0, Bus_Picks 0, Provider_Picks 0, Provider_Picks 0,
     Provider_Picks 0, Provider_Picks 0, Provider_Picks 0] draining_worker = Some drained_worker"
  by (simp add: settled_worker_def draining_worker_def drained_worker_def)

theorem drained_not_ready_witness: "operator_ready (ps_shared drained_worker) = 503 \<and> ps_main drained_worker = Main_Joining"
proof -
  have "psteps started drained_worker"
    using draining_reached run_schedule_psteps [OF drains_schedule] by (rule rtranclp_trans)
  from drained_not_ready [OF this] show ?thesis by (simp add: drained_worker_def)
qed

theorem drain_ends_witness: "(10 :: nat) \<le> 22 \<and> (\<nexists>q. pstep drained_worker q)"
  using drain_ends [OF draining_reached _ run_schedule_steps [OF drains_schedule]]
  by (simp add: draining_worker_def drained_worker_def)

end
