(* ===== verification/Runtime.thy ===== *)
theory Runtime
  imports Session Reads Delivery Readiness
begin

text \<open>
  \<open>src/runtime.rs\<close>, \<open>src/database.rs\<close> and the loops of \<open>src/bus.rs\<close> and \<open>src/retention.rs\<close>: how each role
  starts, what its tasks repeat until the drain, and how the process joins them. What the host grants
  (connections, listeners, the broker) and the order in which events wake a loop are parameters.
\<close>

section \<open>Starting\<close>

datatype database_error = Database_Unavailable | Database_Schema

datatype runtime_error =
    Runtime_Database database_error | Runtime_Listener | Runtime_Signal | Runtime_Reader | Runtime_Registration
  | Runtime_Drain

text \<open>What the host grants a starting process.\<close>

record host =
  ho_connects :: "string \<Rightarrow> nat \<Rightarrow> nat \<Rightarrow> bool"
  ho_applies :: bool
  ho_binds :: "socket_addr \<Rightarrow> bool"
  ho_client :: bool

definition connect_database :: "host \<Rightarrow> config \<Rightarrow> (db, runtime_error, unit) io" where
  "connect_database h c =
     guard (Runtime_Database Database_Unavailable)
       (ho_connects h (dbc_url (c_database c)) (dbc_max_connections (c_database c)) (dbc_acquire_ms (c_database c)))"

definition apply_schema :: "host \<Rightarrow> (db, runtime_error, unit) io" where
  "apply_schema h = guard (Runtime_Database Database_Schema) (ho_applies h)"

definition bind_listener :: "host \<Rightarrow> socket_addr \<Rightarrow> (db, runtime_error, unit) io" where
  "bind_listener h a = guard Runtime_Listener (ho_binds h a)"

text \<open>What the tasks of a started worker run with.\<close>

record worker_plan =
  wk_bus :: bus_config
  wk_provider :: provider_config
  wk_language :: language
  wk_source_count :: nat
  wk_deadline :: int
  wk_body_days :: nat
  wk_sweep_seconds :: nat
  wk_shutdown_ms :: nat

definition schedule_language :: "schedule_config option \<Rightarrow> language" where
  "schedule_language schedule = (case schedule of None \<Rightarrow> Ru | Some s \<Rightarrow> sched_language s)"

text \<open>
  The parts are taken in the order of the code, except that the tasks of the operator's server and of the
  bus are spawned before \<open>c_provider\<close> is looked at; a configuration that loaded as a worker's has one.
\<close>

definition start_worker ::
  "externals \<Rightarrow> instant \<Rightarrow> uuid \<Rightarrow> host \<Rightarrow> config \<Rightarrow> (db, runtime_error, worker_plan) io" where
  "start_worker x now fresh h c =
     bind_io (connect_database h c) (\<lambda>_.
     bind_io (apply_schema h) (\<lambda>_.
     bind_io (bind_listener h (c_operator c)) (\<lambda>_.
     bind_io (ok_or Runtime_Listener (c_bus c)) (\<lambda>bus.
     bind_io (map_err (\<lambda>_. Runtime_Registration) (enqueue_schedule_registration x now fresh (c_schedule c))) (\<lambda>_.
     bind_io (ok_or Runtime_Listener (c_retention c)) (\<lambda>retention.
     bind_io (ok_or Runtime_Listener (c_provider c)) (\<lambda>provider.
     ret \<lparr>wk_bus = bus, wk_provider = provider, wk_language = schedule_language (c_schedule c),
          wk_source_count = clamp_source_count (lim_source_count (c_limits c)),
          wk_deadline = seconds (int (lim_deadline_seconds (c_limits c))),
          wk_body_days = rc_body_days retention, wk_sweep_seconds = rc_sweep_seconds retention,
          wk_shutdown_ms = lim_shutdown_ms (c_limits c)\<rparr>)))))))"

text \<open>The API role: its reader comes first, then the database and both listeners.\<close>

definition start_api ::
  "host \<Rightarrow> (result_reader \<Rightarrow> uuid \<Rightarrow> string \<Rightarrow> read_error + projection) \<Rightarrow> config
     \<Rightarrow> (db, runtime_error, api_state) io" where
  "start_api h read c =
     bind_io (map_err (\<lambda>_. Runtime_Reader) (from_result (reader_from_config (ho_client h) c))) (\<lambda>reader.
     bind_io (connect_database h c) (\<lambda>_.
     bind_io (apply_schema h) (\<lambda>_.
     bind_io (bind_listener h (c_api c)) (\<lambda>_.
     bind_io (bind_listener h (c_operator c)) (\<lambda>_.
     ret \<lparr>as_secret = c_secret c, as_page_limit = lim_page_size (c_limits c), as_read = read reader\<rparr>)))))"

section \<open>The loops of the worker\<close>

text \<open>
  A loop that looks at the outcome of a tick only to log it. A list of ticks is what happens until the
  drain.
\<close>

fun supervise :: "('t \<Rightarrow> ('s, 'e, 'a) io) \<Rightarrow> 't list \<Rightarrow> ('s, 'f, unit) io" where
  "supervise tick [] = ret ()"
| "supervise tick (t # ts) = bind_io (attempt (tick t)) (\<lambda>_. supervise tick ts)"

record reap_tick =
  rt_now :: instant
  rt_locked :: "uuid set"
  rt_fresh :: "nat \<Rightarrow> uuid"
  rt_clock :: instant

definition supervise_reaper :: "externals \<Rightarrow> int \<Rightarrow> reap_tick list \<Rightarrow> (db, unit, unit) io" where
  "supervise_reaper x deadline =
     supervise (\<lambda>t. reap_once x deadline (rt_now t) (rt_locked t) (rt_fresh t) (rt_clock t))"

text \<open>A sweep, with the counters of the process beside the tables.\<close>

definition sweeping :: "externals \<Rightarrow> nat \<Rightarrow> sweep_moment \<times> instant \<Rightarrow> (db \<times> counter, unit, nat \<times> nat) io" where
  "sweeping x body_days t w =
     (case sweep_once x (fst t) body_days (snd t) (snd (tables w)) \<lparr>tables = fst (tables w), wire = wire w\<rparr> of
        ((r, ct), w') \<Rightarrow> (r, \<lparr>tables = (tables w', ct), wire = wire w'\<rparr>))"

definition supervise_retention ::
  "externals \<Rightarrow> nat \<Rightarrow> (sweep_moment \<times> instant) list \<Rightarrow> (db \<times> counter, unit, unit) io" where
  "supervise_retention x body_days = supervise (sweeping x body_days)"

text \<open>One connection to the provider after the other, each with the ticks of its executor until the drain.\<close>

definition supervise_provider ::
  "externals \<Rightarrow> manifest_codec \<Rightarrow> nat \<Rightarrow> ((provider_error + 'c provider) \<times> tick_env list) list
     \<Rightarrow> (db \<times> counter, unit, unit) io" where
  "supervise_provider x k source_count =
     supervise (\<lambda>(connected, ticks). case connected of
         Inl e \<Rightarrow> raise e
       | Inr pv \<Rightarrow> supervise (\<lambda>te. execute_one x k pv te source_count) ticks)"

section \<open>The bus task\<close>

definition inbox_prefix :: string where
  "inbox_prefix = ''_INBOX_channel_digests''"

definition connect_bus ::
  "(string \<Rightarrow> string option) \<Rightarrow> (string \<Rightarrow> string \<Rightarrow> string option \<Rightarrow> bool) \<Rightarrow> bus_config
     \<Rightarrow> bus_error + unit" where
  "connect_bus read_seed dial bus =
     (case bus_seed_path bus of
        None \<Rightarrow> if dial inbox_prefix (bus_endpoint bus) None then Inr () else Inl Bus_Unavailable
      | Some path \<Rightarrow>
          (case read_seed path of
             None \<Rightarrow> Inl Bus_Unavailable
           | Some seed \<Rightarrow>
               if dial inbox_prefix (bus_endpoint bus) (Some (trim_text seed)) then Inr ()
               else Inl Bus_Unavailable))"

text \<open>What wakes the loop: the drain, the tick of the outbox, or a message of one of the five consumers.\<close>

datatype 'b wake =
    Wake_Drain
  | Wake_Outbox instant "uuid \<Rightarrow> instant"
  | Wake_Message delivery instant "uuid \<Rightarrow> instant" "(unit + string \<times> 'b) option" "ack_kind \<Rightarrow> bool"

text \<open>Whether the drain ended the loop.\<close>

fun consume_loop :: "externals \<Rightarrow> 'b codec \<Rightarrow> language \<Rightarrow> 'b wake list \<Rightarrow> ('b, bool) bus" where
  "consume_loop x cd language [] = ret False"
| "consume_loop x cd language (Wake_Drain # ws) = ret True"
| "consume_loop x cd language (Wake_Outbox now clock # ws) =
     bind_io (publish_outbox x cd now clock) (\<lambda>_. consume_loop x cd language ws)"
| "consume_loop x cd language (Wake_Message dl now clock pulled taken # ws) =
     bind_io (process_delivery x cd language dl now clock pulled taken) (\<lambda>_. consume_loop x cd language ws)"

record 'b bus_session =
  bs_seed :: "string \<Rightarrow> string option"
  bs_dial :: "string \<Rightarrow> string \<Rightarrow> string option \<Rightarrow> bool"
  bs_fetch :: "string \<Rightarrow> string \<Rightarrow> consumer_config option"
  bs_streams :: "consumer_config \<Rightarrow> bool"
  bs_now :: instant
  bs_clock :: "uuid \<Rightarrow> instant"
  bs_wakes :: "'b wake list"

definition consume_once ::
  "externals \<Rightarrow> 'b codec \<Rightarrow> language \<Rightarrow> bus_config \<Rightarrow> 'b bus_session \<Rightarrow> ('b, bool) bus" where
  "consume_once x cd language bus s =
     bind_io (from_result (connect_bus (bs_seed s) (bs_dial s) bus)) (\<lambda>_.
     bind_io (from_result (verify_consumers (bs_fetch s))) (\<lambda>consumers.
     bind_io (guard Bus_Unavailable (list_all (bs_streams s) consumers)) (\<lambda>_.
     bind_io (publish_outbox x cd (bs_now s) (bs_clock s)) (\<lambda>_.
     consume_loop x cd language (bs_wakes s)))))"

fun supervise_bus ::
  "externals \<Rightarrow> 'b codec \<Rightarrow> language \<Rightarrow> bus_config \<Rightarrow> 'b bus_session list \<Rightarrow> (db \<times> 'b broker, unit, unit) io" where
  "supervise_bus x cd language bus [] = ret ()"
| "supervise_bus x cd language bus (s # ss) =
     bind_io (attempt (consume_once x cd language bus s)) (\<lambda>outcome.
     if outcome = Inr True then ret () else supervise_bus x cd language bus ss)"

section \<open>Joining\<close>

text \<open>
  A joined task: when it ends, if it does, and how. The tasks are awaited in order, and the whole wait
  has one bound.
\<close>

datatype task_end = Returned "runtime_error + unit" | Panicked

type_synonym task = "nat option \<times> task_end"

fun join_all :: "nat \<Rightarrow> task list \<Rightarrow> (nat \<times> (runtime_error + unit)) option" where
  "join_all now [] = Some (now, Inr ())"
| "join_all now ((None, how) # tasks) = None"
| "join_all now ((Some t, how) # tasks) =
     (let later = max now t in
      case how of
        Panicked \<Rightarrow> Some (later, Inl Runtime_Drain)
      | Returned (Inl e) \<Rightarrow> Some (later, Inl e)
      | Returned (Inr _) \<Rightarrow> join_all later tasks)"

definition join_servers :: "nat \<Rightarrow> task list \<Rightarrow> runtime_error + unit" where
  "join_servers bound tasks =
     (case join_all 0 tasks of
        None \<Rightarrow> Inl Runtime_Drain
      | Some (t, outcome) \<Rightarrow> if t \<le> bound then outcome else Inl Runtime_Drain)"

section \<open>The operator plane\<close>

text \<open>
  The routes of the operator listener; only the worker serves the counters, and they are merged outside the
  layer that forbids storing.
\<close>

datatype operator_route = Live_Route | Operator_Ready_Route | Metrics_Route

definition operator_serve :: "role \<Rightarrow> shared \<Rightarrow> counter \<Rightarrow> operator_route \<Rightarrow> response" where
  "operator_serve role flags counters route =
     (case route of
        Live_Route \<Rightarrow> (status_only 200)\<lparr>re_no_store := True\<rparr>
      | Operator_Ready_Route \<Rightarrow> (status_only (operator_ready flags))\<lparr>re_no_store := True\<rparr>
      | Metrics_Route \<Rightarrow>
          (case role of
             Worker \<Rightarrow> plain 200 (Metrics_Body (render counters))
           | Api \<Rightarrow> (status_only 404)\<lparr>re_no_store := True\<rparr>))"

section \<open>The tasks are sequences of steps\<close>

lemma preserves_supervise: "(\<And>t. preserves I (tick t)) \<Longrightarrow> preserves I (supervise tick ts)"
  by (induction ts) (auto intro!: preserves_bind preserves_ret preserves_attempt)

lemma preserves_disposed: "preserves I m \<Longrightarrow> preserves I (disposed f m)"
proof -
  have "snd (disposed f m w) = snd (m w)" for w by (simp add: disposed_def split: prod.split sum.split)
  then show "preserves I m \<Longrightarrow> preserves I (disposed f m)" by (simp add: preserves_def)
qed

context work_closed
begin

lemma follows_owned_bytes:
  assumes "preserves I unreadable" and "\<And>payload. preserves I (apply_to payload)"
  shows "preserves I (owned_bytes decoded tenant unreadable apply_to)"
  using assms unfolding owned_bytes_def by (auto intro: preserves_ret split: option.split)

lemma follows_handle: "preserves I (handle x cd language dl subject bytes)"
  unfolding handle_def handle_command_def handle_event_def handle_occurrence_def refuse_unreadable_def
  by (intro preserves_if preserves_case_option preserves_case_prod preserves_ret preserves_disposed
      follows_owned_bytes follows_accept_occurrence follows_reject_unreadable follows_accept_subscription
      follows_accept_run follows_settle_completion follows_settle_failure)

lemma follows_supervise_reaper: "preserves I (supervise_reaper x deadline ticks)"
  unfolding supervise_reaper_def by (intro preserves_supervise follows)

lemma follows_supervise_retention: "preserves (tables_inv I) (supervise_retention x body_days ticks)"
proof -
  have batches: "preserves I (minimize_before x now locked before limit)"
      "preserves I (minimize_manifests_before x now locked before limit)" for now locked before limit
    by (intro follows)+
  have one: "I (tables w')" if "preserves I m" "m w = (r, w')" "I (tables w)"
    for m :: "(db, unit, nat) io" and w w' r
    using that by (auto simp: preserves_def dest: spec [of _ w])
  have sweep: "I (tables (snd (sweep_once x sm body_days t ct w)))" if "I (tables w)" for sm t ct w
    using that one [OF batches(1)] one [OF batches(2)]
    by (simp add: sweep_once_def Let_def split: option.split prod.split sum.split)
  have "preserves (tables_inv I) (sweeping x body_days t)" for t
    unfolding preserves_def
  proof (intro allI impI)
    fix w :: "(db \<times> counter) world"
    assume "I (fst (tables w))"
    with sweep [of "\<lparr>tables = fst (tables w), wire = wire w\<rparr>"] show "I (fst (tables (snd (sweeping x body_days t w))))"
      by (simp add: sweeping_def case_prod_unfold)
  qed
  then show ?thesis unfolding supervise_retention_def by (intro preserves_supervise)
qed

lemma follows_supervise_provider: "preserves (tables_inv I) (supervise_provider x k source_count connections)"
  unfolding supervise_provider_def
  by (auto intro!: preserves_supervise preserves_raise trail_execute_one split: sum.split)

lemma follows_start_worker: "preserves I (start_worker x now fresh h c)"
  unfolding start_worker_def connect_database_def apply_schema_def bind_listener_def
  by (intro preserves_bind preserves_guard preserves_ok_or preserves_map_err preserves_ret follows_registration)

end

text \<open>
  The bus task works on the tables beside the broker.
\<close>

interpretation bus_stepwise: work_closed x "\<lambda>d. bus_steps x cd s (d, br)" for x cd s br
  by unfold_locales (blast intro: rtranclp.rtrancl_into_rtrancl bus_step.service)

lemma ends_always: "ends m (\<lambda>_. J) J s \<longleftrightarrow> (\<forall>w. tables w = s \<longrightarrow> J (tables (snd (m w))))"
proof -
  have "(case m w of (Inl e, w') \<Rightarrow> J (tables w') | (Inr v, w') \<Rightarrow> J (tables w')) = J (tables (snd (m w)))" for w
    by (cases "m w"; cases "fst (m w)") simp_all
  then show ?thesis by (simp add: ends_def)
qed

lemma ends_handle:
  assumes "bus_steps x cd s t"
  shows "ends (on_tables (handle x cd language dl subject bytes)) (\<lambda>_. bus_steps x cd s) (bus_steps x cd s) t"
  using assms bus_stepwise.follows_handle [of x cd s "snd t" cd language dl subject bytes]
  unfolding ends_always by (auto simp: preserves_def on_tables_def case_prod_unfold)

lemma ends_publish_outbox:
  assumes "bus_steps x cd s t"
  shows "ends (publish_outbox x cd now clock) (\<lambda>_. bus_steps x cd s) (bus_steps x cd s) t"
  unfolding ends_always
proof (intro allI impI)
  fix w :: "(db \<times> 'a broker) world"
  assume "tables w = t"
  then have "w = \<lparr>tables = t, wire = wire w\<rparr>" by (cases w) simp
  with assms publish_outbox_steps [of x cd t now clock "wire w"]
  show "bus_steps x cd s (tables (snd (publish_outbox x cd now clock w)))" by (metis rtranclp_trans)
qed

lemma ends_process_delivery:
  assumes "bus_steps x cd s t"
  shows "ends (process_delivery x cd language dl now clock pulled taken)
     (\<lambda>_. bus_steps x cd s) (bus_steps x cd s) t"
  using assms unfolding process_delivery_def
  by (auto intro!: ends_intros ends_bind ends_mono [OF ends_handle] ends_mono [OF ends_publish_outbox]
      split: option.split sum.split)

lemma ends_consume_loop:
  "bus_steps x cd s t \<Longrightarrow> ends (consume_loop x cd language wakes) (\<lambda>_. bus_steps x cd s) (bus_steps x cd s) t"
proof (induction wakes arbitrary: t)
  case (Cons wake wakes)
  then show ?case
    by (cases wake)
      (auto intro!: ends_intros ends_bind ends_mono [OF ends_publish_outbox] ends_mono [OF ends_process_delivery])
qed (simp add: ends_ret)

lemma ends_consume_once:
  assumes "bus_steps x cd s t"
  shows "ends (consume_once x cd language bus session) (\<lambda>_. bus_steps x cd s) (bus_steps x cd s) t"
  using assms unfolding consume_once_def
  by (auto intro!: ends_bind ends_from_result ends_guard ends_mono [OF ends_publish_outbox] ends_consume_loop)

lemma ends_attempt: "ends m (\<lambda>_. J) J s \<Longrightarrow> ends (attempt m) (\<lambda>_. J) K s"
  unfolding ends_def attempt_def by (fastforce split: prod.splits sum.splits)

lemma ends_supervise_bus:
  "bus_steps x cd s t \<Longrightarrow> ends (supervise_bus x cd language bus sessions) (\<lambda>_. bus_steps x cd s) (bus_steps x cd s) t"
proof (induction sessions arbitrary: t)
  case (Cons session sessions)
  then show ?case
    by (auto intro!: ends_bind ends_ret ends_mono [OF ends_attempt [OF ends_consume_once]])
qed (simp add: ends_ret)

text \<open>
  C6: the whole worker is a sequence of its transactions and publications. Starting it, the loops of its
  bus, of its executor, of its reaper and of its retention, each over any connections, events and
  failures, make only steps of the service, so what holds in every reachable state holds at every moment
  of a worker's life.
\<close>

theorem worker_tasks_are_steps:
  "steps x d (tables (snd (start_worker x now fresh h c \<lparr>tables = d, wire = ns\<rparr>)))
   \<and> bus_steps x cd (d, br) (tables (snd (supervise_bus x cd language bus sessions \<lparr>tables = (d, br), wire = ns\<rparr>)))
   \<and> steps x d (fst (tables (snd (supervise_provider x k source_count connections \<lparr>tables = (d, ct), wire = ns\<rparr>))))
   \<and> steps x d (tables (snd (supervise_reaper x deadline reaps \<lparr>tables = d, wire = ns\<rparr>)))
   \<and> steps x d (fst (tables (snd (supervise_retention x body_days sweeps \<lparr>tables = (d, ct), wire = ns\<rparr>))))"
proof -
  have "ends (supervise_bus x cd language bus sessions) (\<lambda>_. bus_steps x cd (d, br)) (bus_steps x cd (d, br)) (d, br)"
    by (rule ends_supervise_bus) simp
  then have bus: "bus_steps x cd (d, br)
      (tables (snd (supervise_bus x cd language bus sessions \<lparr>tables = (d, br), wire = ns\<rparr>)))"
    unfolding ends_always by simp
  show ?thesis
    using stepwise.follows_start_worker [of x d now fresh h c] bus
      stepwise.follows_supervise_provider [of x d k source_count connections]
      stepwise.follows_supervise_reaper [of x d deadline reaps]
      stepwise.follows_supervise_retention [of x d body_days sweeps]
    by (simp add: preserves_def)
qed

section \<open>A clean drain\<close>

lemma join_all_later: "join_all now tasks = Some (t, r) \<Longrightarrow> now \<le> t"
  by (induction now tasks rule: join_all.induct)
    (fastforce simp: Let_def split: task_end.splits sum.splits)+

lemma join_all_clean:
  assumes "now \<le> bound"
  shows "(\<exists>t \<le> bound. join_all now tasks = Some (t, Inr ()))
     \<longleftrightarrow> list_all (\<lambda>(ends_at, how). (\<exists>t \<le> bound. ends_at = Some t) \<and> how = Returned (Inr ())) tasks"
  using assms
proof (induction now tasks rule: join_all.induct)
  case (3 now t how tasks)
  show ?case
  proof (cases "how = Returned (Inr ())")
    case True
    show ?thesis
    proof (cases "t \<le> bound")
      case True
      with 3 \<open>how = _\<close> show ?thesis by simp
    next
      case False
      then have "\<not> (\<exists>u \<le> bound. join_all (max now t) tasks = Some (u, Inr ()))"
        using join_all_later [of "max now t" tasks] by fastforce
      with False True show ?thesis by simp
    qed
  next
    case False
    then show ?thesis by (auto simp: Let_def split: task_end.splits sum.splits)
  qed
qed auto

text \<open>
  The process drains cleanly exactly when its tasks do. Joining succeeds if and only if every task
  returned without an error and did so within the shutdown bound; a panic, an error, a task that hangs or
  one that is late is reported.
\<close>

theorem drain_clean:
  "join_servers bound tasks = Inr ()
     \<longleftrightarrow> list_all (\<lambda>(ends_at, how). (\<exists>t \<le> bound. ends_at = Some t) \<and> how = Returned (Inr ())) tasks"
  using join_all_clean [of 0 bound tasks]
  by (auto simp: join_servers_def split: option.splits prod.splits if_splits)

text \<open>A process waits for its signal, then joins its tasks.\<close>

definition finish_process :: "bool \<Rightarrow> nat \<Rightarrow> task list \<Rightarrow> runtime_error + unit" where
  "finish_process signalled bound tasks =
     (if signalled then join_servers bound tasks else Inl Runtime_Signal)"

section \<open>A configured role starts\<close>

lemma reader_from_config_built:
  "c_reader c = Some r \<Longrightarrow> reader_from_config ok c =
     (if ok then Inr \<lparr>rd_base_url = kr_base_url r, rd_secret = kr_secret r, rd_limit = kr_max_bytes r\<rparr>
      else Inl Read_Invalid)"
  by (simp add: reader_from_config_def)

lemmas start_defs = connect_database_def apply_schema_def bind_listener_def bind_guard bind_ok_or

lemma start_worker_complete:
  assumes "c_bus c = Some bus" and "c_provider c = Some provider" and "c_retention c = Some retention"
  shows "start_worker x now fresh h c =
     (if \<not> ho_connects h (dbc_url (c_database c)) (dbc_max_connections (c_database c)) (dbc_acquire_ms (c_database c))
      then raise (Runtime_Database Database_Unavailable)
      else if \<not> ho_applies h then raise (Runtime_Database Database_Schema)
      else if \<not> ho_binds h (c_operator c) then raise Runtime_Listener
      else bind_io (map_err (\<lambda>_. Runtime_Registration)
             (enqueue_schedule_registration x now fresh (c_schedule c))) (\<lambda>_.
           ret \<lparr>wk_bus = bus, wk_provider = provider, wk_language = schedule_language (c_schedule c),
             wk_source_count = clamp_source_count (lim_source_count (c_limits c)),
             wk_deadline = seconds (int (lim_deadline_seconds (c_limits c))),
             wk_body_days = rc_body_days retention, wk_sweep_seconds = rc_sweep_seconds retention,
             wk_shutdown_ms = lim_shutdown_ms (c_limits c)\<rparr>))"
  by (simp add: start_worker_def start_defs assms)

lemma bind_mapped_result:
  "bind_io (map_err f (from_result v)) k = (case v of Inl e \<Rightarrow> raise (f e) | Inr a \<Rightarrow> k a)"
  by (cases v) (auto simp: bind_io_def map_err_def from_result_def ret_def raise_def)

lemma start_api_complete:
  assumes "c_reader c = Some r"
  shows "start_api h read c =
     (if \<not> ho_client h then raise Runtime_Reader
      else if \<not> ho_connects h (dbc_url (c_database c)) (dbc_max_connections (c_database c)) (dbc_acquire_ms (c_database c))
      then raise (Runtime_Database Database_Unavailable)
      else if \<not> ho_applies h then raise (Runtime_Database Database_Schema)
      else if \<not> ho_binds h (c_api c) \<or> \<not> ho_binds h (c_operator c) then raise Runtime_Listener
      else ret \<lparr>as_secret = c_secret c, as_page_limit = lim_page_size (c_limits c),
        as_read = read \<lparr>rd_base_url = kr_base_url r, rd_secret = kr_secret r, rd_limit = kr_max_bytes r\<rparr>\<rparr>)"
  by (simp add: start_api_def start_defs bind_mapped_result reader_from_config_built [OF assms])

text \<open>
  A loaded configuration starts its role. With the configuration of a worker, starting fails only for
  the database, the schema, the operator listener or the registration, never for a missing part; what
  starts keeps the configured values, within their bounds, and only the registration touches the tables.
  With the configuration of an API, starting fails only for the HTTP client, the database, the schema or
  a listener, and what starts has a secret and pages of at most a hundred rows.
\<close>

theorem loaded_config_starts:
  assumes "from_environment cx role entries = Inr c"
  shows "case role of
       Worker \<Rightarrow>
         (\<exists>plan. start_worker x now fresh h c =
            (if \<not> ho_connects h (dbc_url (c_database c)) 8 5000 then raise (Runtime_Database Database_Unavailable)
             else if \<not> ho_applies h then raise (Runtime_Database Database_Schema)
             else if \<not> ho_binds h (c_operator c) then raise Runtime_Listener
             else bind_io (map_err (\<lambda>_. Runtime_Registration)
                    (enqueue_schedule_registration x now fresh (c_schedule c))) (\<lambda>_. ret plan))
            \<and> wk_source_count plan = lim_source_count (c_limits c) \<and> wk_source_count plan \<in> {1..100}
            \<and> wk_deadline plan \<in> {seconds 60..seconds 86400} \<and> wk_body_days plan \<in> {8..3650}
            \<and> wk_language plan = schedule_language (c_schedule c))
     | Api \<Rightarrow>
         (\<exists>reader. start_api h read c =
            (if \<not> ho_client h then raise Runtime_Reader
             else if \<not> ho_connects h (dbc_url (c_database c)) 8 5000 then raise (Runtime_Database Database_Unavailable)
             else if \<not> ho_applies h then raise (Runtime_Database Database_Schema)
             else if \<not> ho_binds h (c_api c) \<or> \<not> ho_binds h (c_operator c) then raise Runtime_Listener
             else ret \<lparr>as_secret = c_secret c, as_page_limit = lim_page_size (c_limits c), as_read = read reader\<rparr>)
            \<and> rd_limit reader \<in> {1..65536} \<and> rd_secret reader \<noteq> []
            \<and> c_secret c \<noteq> [] \<and> lim_page_size (c_limits c) \<in> {1..100})"
proof (cases role)
  case Worker
  note parts = loaded_parts [OF assms, unfolded Worker role.case]
  then obtain bus provider retention where
    some: "c_bus c = Some bus" "c_provider c = Some provider" "c_retention c = Some retention" "retention_ok retention"
    by blast
  from parts have limits: "limits_ok (c_limits c)" by blast
  then show ?thesis
    unfolding Worker role.case using parts some(4)
    by (subst start_worker_complete [OF some(1-3)], intro exI conjI, simp)
      (simp_all add: limits_ok_def retention_ok_def clamp_source_count_def)
next
  case Api
  note parts = loaded_parts [OF assms, unfolded Api role.case]
  then obtain r where reader: "c_reader c = Some r" and bounds: "kr_secret r \<noteq> []" "kr_max_bytes r \<in> {1..65536}"
    by auto
  show ?thesis
    unfolding Api role.case using parts bounds
    by (intro exI [of _ "\<lparr>rd_base_url = kr_base_url r, rd_secret = kr_secret r, rd_limit = kr_max_bytes r\<rparr>"])
      (simp add: start_api_complete [OF reader] limits_ok_def)
qed

definition granting :: host where
  "granting = \<lparr>ho_connects = (\<lambda>_ _ _. True), ho_applies = True, ho_binds = (\<lambda>_. True), ho_client = True\<rparr>"

theorem loaded_config_starts_witness:
  "\<exists>c. from_environment demo_cfg Api demo_env = Inr c
     \<and> (\<exists>reader. start_api granting (\<lambda>_ _ _. Inl Read_Invalid) c
          = ret \<lparr>as_secret = c_secret c, as_page_limit = lim_page_size (c_limits c), as_read = (\<lambda>_ _. Inl Read_Invalid)\<rparr>)"
proof -
  obtain c where loads: "from_environment demo_cfg Api demo_env = Inr c" using demo_loads by blast
  from loaded_config_starts [OF loads, where h = granting and read = "\<lambda>_ _ _. Inl Read_Invalid"]
  show ?thesis by (intro exI [of _ c] conjI loads) (simp add: granting_def)
qed

end
