(* ===== verification/Processes.thy ===== *)
theory Processes
  imports Runtime
begin

text \<open>
  The two processes (\<open>services/api/src/main.rs\<close>, \<open>services/worker/src/main.rs\<close>, \<open>src/telemetry.rs\<close>): each
  loads its configuration and installs its log subscriber, the worker also loads its session, and then
  either stops, when it was asked to check its configuration, or runs until it is told to end.
\<close>

section \<open>The log subscriber\<close>

datatype telemetry_error = Telemetry_Error

text \<open>\<open>installs\<close>: whether the process has no subscriber yet.\<close>

definition install_subscriber :: "config_codec \<Rightarrow> (log_format \<Rightarrow> bool) \<Rightarrow> config \<Rightarrow> telemetry_error + unit" where
  "install_subscriber cx installs c =
     (if \<not> filter_parses cx (tel_filter (c_telemetry c)) then Inl Telemetry_Error
      else if installs (tel_format (c_telemetry c)) then Inr () else Inl Telemetry_Error)"

section \<open>The processes\<close>

datatype process_error =
    Process_Config config_error | Process_Telemetry telemetry_error | Process_No_Provider
  | Process_Session session_error | Process_Runtime runtime_error

text \<open>
  \<open>running\<close> is what the spawned tasks do with the tables until the process ends, \<open>tasks\<close> how they end. The
  tasks of the API only read.
\<close>

definition run_worker ::
  "externals \<Rightarrow> instant \<Rightarrow> uuid \<Rightarrow> host \<Rightarrow> (db, unit, unit) io \<Rightarrow> bool \<Rightarrow> task list \<Rightarrow> config
     \<Rightarrow> (db, runtime_error, unit) io" where
  "run_worker x now fresh h running signalled tasks c =
     bind_io (start_worker x now fresh h c) (\<lambda>plan.
     bind_io (attempt running) (\<lambda>_.
     from_result (finish_process signalled (wk_shutdown_ms plan) tasks)))"

definition run_api ::
  "host \<Rightarrow> (result_reader \<Rightarrow> uuid \<Rightarrow> string \<Rightarrow> read_error + projection) \<Rightarrow> bool \<Rightarrow> task list \<Rightarrow> config
     \<Rightarrow> (db, runtime_error, unit) io" where
  "run_api h read signalled tasks c =
     bind_io (start_api h read c) (\<lambda>st.
     from_result (finish_process signalled (lim_shutdown_ms (c_limits c)) tasks))"

definition check_config :: string where
  "check_config = ''check-config''"

text \<open>What surrounds a process: its environment, its first argument, its files and its cipher.\<close>

record surroundings =
  su_entries :: "(string \<times> string) list"
  su_argument :: "string option"
  su_installs :: "log_format \<Rightarrow> bool"
  su_stat :: "string \<Rightarrow> metadata option"
  su_contents :: "string \<Rightarrow> string option"
  su_decrypt :: "string \<Rightarrow> string \<Rightarrow> string \<Rightarrow> string \<Rightarrow> string option"

definition api_main ::
  "config_codec \<Rightarrow> surroundings \<Rightarrow> (config \<Rightarrow> (db, runtime_error, unit) io) \<Rightarrow> (db, process_error, unit) io" where
  "api_main cx su run =
     bind_io (map_err Process_Config (from_result (from_environment cx Api (su_entries su)))) (\<lambda>c.
     bind_io (map_err Process_Telemetry (from_result (install_subscriber cx (su_installs su) c))) (\<lambda>_.
     if su_argument su = Some check_config then ret () else map_err Process_Runtime (run c)))"

definition worker_main ::
  "config_codec \<Rightarrow> surroundings \<Rightarrow> (config \<Rightarrow> (db, runtime_error, unit) io) \<Rightarrow> (db, process_error, unit) io" where
  "worker_main cx su run =
     bind_io (map_err Process_Config (from_result (from_environment cx Worker (su_entries su)))) (\<lambda>c.
     bind_io (map_err Process_Telemetry (from_result (install_subscriber cx (su_installs su) c))) (\<lambda>_.
     bind_io (ok_or Process_No_Provider (c_provider c)) (\<lambda>provider.
     bind_io (map_err Process_Session
       (from_result (load_session (su_stat su) (su_contents su) (su_decrypt su) provider))) (\<lambda>session.
     if su_argument su = Some check_config then ret () else map_err Process_Runtime (run c)))))"

section \<open>Checking the configuration\<close>

lemma run_worker_complete:
  assumes "from_environment cx Worker entries = Inr c"
  shows "run_worker x now fresh h running signalled tasks c w =
     (if \<not> ho_connects h (dbc_url (c_database c)) 8 5000 then (Inl (Runtime_Database Database_Unavailable), w)
      else if \<not> ho_applies h then (Inl (Runtime_Database Database_Schema), w)
      else if \<not> ho_binds h (c_operator c) then (Inl Runtime_Listener, w)
      else (case enqueue_schedule_registration x now fresh (c_schedule c) w of
              (Inl _, w') \<Rightarrow> (Inl Runtime_Registration, w')
            | (Inr _, w') \<Rightarrow> (finish_process signalled (lim_shutdown_ms (c_limits c)) tasks, snd (running w'))))"
proof -
  note parts = loaded_parts [OF assms]
  from parts obtain bus provider retention where
    some: "c_bus c = Some bus" "c_provider c = Some provider" "c_retention c = Some retention"
    by auto
  show ?thesis
    using parts
    by (simp add: run_worker_def start_worker_complete [OF some] bind_io_def map_err_def ret_def raise_def
        from_result_def attempt_def split: prod.split sum.split)
qed

text \<open>
  A worker whose tasks make steps of the service makes only such steps from its start to its end.
\<close>

theorem worker_process_steps:
  assumes "preserves (steps x d) running"
  shows "preserves (steps x d) (run_worker x now fresh h running signalled tasks c)"
  unfolding run_worker_def
  by (intro preserves_bind preserves_attempt stepwise.follows_start_worker assms preserves_intros)

text \<open>
  C32: a checked worker lacks nothing it can check. When the check of the configuration succeeds, it has not
  touched the database, and the same environment run as a worker fails only for what the check cannot see:
  the database, the schema, the operator's listener, the registration of the schedule, and at the end
  the signal or a drain that is not clean within the configured bound; the tables it leaves are those that
  its tasks leave.
\<close>

theorem checked_worker_runs:
  assumes "fst (worker_main cx (su\<lparr>su_argument := Some check_config\<rparr>) any w) = Inr ()"
    and "su_argument su \<noteq> Some check_config"
  shows "snd (worker_main cx (su\<lparr>su_argument := Some check_config\<rparr>) any w) = w
     \<and> (\<exists>c. from_environment cx Worker (su_entries su) = Inr c
          \<and> worker_main cx su (run_worker x now fresh h running signalled tasks) w =
       (if \<not> ho_connects h (dbc_url (c_database c)) 8 5000
        then (Inl (Process_Runtime (Runtime_Database Database_Unavailable)), w)
        else if \<not> ho_applies h then (Inl (Process_Runtime (Runtime_Database Database_Schema)), w)
        else if \<not> ho_binds h (c_operator c) then (Inl (Process_Runtime Runtime_Listener), w)
        else (case enqueue_schedule_registration x now fresh (c_schedule c) w of
                (Inl _, w') \<Rightarrow> (Inl (Process_Runtime Runtime_Registration), w')
              | (Inr _, w') \<Rightarrow>
                  (case finish_process signalled (lim_shutdown_ms (c_limits c)) tasks of
                     Inl e \<Rightarrow> (Inl (Process_Runtime e), snd (running w'))
                   | Inr _ \<Rightarrow> (Inr (), snd (running w'))))))"
proof -
  let ?load = "\<lambda>p. load_session (su_stat su) (su_contents su) (su_decrypt su) p"
  from assms(1) obtain c p session where checked: "from_environment cx Worker (su_entries su) = Inr c"
      "install_subscriber cx (su_installs su) c = Inr ()" "c_provider c = Some p" "?load p = Inr session"
    by (cases "from_environment cx Worker (su_entries su)"; simp add: worker_main_def bind_mapped_result raise_def)
      (auto simp: bind_mapped_result bind_ok_or raise_def split: sum.splits option.splits)
  have main: "worker_main cx (su\<lparr>su_argument := arg\<rparr>) run w =
      (if arg = Some check_config then (Inr (), w) else map_err Process_Runtime (run c) w)" for arg run
    by (simp add: worker_main_def bind_mapped_result bind_ok_or checked ret_def)
  have "worker_main cx su run w = map_err Process_Runtime (run c) w" for run
    using main [of "su_argument su" run] assms(2) by simp
  then show ?thesis
    using main [of "Some check_config" any] checked(1)
    by (intro conjI exI [of _ c])
      (simp_all add: run_worker_complete [OF checked(1)] map_err_def split: prod.split sum.split)
qed

definition demo_worker_env :: "(string \<times> string) list" where
  "demo_worker_env =
     [(''RATATOSKR__DATABASE__URL'', ''db''), (''RATATOSKR__AUTH__SERVICE_SECRET'', ''secret''),
      (''RATATOSKR__PROVIDER__API_ID'', ''7''), (''RATATOSKR__PROVIDER__API_HASH'', ''hash''),
      (''RATATOSKR__PROVIDER__SESSION_FILE'', ''/session''), (''RATATOSKR__PROVIDER__SESSION_KEY_FILE'', ''/key''),
      (''RATATOSKR__BUS__ENDPOINT'', ''nats'')]"

definition demo_surroundings :: surroundings where
  "demo_surroundings =
     \<lparr>su_entries = demo_worker_env, su_argument = None, su_installs = (\<lambda>_. True),
      su_stat = (\<lambda>_. Some \<lparr>md_is_file = True, md_len = 32, md_mode = 384\<rparr>),
      su_contents = (\<lambda>_. Some (replicate 32 CHR ''k'')), su_decrypt = (\<lambda>_ _ _ _. Some ''s'')\<rparr>"

lemma demo_check_passes:
  "fst (worker_main demo_cfg (demo_surroundings\<lparr>su_argument := Some check_config\<rparr>) any w) = Inr ()"
proof -
  have seven: "nat_text 7 = ''7''" by code_simp
  have "parse_unsigned (2 ^ 31 - 1) (nat_text 7) = Some 7" by (simp add: parse_unsigned_nat_text)
  then have id: "parse_i32 ''7'' = Some 7" unfolding seven by (simp add: parse_i32_def)
  have "\<exists>c. from_environment demo_cfg Worker demo_worker_env = Inr c \<and> (\<exists>p. c_provider c = Some p)"
    by (simp add: from_environment_def demo_worker_env_def prefixed_def key_prefix_def apply_key_def apply_limit_def
        matching_arm_def key_arms_def limit_arms_def limit_arm_def new_builder_def setting_def nonempty_def
        absolute_path_def parse_positive_def or_error_def id finish_config_def schedule_of_def required_def
        role_parts_def provider_of_def bus_of_def)
  then obtain c p where "from_environment demo_cfg Worker demo_worker_env = Inr c" and "c_provider c = Some p"
    by blast
  moreover have "install_subscriber demo_cfg (\<lambda>_. True) c = Inr ()" for c
    by (simp add: install_subscriber_def demo_cfg_def)
  moreover have "load_session (su_stat demo_surroundings) (su_contents demo_surroundings)
      (su_decrypt demo_surroundings) p = Inr ''s''" for p
    by (simp add: load_session_def read_private_file_def demo_surroundings_def key_bytes_def max_session_bytes_def
        nonce_bytes_def)
  ultimately show ?thesis
    by (simp add: worker_main_def bind_mapped_result bind_ok_or demo_surroundings_def ret_def)
qed

theorem checked_worker_runs_witness:
  "\<exists>c. from_environment demo_cfg Worker demo_worker_env = Inr c
     \<and> worker_main demo_cfg demo_surroundings (run_worker demo 1 2 granting (ret ()) True [(Some 5, Returned (Inr ()))])
          (healthy empty_db)
        = (case enqueue_schedule_registration demo 1 2 (c_schedule c) (healthy empty_db) of
             (Inl _, w') \<Rightarrow> (Inl (Process_Runtime Runtime_Registration), w')
           | (Inr _, w') \<Rightarrow>
               (case finish_process True (lim_shutdown_ms (c_limits c)) [(Some 5, Returned (Inr ()))] of
                  Inl e \<Rightarrow> (Inl (Process_Runtime e), w') | Inr _ \<Rightarrow> (Inr (), w')))"
proof -
  have run: "su_argument demo_surroundings \<noteq> Some check_config" by (simp add: demo_surroundings_def)
  have idle: "snd ((ret () :: (db, unit, unit) io) w) = w" for w by (simp add: ret_def)
  note checked = checked_worker_runs [OF demo_check_passes run, where h = granting and x = demo and now = 1
      and fresh = 2 and running = "ret ()" and signalled = True and tasks = "[(Some 5, Returned (Inr ()))]"
      and w = "healthy empty_db"]
  from checked [unfolded idle] show ?thesis by (simp add: granting_def demo_surroundings_def)
qed

end
