(* ===== verification/Spec2Isabelle.thy ===== *)
theory Spec2Isabelle
  imports Commands Settlements Schedules Drains Selection Walks Processes
begin

text \<open>
  Ratatoskr channel digests: a service that follows public Telegram channels for its owners and hands
  their posts over to Knowledge for a recap. Two processes share one PostgreSQL database. The
  \<^emph>\<open>worker\<close> consumes commands of Platform and facts of Knowledge from a message bus, walks the channels,
  builds manifests, and publishes what it queued; the \<^emph>\<open>API\<close> serves the rows of one owner at a time.
  This library models both, from \<open>src/schema.sql\<close> up to the two \<open>main\<close> functions, and proves what makes
  their parts correct, alone and together. Paths are relative to the repository.

  \<^bold>\<open>How the parts interact.\<close> A command or a fact arrives at \<open>WorkerMessageHandler::handle\<close> and becomes
  one transaction of the intake or of the coordinator; the transaction stores its inbox row, its effect and
  the report of its operation in the outbox together. A tick of the executor takes the oldest pending run,
  walks its channels through the provider, selects posts, and in one transaction stores the manifest and
  queues the recap request. The reaper fails runs that nothing moved, the retention sweep drops old
  texts. A pass over the outbox publishes the queued rows. The API only reads. So the parts share nothing
  but the tables, and a property of the whole is a property that every transaction keeps.

  \<^bold>\<open>From the bottom to the top.\<close>

  \<^item> \<open>Prelude\<close>: identities as 128-bit words, instants as integers (microseconds), the text of numbers and
    identities, the list form of \<open>update ... where\<close>, and the first collections of rules.
  \<^item> \<open>Txn\<close>: statements, pooled statements and transactions over a connection that may refuse or lose
    any reply; their result as a sum; the predicates \<open>steady\<close>, \<open>crash_safe\<close>, \<open>wp\<close>, \<open>preserves\<close>, \<open>ends\<close> and
    \<open>undone\<close> with closure rules; and the locale \<open>replay_guarded\<close>, the contract of a handler that recognizes
    what it has handled.
  \<^item> \<open>Schema\<close>: the tables of \<open>src/schema.sql\<close> as lists of rows in one record, each insert with its keys,
    checks and conflict clause; \<open>externals\<close>, the record of the code the repository only uses. \<open>Demo\<close> is one
    instance of it.
  \<^item> \<open>Reports\<close> (\<open>src/reports.rs\<close>), \<open>Subscriptions\<close> (\<open>src/subscriptions.rs\<close>, \<open>set_subscription\<close>), \<open>Runs\<close>
    (\<open>src/runs.rs\<close>, \<open>create_digest_run\<close>, \<open>transition_run\<close>), \<open>Revisions\<close> (\<open>src/revisions.rs\<close>,
    \<open>append_revision\<close>), \<open>Manifest\<close> (\<open>src/manifest.rs\<close>): the repositories and the canonical manifest.
  \<^item> \<open>Intake\<close> (\<open>src/intake.rs\<close>), \<open>Coordinator\<close> (\<open>src/coordinator.rs\<close>), \<open>Reaper\<close> (\<open>src/reaper.rs\<close>),
    \<open>Registration\<close> (\<open>src/registration.rs\<close>), \<open>Retention\<close> (\<open>src/maintenance.rs\<close>, \<open>src/retention.rs\<close>): every
    transaction of the worker, one definition per transaction body. \<open>Lifecycle\<close> orders the states of a run
    and ties them to the reports.
  \<^item> \<open>Provider\<close> (\<open>src/provider.rs\<close>), \<open>Acquisition\<close> (\<open>src/acquisition.rs\<close>), \<open>Executor\<close> (\<open>src/executor.rs\<close>):
    pages, the resumable walk with its checkpoints, and a tick.
  \<^item> \<open>Envelopes\<close> (\<open>src/envelopes.rs\<close>), \<open>Publishing\<close> and \<open>Delivery\<close> (\<open>src/bus.rs\<close>): wrapping and publishing
    the outbox; decoding, authorizing, handling and answering a delivery; the checks of the consumers.
  \<^item> \<open>System\<close>: \<open>work\<close> and \<open>step\<close>, the relations of all transactions with any arguments, clocks, identities and
    connection faults, and \<open>reachable\<close>; the locale \<open>work_closed\<close> shows that the handlers and ticks keep what
    every transaction keeps, and is interpreted on the steps themselves and on the steps beside the broker.
    \<open>Invariants\<close>: the locale \<open>statement_invariant\<close>, the laws of a property that every statement keeps,
    interpreted on the progress of runs, the subscriptions, the revisions, the evidence and the inbox.
  \<^item> \<open>Scenario\<close> and \<open>History\<close>: two concrete histories, on which the properties are tried. \<open>Commands\<close>,
    \<open>Settlements\<close>, \<open>Schedules\<close>, \<open>Drains\<close>, \<open>Selection\<close>, \<open>Walks\<close>, \<open>Outflow\<close>: what commands, facts, occurrences,
    batches, selections, walks and the outbox do on every branch.
  \<^item> \<open>ResultReader\<close> (\<open>src/result_reader.rs\<close>), \<open>Api\<close> and \<open>Reads\<close> (\<open>src/api.rs\<close>): the bounded read from
    Knowledge, the router with its two guards and five routes, and what its answers promise.
  \<^item> \<open>Net\<close>, \<open>Config\<close> (\<open>src/config.rs\<close>), \<open>Session\<close> (\<open>src/session.rs\<close>): socket addresses, the environment of a
    role, the session files.
  \<^item> \<open>Readiness\<close> (the flags and tasks of \<open>src/runtime.rs\<close>), \<open>Runtime\<close> (starting, the loops of the tasks,
    joining, the operator routes), \<open>Processes\<close> (\<open>src/telemetry.rs\<close> and both \<open>main\<close> functions).

  \<^bold>\<open>State and operations.\<close> The record \<open>db\<close> holds one list per table; a row is a record with the columns that
  the code reads or writes. A statement is a function from tables to an error or a value with new tables. An
  operation of type \<open>io\<close> threads the tables and the replies of the connection; \<open>answer_of\<close> and \<open>effect_of\<close> are
  its outcome over a healthy connection, \<open>after\<close> the tables it leaves over any. Errors are values of
  the datatypes of the same names as in the code, in a sum. What an operation draws from its surroundings,
  the clock of each statement, fresh identities, the rows that \<open>skip locked\<close> passes over, the replies
  of provider and broker, are arguments, so the theorems quantify over all of them.

  \<^bold>\<open>What the properties show.\<close>

  \<^item> Of the service at any moment (this theory, \<open>Runtime\<close>): ended runs have reported, runs only move forward,
    evidence is permanent, bodies match their digests, subscriptions are bounded; and the loops of the
    whole worker are sequences of the steps of which this was shown.
  \<^item> Of failure and repetition (this theory, \<open>Delivery\<close>, \<open>Outflow\<close>): operations are atomic over any
    connection, what is delivered again takes effect once and what was handled stays handled; the answer
    to a delivery is truthful; for a row marked published the broker holds its message.
  \<^item> Of single operations (\<open>Settlements\<close>, \<open>Schedules\<close>, \<open>Drains\<close>, \<open>Selection\<close>, \<open>Walks\<close>, \<open>Commands\<close>, \<open>Manifest\<close>):
    their effect on each branch, refusals included. Further theorems of these theories, without a claim
    number, cover the oldest pending run, flood waits, the limit and the convergence of subscriptions,
    accepted and refused commands, pages and sweeps.
  \<^item> Of the API (\<open>Reads\<close>, \<open>ResultReader\<close>): no answer depends on another owner's rows, the guards equal
    their specification, claims gate manifests, results are served as they were settled.
  \<^item> Of the processes (\<open>Config\<close>, \<open>Session\<close>, \<open>Readiness\<close>, \<open>Runtime\<close>, \<open>Processes\<close>): what loads is bounded and
    role-scoped, what checks starts, a drain ends and is reported.

  Some theorems show faults: a run command that reuses the identity of another run is never acknowledged
  (\<open>Commands\<close>), an edit that is taken back is lost (this theory), a refresh of the readiness can be lost
  for good, and the withdrawal of the readiness at the start of a drain can be overwritten (both
  \<open>Readiness\<close>).

  \<^bold>\<open>Bounds and fuel.\<close> No definition carries fuel of its own: \<open>walk\<close> recurses on the pages that
  \<open>max_pages\<close> of the request leaves (the executor asks for 20 of 100 posts), as the loop of the
  code does; the batches have the limits of their queries (32 rows of the outbox, 100 overdue runs, 5000 bodies
  and 5000 texts), and \<open>read_groups\<close> recurses on the groups of an address that are left. A loop of a
  task runs over the list of the events that wake it, any finite history of it. After the drain is sent, 22
  steps of the bus and provider tasks are possible at most (\<open>Readiness\<close>). The counters are 64-bit words
  and wrap; configured numbers are checked against the width they are parsed at.

  \<^bold>\<open>Assumptions of the model.\<close> Transactions are serial: each runs on the tables that the one before left.
  The database answers a statement with one of the errors that the code tells apart. A handler that runs a
  second transaction after an undone first draws the same clock and fresh identities in both, and
  that fresh identities differ is a hypothesis where it matters. Usernames are
  ASCII and compared by byte. Columns that no query reads (\<open>created_at\<close> of most tables, \<open>received_at\<close>) are
  left out. No registration replaces a row of the outbox between the moment a pass has read it and the moment it
  hands it over: a worker registers before its bus task starts. A stored JSON payload is the typed value it was written from, and a serialized envelope a value
  of the opaque type \<open>'b\<close> with its codec as a record of functions; where a theorem needs these to be
  inverse, it says so. A header value that is not visible ASCII is \<open>None\<close>. The loads and stores of the
  readiness flags interleave sequentially consistently, and nothing else of the two tasks is timed.

  \<^bold>\<open>Not modelled.\<close> The contract, identifier and envelope crates, the Telegram client, NATS, the HTTP server
  and client, PostgreSQL's planner and locks, the cipher and the hash are parameters. What only moves bytes
  has no definition: the graceful shutdown of a listener, signal handlers, the rendering of log
  lines, the redacted \<open>Debug\<close> forms, the routes that do not exist and the methods that are not allowed. The
  pace of the ticks is not modelled, nor the retry and keep-alive settings of clients. \<open>src/lib.rs\<close> only
  re-exports.
\<close>

section \<open>The service at any moment\<close>

text \<open>
  C1: an on-demand run that has ended has told its operation: in every reachable state of the
  database, whatever the order of transactions, replays and lost connections, the outbox holds the
  report of the queued run and the report of the status that the run ended with.
\<close>

theorem ended_run_reported:
  assumes "reachable x d" and "r \<in> set (runs d)" and "run_trigger r = On_Demand" and "terminal (run_state r)"
  shows "reported (outbox d) (run_operation r) Op_Queued
     \<and> reported (outbox d) (run_operation r)
         (if run_state r = Completed then Op_Succeeded
          else if run_state r = Partial then Op_Partially_Succeeded else Op_Failed)"
proof -
  from reachable_ok(1) [OF assms(1)] assms(2) have "announced (outbox d) r"
    by (auto simp: lifecycle_ok_def list_all_iff)
  with assms(3,4) show ?thesis by (cases "run_state r") (simp_all add: announced_def)
qed

theorem ended_run_reported_witness: "reported (outbox demo_failed) 72 Op_Failed"
  using ended_run_reported [OF demo_failed_reachable(2), of demo_failed_row]
  by (simp add: demo_failed_rows demo_failed_row_def demo_run_row_def)

lemma run_progresses:
  assumes "reachable x a" and "steps x a b" and "r \<in> set (runs a)"
  shows "progressed r b"
proof -
  from assms(3) have "progressed r a" by (auto simp: progressed_def)
  with progress.steps_keep [OF assms(2) reachable_ok(1) [OF assms(1)]] show ?thesis by blast
qed

lemma transition_keeps_ended:
  assumes "q \<in> set (runs d)" and "terminal (run_state q)"
  shows "q \<in> set (runs (after (run_transition now run expected target failure) d ns))"
proof -
  have "preserves (\<lambda>d. q \<in> set (runs d)) (run_transition now run expected target failure)"
    unfolding run_transition_def
    by (intro preserves_map_err preserves_pooled)
      (use assms(2) in \<open>auto simp: transition_run_Inr Let_def set_update_where\<close>)
  from preserves_step [OF this assms(1)] show ?thesis .
qed

text \<open>
  C7: a run only moves forward. Whatever the service does after a reachable state, a stored run is found
  again under its identity, owner, key, window and operation, in the state it had or in a later one of
  the order accepted, acquiring, waiting for the recap, ended; so a run that has ended, whose state no other
  is above, stays in that state, with its failure class. The repository's \<open>transition\<close>, which no task of the
  service calls and which may set an open run back, is not one of these steps; but whatever it is called with and
  whatever its connection does, it leaves a run that has ended exactly as it is.
\<close>

theorem runs_move_forward:
  assumes "reachable x a" and "steps x a b" and "r \<in> set (runs a)"
  shows "\<exists>q \<in> set (runs b). run_id q = run_id r \<and> natural_key q = natural_key r
     \<and> run_operation q = run_operation r \<and> run_state r \<le> run_state q
     \<and> (if terminal (run_state r) then run_state q = run_state r \<and> run_failure q = run_failure r
        else run_state r < Completed \<and> run_state r < Partial \<and> run_state r < Failed)
     \<and> (terminal (run_state q) \<longrightarrow>
          q \<in> set (runs (after (run_transition now run expected target failure) b ns)))"
proof -
  from run_progresses [OF assms] obtain q where "q \<in> set (runs b)" "run_id q = run_id r"
      "natural_key q = natural_key r" "run_operation q = run_operation r" "run_state r \<le> run_state q"
      "terminal (run_state r) \<longrightarrow> run_failure q = run_failure r"
    by (auto simp: progressed_def)
  then show ?thesis
    by (intro bexI [of _ q]) (auto simp: terminal_maximal not_terminal_below intro: transition_keeps_ended)
qed

text \<open>
  A run that has ended stays as it is. Whatever the service does after a reachable state, a run
  that was completed, partial or failed keeps its identity, owner, operation, trigger, key, window,
  state and failure class.
\<close>

theorem ended_run_final:
  assumes "reachable x a" and "steps x a b" and "r \<in> set (runs a)" and "terminal (run_state r)"
  shows "\<exists>q \<in> set (runs b). run_id q = run_id r \<and> natural_key q = natural_key r
     \<and> run_operation q = run_operation r \<and> run_state q = run_state r \<and> run_failure q = run_failure r"
  using run_progresses [OF assms(1-3)] assms(4) by (auto simp: progressed_def terminal_maximal)

theorem runs_move_forward_witness:
  "let d = after (reap_once demo 1 900 {} (\<lambda>i. 300) 900) demo_failed []
   in \<exists>q \<in> set (runs d). run_id q = 5 \<and> run_state q = Failed \<and> run_failure q = Some ''provider_unavailable''
        \<and> q \<in> set (runs (after (run_transition 950 5 Failed Accepted None) d []))"
proof -
  have later: "steps demo demo_failed (after (reap_once demo 1 900 {} (\<lambda>i. 300) 900) demo_failed [])"
    by (rule r_into_rtranclp) (rule step.working, rule work.reap_runs)
  have "demo_failed_row \<in> set (runs demo_failed)" by (simp add: demo_failed_rows)
  from runs_move_forward [OF demo_failed_reachable(2) later this, where now = 950 and run = 5
      and expected = Failed and target = Accepted and failure = None and ns = "[]"] show ?thesis
    by (auto simp: Let_def demo_failed_row_def demo_run_row_def)
qed

text \<open>
  C8: what was observed stays in evidence. Whatever the service does after a reachable state, a stored
  revision keeps its identity, channel, message, digest, times and link, a manifest keeps its identity,
  run, owner, digest and counts, and a result keeps every column; only texts may be dropped.
\<close>

theorem evidence_permanent:
  assumes "reachable x a" and "steps x a b"
  shows "set (map provenance (revisions a)) \<subseteq> set (map provenance (revisions b))
     \<and> set (map manifest_evidence (manifests a)) \<subseteq> set (map manifest_evidence (manifests b))
     \<and> set (results a) \<subseteq> set (results b)"
proof -
  note ok = reachable_ok [OF assms(1)]
  have "observed_as x (set (map provenance (revisions a))) a"
    using ok(3) by (simp add: observed_as_def)
  then have one: "observed_as x (set (map provenance (revisions a))) b"
    using observed.steps_keep [OF assms(2) ok(1)] by blast
  have "evidence_ok (set (map manifest_evidence (manifests a))) (set (results a)) a"
    using ok(4) by (simp add: evidence_ok_def)
  then have "evidence_ok (set (map manifest_evidence (manifests a))) (set (results a)) b"
    using evidenced.steps_keep [OF assms(2) ok(1)] by blast
  with one show ?thesis by (simp add: observed_as_def evidence_ok_def)
qed

text \<open>A post is stored in a channel that someone follows.\<close>

definition demo_followed :: db where
  "demo_followed = after (transaction Intake_Storage
     (subscription_body demo demo_moment 2 ''follow'' demo_subscription)) empty_db []"

definition demo_observed :: db where
  "demo_observed = after (append demo 60 \<lparr>ob_channel = 91, ob_message = 9, ob_body = ''post'',
     ob_link = ''link'', ob_published = int_text 150, ob_observed = int_text 200\<rparr>) demo_followed []"

lemma demo_observed_reachable: "reachable demo demo_observed"
proof -
  have "step demo empty_db demo_followed" unfolding demo_followed_def by (rule step.working, rule work.subscribe)
  moreover have "step demo demo_followed demo_observed" unfolding demo_observed_def by (rule step.working, rule work.observe)
  ultimately show ?thesis unfolding reachable_def by (meson converse_rtranclp_into_rtranclp r_into_rtranclp)
qed

lemma demo_followed_rows:
  "channels demo_followed = [\<lparr>ch_id = 91, ch_username = ''rustlang'', ch_display_name = None\<rparr>]"
  "subscriptions demo_followed = [\<lparr>sub_id = 90, sub_owner = 7, sub_channel = 91,
     sub_first_activated = 300, sub_enabled = True, sub_updated = 300\<rparr>]"
  "revisions demo_followed = []"
proof -
  have "ascii_lower ''rustlang'' = ''rustlang''" by code_simp
  then show "channels demo_followed = [\<lparr>ch_id = 91, ch_username = ''rustlang'', ch_display_name = None\<rparr>]"
    and "subscriptions demo_followed = [\<lparr>sub_id = 90, sub_owner = 7, sub_channel = 91,
       sub_first_activated = 300, sub_enabled = True, sub_updated = 300\<rparr>]"
    and "revisions demo_followed = []"
    by (simp_all add: demo_followed_def after_served effect_of_def run_transaction subscription_body_def
        storage_def insert_inbox_def open_inbox_def inbox_conflict_def empty_db_def set_subscription_def
        demo_subscription_def insert_channel_def select_one_def desire_subscription_def active_count_def
        active_limit_def demo_moment_def count_where_def new_report_def caused_by_def outbox_conflict_def
        complete_inbox_def)
qed

lemma demo_observed_rows: "map provenance (revisions demo_observed)
    = [(60, 91, 9, demo_sha256 ''post'', 150, 200, ''link'')]"
  by (simp add: demo_observed_def after_served effect_of_def append_def append_revision_def
      select_one_def demo_followed_rows provenance_def del: int_parse.simps)

theorem evidence_permanent_witness:
  "(60, 91, 9, demo_sha256 ''post'', 150, 200, ''link'') \<in> set (map provenance (revisions
     (after (minimize_before demo 900 {} ''500'' 10) demo_observed [])))"
proof -
  have "steps demo demo_observed (after (minimize_before demo 900 {} ''500'' 10) demo_observed [])"
    by (rule r_into_rtranclp) (rule step.working, rule work.sweep_bodies)
  from evidence_permanent [OF demo_observed_reachable this] show ?thesis
    unfolding demo_observed_rows by simp
qed

text \<open>
  C16: in every reachable state each owner follows at most twenty channels, each followed channel
  exists, and an owner has one row per channel.
\<close>

theorem subscriptions_bounded:
  assumes "reachable x d"
  shows "active_count owner d \<le> 20
     \<and> sub_channel ` set (subscriptions d) \<subseteq> ch_id ` set (channels d)
     \<and> distinct (map (\<lambda>s. (sub_owner s, sub_channel s)) (subscriptions d))"
  using reachable_ok(2) [OF assms] by (simp add: subscriptions_ok_def active_limit_def)

theorem subscriptions_bounded_witness: "active_count 7 demo_failed \<le> 20"
  using subscriptions_bounded [OF demo_failed_reachable(2)] by blast

text \<open>
  C9: in every reachable state a stored body is the one that its digest names, and a withdrawn or
  minimized post has none; each message revision is stored once per content.
\<close>

theorem bodies_match_digests:
  assumes "reachable x d"
  shows "list_all (\<lambda>r. case rev_body r of None \<Rightarrow> True
       | Some b \<Rightarrow> rev_sha256 r = sha256 x b \<and> rev_deleted r = None) (revisions d)
     \<and> distinct (map rev_id (revisions d)) \<and> distinct (map revision_key (revisions d))"
  using reachable_ok(3) [OF assms]
  by (simp add: observed_as_def revisions_ok_def revision_checks_def [abs_def])

theorem bodies_match_digests_witness:
  "list_all (\<lambda>r. case rev_body r of None \<Rightarrow> True
       | Some b \<Rightarrow> rev_sha256 r = sha256 demo b \<and> rev_deleted r = None) (revisions demo_observed)"
  using bodies_match_digests [OF demo_observed_reachable] by (rule conjunct1)

text \<open>
  C37: an edit that is taken back is lost. Observing a post with a content it had before its present one
  answers the old revision and changes nothing, so the selection goes on without that content: whatever
  it holds of the post has another body than the channel now shows.
\<close>

theorem reverted_edit_lost:
  assumes "reachable x d"
    and "ra \<in> set (revisions d)" and "rev_body ra = Some (ob_body ob)"
    and "rev_channel ra = ob_channel ob" and "rev_message ra = ob_message ob"
    and "rb \<in> set (revisions d)" and "live rb" and "Executor.message_of rb = Executor.message_of ra"
    and "rev_published rb = rev_published ra"
    and "(rev_observed ra, rev_id ra) < (rev_observed rb, rev_id rb)"
    and "pg_parse x (ob_published ob) \<noteq> None" and "pg_parse x (ob_observed ob) \<noteq> None"
    and "length (sha256 x (ob_body ob)) = 64"
  shows "append x fresh ob (healthy d) = (Inr (rev_id ra), healthy d)
     \<and> (case selected_sources x n run d of
          Inl _ \<Rightarrow> True
        | Inr s \<Rightarrow> list_all (\<lambda>p. ms_channel p = ob_channel ob \<longrightarrow> ms_message p = ob_message ob
            \<longrightarrow> ms_body p \<noteq> ob_body ob) (sl_sources s))"
proof -
  have ok: "revisions_ok x (revisions d)" using reachable_ok(3) [OF assms(1)] by (simp add: observed_as_def)
  then have keys: "unique_by revision_key (revisions d)" by (simp add: revisions_ok_def)
  have digest: "rev_sha256 r = sha256 x b" if "r \<in> set (revisions d)" "rev_body r = Some b" for r b
    using ok that by (auto simp: revisions_ok_def revision_checks_def list_all_iff split: option.splits)
  have "select_one (\<lambda>r. revision_key r = (ob_channel ob, ob_message ob, sha256 x (ob_body ob))) (revisions d) = Some ra"
    using digest [OF assms(2,3)] assms(4,5) by (intro select_one_key [OF keys assms(2)]) (auto simp: revision_key_def)
  then have known: "append x fresh ob (healthy d) = (Inr (rev_id ra), healthy d)"
    using assms(11-13) by (auto simp: append_def append_revision_def)
  have lost: "ms_body p \<noteq> ob_body ob"
    if sel: "selected_sources x n run d = Inr s" "p \<in> set (sl_sources s)"
      and msg: "ms_channel p = ob_channel ob" "ms_message p = ob_message ob" for s p
  proof
    assume same: "ms_body p = ob_body ob"
    from selected_eligible [OF sel] obtain start "end" r c
      where r: "eligible (pn_owner run) start end d r"
      and p: "p = source_of x (window_revisions (pn_owner run) start end d) (r, c)" .
    from r have "r \<in> set (revisions d)" and "live r" by (simp_all add: eligible_def window_revisions_def)
    with p same msg digest [of r] digest [OF assms(2,3)] have "revision_key r = revision_key ra"
      using assms(4,5) by (auto simp: revision_key_def source_of_def live_def)
    with \<open>r \<in> set (revisions d)\<close> have [simp]: "r = ra" using unique_byD [OF keys] assms(2) by blast
    have "rb \<in> set (window_revisions (pn_owner run) start end d)"
      using r assms(6,8,9) by (auto simp: eligible_def window_revisions_def Executor.message_of_def)
    with r assms(7,8) have "(rev_observed rb, rev_id rb) \<le> (rev_observed ra, rev_id ra)"
      by (simp add: eligible_def)
    with assms(10) show False by (metis leD)
  qed
  show ?thesis using known lost by (auto simp: list_all_iff split: sum.splits)
qed

text \<open>The post is edited, and the edit is taken back.\<close>

definition demo_edited :: db where
  "demo_edited = after (append demo 61 \<lparr>ob_channel = 91, ob_message = 9, ob_body = ''edit'',
     ob_link = ''link'', ob_published = int_text 150, ob_observed = int_text 250\<rparr>) demo_observed []"

definition demo_restored :: observed_revision where
  "demo_restored = \<lparr>ob_channel = 91, ob_message = 9, ob_body = ''post'', ob_link = ''link'',
     ob_published = int_text 150, ob_observed = int_text 300\<rparr>"

lemma demo_edited_reachable: "reachable demo demo_edited"
proof -
  have "step demo demo_observed demo_edited" unfolding demo_edited_def by (rule step.working, rule work.observe)
  with demo_observed_reachable show ?thesis unfolding reachable_def by (rule rtranclp.rtrancl_into_rtrancl)
qed

lemma demo_edited_rows: "revisions demo_edited =
    [demo_revision 60 9 150 200 ''post'', demo_revision 61 9 150 250 ''edit'']"
proof -
  have "demo_sha256 ''post'' \<noteq> demo_sha256 ''edit''" by code_simp
  then show ?thesis
    by (simp add: demo_edited_def demo_observed_def after_served effect_of_def append_def append_revision_def
        select_one_def demo_followed_rows revision_key_def demo_revision_def del: int_parse.simps)
qed

theorem reverted_edit_lost_witness:
  "append demo 62 demo_restored (healthy demo_edited) = (Inr 60, healthy demo_edited)
     \<and> (case selected_sources demo 2 demo_pending demo_edited of
          Inl _ \<Rightarrow> True
        | Inr s \<Rightarrow> list_all (\<lambda>p. ms_channel p = 91 \<longrightarrow> ms_message p = 9 \<longrightarrow> ms_body p \<noteq> ''post'') (sl_sources s))"
proof -
  have "demo_sha256 ''post'' \<noteq> demo_sha256 ''edit''" by code_simp
  then show ?thesis
    using reverted_edit_lost [OF demo_edited_reachable, of "demo_revision 60 9 150 200 ''post''" demo_restored
        "demo_revision 61 9 150 250 ''edit''" 62 2 demo_pending]
    by (simp add: demo_edited_rows demo_restored_def demo_revision_def live_def Executor.message_of_def split: sum.splits del: int_parse.simps)
qed

section \<open>Handlers and connections\<close>

lemma follows_after: "preserves (steps x d) m \<Longrightarrow> steps x d (after m d ns)"
  by (simp add: preserves_def after_def)

text \<open>
  Every entry point of the service is a sequence of its transactions, over any connection: the
  handlers of commands, occurrences and Knowledge facts, the registration, and one whole tick of the
  executor with its walks over the channels, whatever the provider answers. So a property of the
  reachable states holds between any two of them.
\<close>

theorem handlers_are_steps:
  "steps x d (after (accept_subscription x c message payload) d ns)
   \<and> steps x d (after (accept_run x c message payload) d ns)
   \<and> steps x d (after (reject_unreadable x c message kind tenant entries) d ns)
   \<and> steps x d (after (accept_occurrence x now fresh fresh_runs oc) d ns)
   \<and> steps x d (after (settle_completion x now fresh message payload) d ns)
   \<and> steps x d (after (settle_failure x now fresh_result fresh message payload) d ns)
   \<and> steps x d (after (enqueue_schedule_registration x now fresh schedule) d ns)
   \<and> steps x d (fst (tables (snd (execute_one x k pv te n \<lparr>tables = (d, ct), wire = ns\<rparr>))))"
proof -
  have "steps x d (fst (tables (snd (execute_one x k pv te n \<lparr>tables = (d, ct), wire = ns\<rparr>))))"
    using stepwise.trail_execute_one [of x d k pv te n] by (simp add: preserves_def)
  then show ?thesis
    by (intro conjI follows_after stepwise.follows_accept_subscription stepwise.follows_accept_run stepwise.follows_reject_unreadable
        stepwise.follows_accept_occurrence stepwise.follows_settle_completion stepwise.follows_settle_failure stepwise.follows_registration)
qed

text \<open>
  C2: a lost connection never leaves half of an operation. After a call of any transactional operation,
  over any connection, the database is as it was before the call, or as the call leaves it when every
  round trip is served.
\<close>

theorem operations_atomic:
  "after (accept_subscription x c message payload) d ns \<in> {d, effect_of (accept_subscription x c message payload) d}
   \<and> after (accept_run x c message payload) d ns \<in> {d, effect_of (accept_run x c message payload) d}
   \<and> after (reject_unreadable x c message kind tenant entries) d ns
       \<in> {d, effect_of (reject_unreadable x c message kind tenant entries) d}
   \<and> after (accept_occurrence x now fresh fresh_runs oc) d ns
       \<in> {d, effect_of (accept_occurrence x now fresh fresh_runs oc) d}
   \<and> after (commit_manifest x now fresh m raw) d ns \<in> {d, effect_of (commit_manifest x now fresh m raw) d}
   \<and> after (complete_empty_run x now fresh run owner) d ns
       \<in> {d, effect_of (complete_empty_run x now fresh run owner) d}
   \<and> after (fail_run x now fresh run owner failure) d ns
       \<in> {d, effect_of (fail_run x now fresh run owner failure) d}
   \<and> after (settle_completion x now fresh message payload) d ns
       \<in> {d, effect_of (settle_completion x now fresh message payload) d}
   \<and> after (settle_failure x now fresh_result fresh message payload) d ns
       \<in> {d, effect_of (settle_failure x now fresh_result fresh message payload) d}
   \<and> after (reap_once x deadline now locked fresh_reports tick) d ns
       \<in> {d, effect_of (reap_once x deadline now locked fresh_reports tick) d}
   \<and> after (enqueue_schedule_registration x now fresh schedule) d ns
       \<in> {d, effect_of (enqueue_schedule_registration x now fresh schedule) d}"
proof -
  have two: "after m d ns \<in> {d, effect_of m d}" if "crash_safe m" for m :: "(db, 'e, 'a) io"
    using crash_safe_cases [OF that, of "\<lparr>tables = d, wire = ns\<rparr>"] by (auto simp: after_def)
  show ?thesis
    by (intro conjI two crash_safe_accept_subscription crash_safe_accept_run crash_safe_reject_unreadable
        crash_safe_accept_occurrence crash_safe_commit_manifest crash_safe_complete_empty_run
        crash_safe_fail_run crash_safe_settle_completion crash_safe_settle_failure crash_safe_reap_once
        crash_safe_registration)
qed

section \<open>Deliveries\<close>

lemma after_nothing: "crash_safe m \<Longrightarrow> effect_of m d = d \<Longrightarrow> after m d ns = d"
  using crash_safe_cases [of m "\<lparr>tables = d, wire = ns\<rparr>"] by (simp add: after_def)

text \<open>
  C3: a command takes effect at most once. However often it is delivered, each time with another clock
  and other fresh identities and over a connection that fails anywhere, the database ends as it was or
  as one single delivery over a healthy connection leaves it. This holds for run and subscription
  commands and for schedule occurrences.
\<close>

theorem commands_take_effect_once:
  "(deliveries (\<lambda>c. accept_run x c message payload) rs d = d
     \<or> (\<exists>c. c \<in> fst ` set rs \<and> deliveries (\<lambda>c. accept_run x c message payload) rs d
           = effect_of (accept_run x c message payload) d))
   \<and> (deliveries (\<lambda>c. accept_subscription x c message payload) rs d = d
     \<or> (\<exists>c. c \<in> fst ` set rs \<and> deliveries (\<lambda>c. accept_subscription x c message payload) rs d
           = effect_of (accept_subscription x c message payload) d))
   \<and> (deliveries (\<lambda>(now, fresh, fresh_runs). accept_occurrence x now fresh fresh_runs oc) os d = d
     \<or> (\<exists>now fresh fresh_runs. (now, fresh, fresh_runs) \<in> fst ` set os
          \<and> deliveries (\<lambda>(now, fresh, fresh_runs). accept_occurrence x now fresh fresh_runs oc) os d
           = effect_of (accept_occurrence x now fresh fresh_runs oc) d))"
proof -
  have "(\<lambda>(now, fresh, fresh_runs). accept_occurrence x now fresh fresh_runs oc)
      = (\<lambda>c. accept_occurrence x (fst c) (fst (snd c)) (snd (snd c)) oc)"
    by (simp add: fun_eq_iff)
  with run_intake.deliveries_once [of x message payload rs d]
    subscription_intake.deliveries_once [of x message payload rs d]
    occurrence_intake.deliveries_once [of x oc os d]
  show ?thesis by fastforce
qed

text \<open>
  C4: a Knowledge fact and the hand-over of a manifest take effect at most once, under the same
  conditions.
\<close>

theorem facts_take_effect_once:
  "(deliveries (\<lambda>(now, fresh). settle_completion x now fresh message payload) cs d = d
     \<or> (\<exists>now fresh. (now, fresh) \<in> fst ` set cs
          \<and> deliveries (\<lambda>(now, fresh). settle_completion x now fresh message payload) cs d
           = effect_of (settle_completion x now fresh message payload) d))
   \<and> (deliveries (\<lambda>(now, fresh_result, fresh). settle_failure x now fresh_result fresh message payload) fs d = d
     \<or> (\<exists>now fresh_result fresh. (now, fresh_result, fresh) \<in> fst ` set fs
          \<and> deliveries (\<lambda>(now, fresh_result, fresh). settle_failure x now fresh_result fresh message payload) fs d
           = effect_of (settle_failure x now fresh_result fresh message payload) d))
   \<and> (deliveries (\<lambda>(now, fresh). commit_manifest x now fresh m raw) cs d = d
     \<or> (\<exists>now fresh. (now, fresh) \<in> fst ` set cs
          \<and> deliveries (\<lambda>(now, fresh). commit_manifest x now fresh m raw) cs d
           = effect_of (commit_manifest x now fresh m raw) d))"
proof -
  have "(\<lambda>(now, fresh). settle_completion x now fresh message payload)
      = (\<lambda>c. settle_completion x (fst c) (snd c) message payload)"
    and "(\<lambda>(now, fresh_result, fresh). settle_failure x now fresh_result fresh message payload)
      = (\<lambda>c. settle_failure x (fst c) (fst (snd c)) (snd (snd c)) message payload)"
    and "(\<lambda>(now, fresh). commit_manifest x now fresh m raw)
      = (\<lambda>c. commit_manifest x (fst c) (snd c) m raw)"
    by (simp_all add: fun_eq_iff)
  with completion_settlement.deliveries_once [of x message payload cs d]
    failure_settlement.deliveries_once [of x message payload fs d]
    manifest_commit.deliveries_once [of x m raw cs d]
  show ?thesis by fastforce
qed

text \<open>
  C5: what was handled stays handled. Once a command, an occurrence, a Knowledge fact or a manifest was
  handled in a reachable state, then after any further transactions of the service a delivery of it
  changes nothing, whatever the connection does.
\<close>

theorem handled_forever:
  assumes "reachable x a" and "steps x a b"
  shows "(run_handled x message payload a \<longrightarrow> after (accept_run x c message payload) b ns = b)
     \<and> (subscription_handled x message payload a \<longrightarrow> after (accept_subscription x c message payload) b ns = b)
     \<and> (occurrence_handled oc a \<longrightarrow> after (accept_occurrence x now fresh fresh_runs oc) b ns = b)
     \<and> (completion_handled x message payload a \<longrightarrow> after (settle_completion x now fresh message payload) b ns = b)
     \<and> (failure_handled x message payload a
          \<longrightarrow> after (settle_failure x now fresh_result fresh message payload) b ns = b)
     \<and> (manifest_committed (cn_run m) a \<longrightarrow> after (commit_manifest x now fresh m raw) b ns = b)"
proof -
  note later = handled_later [OF assms]
  have "run_handled x message payload b" if "run_handled x message payload a"
    using that later by (auto simp: run_handled_def split: option.splits)
  moreover have "subscription_handled x message payload b" if "subscription_handled x message payload a"
    using that later by (auto simp: subscription_handled_def split: option.splits)
  moreover have "occurrence_handled oc b" if "occurrence_handled oc a"
    using that later by (simp add: occurrence_handled_def)
  moreover have "completion_handled x message payload b" if "completion_handled x message payload a"
    using that later by (auto simp: completion_handled_def split: option.splits)
  moreover have "failure_handled x message payload b" if "failure_handled x message payload a"
    using that later by (auto simp: failure_handled_def split: option.splits)
  moreover have "manifest_committed (cn_run m) b" if "manifest_committed (cn_run m) a"
  proof -
    note ok = reachable_ok [OF assms(1)]
    have "evidence_ok (set (map manifest_evidence (manifests a))) {} a" using ok(4) by (simp add: evidence_ok_def)
    then have "evidence_ok (set (map manifest_evidence (manifests a))) {} b"
      using evidenced.steps_keep [OF assms(2) ok(1)] by blast
    then have "manifest_evidence ` set (manifests a) \<subseteq> manifest_evidence ` set (manifests b)"
      by (simp add: evidence_ok_def)
    with that show ?thesis by (force simp: manifest_committed_def manifest_evidence_def)
  qed
  ultimately show ?thesis
    by (auto intro!: after_nothing crash_safe_accept_run crash_safe_accept_subscription
        crash_safe_accept_occurrence crash_safe_settle_completion crash_safe_settle_failure
        crash_safe_commit_manifest accept_run_again accept_subscription_again accept_occurrence_again
        settle_completion_again settle_failure_again commit_manifest_again)
qed

theorem handled_forever_witness: "after (accept_run demo demo_moment 1 ''digest'') demo_failed [Lost] = demo_failed"
proof -
  have "1 \<in> in_id ` set (inbox demo_accepted)" using demo_accepted_inbox by (metis list.set_intros(1) set_map)
  then have "run_handled demo 1 ''digest'' demo_accepted"
    by (auto simp: run_handled_def inbox_conflict_def)
  with handled_forever [OF demo_accepted_reachable demo_failed_reachable(1)] show ?thesis by blast
qed

end
